(* ===== verification/Base.thy ===== *)
theory Base
  imports Main "HOL-Library.Word" "HOL-Library.Monad_Syntax"
begin

text \<open>
  Shared vocabulary of the development: the integer types of
  \<^verbatim>\<open>applications/inc/typedef.h\<close>, the constants \<open>YES\<close> and \<open>NO\<close>, byte-level views of
  wider integers as the little-endian target stores them, stores into memory blocks of a
  known size, and generic facts about lists and words.

  A C operation with undefined behaviour (a store outside its object, a call through an
  uninitialised function pointer) has the value \<^term>\<open>None\<close> in the \<open>option\<close> type;
  everything else is \<^term>\<open>Some\<close> of the resulting state.
\<close>

unbundle bit_operations_syntax

section \<open>Integer types and constants\<close>

type_synonym u8 = "8 word"
type_synonym u16 = "16 word"
type_synonym u32 = "32 word"
type_synonym s16 = "16 word"
type_synonym bytes = "u8 list"

definition NO :: u8 where [simp]: "NO = 0"
definition YES :: u8 where [simp]: "YES = 1"

text \<open>\<open>fw_defs\<close> collects the firmware's one-line accessors, \<open>frame_simps\<close> the facts
  that an operation leaves a part of the state alone, \<open>word_facts\<close> bit-level rewrites.\<close>

named_theorems fw_defs
named_theorems frame_simps
named_theorems word_facts

section \<open>Lists\<close>

lemma fold_append_single [simp]: "fold f (xs @ [x]) s = f x (fold f xs s)"
  by simp

lemma list_update_length_append:
  "(xs @ y # ys)[length xs := z] = xs @ z # ys"
  by (fact list_update_length)

lemma nth_list_update_other [simp]: "i \<noteq> j \<Longrightarrow> xs[i := x] ! j = xs ! j"
  by simp

lemma radix_less: "a < n \<Longrightarrow> i < h \<Longrightarrow> a * h + i < n * (h :: nat)"
proof -
  assume "a < n" "i < h"
  then have "Suc a * h \<le> n * h" by (intro mult_le_mono1) simp
  with \<open>i < h\<close> show ?thesis by simp
qed

text \<open>Result codes of the operating system that the firmware uses too.\<close>

definition RT_EOK :: int where "RT_EOK = 0"
definition RT_ERROR :: int where "RT_ERROR = 1"

section \<open>Blocks of memory\<close>

text \<open>A store of one byte at index \<open>i\<close> of a block; outside the block the C code has
  undefined behaviour.\<close>

definition put_byte :: "nat \<Rightarrow> u8 \<Rightarrow> bytes \<Rightarrow> bytes option" where
  "put_byte i v b = (if i < length b then Some (b[i := v]) else None)"

text \<open>\<^verbatim>\<open>rt_memcpy(&b[i], src, length src)\<close> into a block.\<close>

definition put_bytes :: "nat \<Rightarrow> bytes \<Rightarrow> bytes \<Rightarrow> bytes option" where
  "put_bytes i src b =
     (if i + length src \<le> length b
      then Some (take i b @ src @ drop (i + length src) b) else None)"

lemma put_byte_Some [simp]: "i < length b \<Longrightarrow> put_byte i v b = Some (b[i := v])"
  by (simp add: put_byte_def)

lemma put_byte_None [simp]: "length b \<le> i \<Longrightarrow> put_byte i v b = None"
  by (simp add: put_byte_def)

lemma put_bytes_Some [simp]:
  "i + length src \<le> length b \<Longrightarrow>
   put_bytes i src b = Some (take i b @ src @ drop (i + length src) b)"
  by (simp add: put_bytes_def)

section \<open>Words and bytes\<close>

definition lo8 :: "u16 \<Rightarrow> u8" where "lo8 w = ucast w"
definition hi8 :: "u16 \<Rightarrow> u8" where "hi8 w = ucast (drop_bit 8 w)"
definition mk16 :: "u8 \<Rightarrow> u8 \<Rightarrow> u16" where
  "mk16 h l = push_bit 8 (ucast h) OR ucast l"

text \<open>How the little-endian Cortex-M3 stores a 16- or 32-bit integer.\<close>

definition le16 :: "u16 \<Rightarrow> bytes" where "le16 w = [lo8 w, hi8 w]"
definition le32 :: "u32 \<Rightarrow> bytes" where
  "le32 w = [ucast w, ucast (drop_bit 8 w), ucast (drop_bit 16 w), ucast (drop_bit 24 w)]"
definition of_le32 :: "bytes \<Rightarrow> u32" where
  "of_le32 b = ucast (b ! 0) OR push_bit 8 (ucast (b ! 1)) OR
               push_bit 16 (ucast (b ! 2)) OR push_bit 24 (ucast (b ! 3))"

lemma length_le16 [simp]: "length (le16 w) = 2" by (simp add: le16_def)
lemma length_le32 [simp]: "length (le32 w) = 4" by (simp add: le32_def)

lemma lo8_mk16 [simp]: "lo8 (mk16 h l) = l"
  by (rule bit_word_eqI) (auto simp: lo8_def mk16_def bit_simps)

lemma hi8_mk16 [simp]: "hi8 (mk16 h l) = h"
  by (rule bit_word_eqI) (auto simp: hi8_def mk16_def bit_simps dest: bit_imp_le_length)

lemma mk16_hi_lo [simp]: "mk16 (hi8 w) (lo8 w) = w"
  by (rule bit_word_eqI) (auto simp: lo8_def hi8_def mk16_def bit_simps)

lemma mk16_inject [simp]: "mk16 h l = mk16 h' l' \<longleftrightarrow> h = h' \<and> l = l'"
  by (metis lo8_mk16 hi8_mk16)

lemma of_le32_le32 [simp]: "of_le32 (le32 w) = w"
proof (rule bit_word_eqI)
  fix n assume n: "n < LENGTH(32)"
  consider "n < 8" | "8 \<le> n" "n < 16" | "16 \<le> n" "n < 24" | "24 \<le> n" by linarith
  then show "bit (of_le32 (le32 w)) n = bit w n"
    using n by cases (auto simp: of_le32_def le32_def bit_simps)
qed

lemma le32_of_le32:
  "ucast (of_le32 [b0, b1, b2, b3]) = b0"
  "ucast (drop_bit 8 (of_le32 [b0, b1, b2, b3])) = b1"
  "ucast (drop_bit 16 (of_le32 [b0, b1, b2, b3])) = b2"
  "ucast (drop_bit 24 (of_le32 [b0, b1, b2, b3])) = b3"
  by (rule bit_word_eqI; auto simp: of_le32_def bit_simps dest: bit_imp_le_length)+

lemma xor_left_cancel [simp]: "(a XOR b = a XOR c) \<longleftrightarrow> b = (c :: 'a::len word)"
  by (metis xor.assoc xor_self_eq xor.left_neutral)

lemma xor_right_cancel [simp]: "(b XOR a = c XOR a) \<longleftrightarrow> b = (c :: 'a::len word)"
  by (simp add: xor.commute [of _ a])

lemma ucast_u8_inject:
  assumes "8 \<le> LENGTH('a::len)"
  shows "(ucast (a :: u8) :: 'a word) = ucast b \<longleftrightarrow> a = b"
proof
  assume eq: "(ucast a :: 'a word) = ucast b"
  show "a = b"
  proof (rule bit_word_eqI)
    fix n assume n: "n < LENGTH(8)"
    have "bit (ucast a :: 'a word) n = bit (ucast b :: 'a word) n" by (simp add: eq)
    then show "bit a n = bit b n" using n assms by (simp add: bit_simps)
  qed
qed simp

lemma u8_less: "unat (a :: u8) < 256" and u16_less: "unat (b :: u16) < 65536"
  using unsigned_less [of a] unsigned_less [of b] by simp_all

end
