(* ===== verification/Checksums.thy ===== *)
theory Checksums
  imports Base
begin

text \<open>
  The three checksums of the firmware: the Modbus CRC-16 \<open>usModbusRTU_CRC\<close> and the XOR
  check byte \<open>checkResult\<close> of \<^verbatim>\<open>applications/main.c\<close>, the table-driven CRC-32 of
  \<^verbatim>\<open>applications/crc_32.c\<close>, and \<open>ReadUniqueId\<close>, which hashes the chip's 96-bit
  identifier with it.

  The locale \<open>byte_checksum\<close> is what the protocol layers rely on: a checksum folded over
  the bytes whose step is injective in the running value and in the byte. It gives error
  detection once, and is interpreted for all three checksums. The locale \<open>reflected_crc\<close>
  is the bit-serial register both CRCs are built on.
\<close>

section \<open>The code\<close>

subsection \<open>Modbus CRC-16 (main.c)\<close>

text \<open>The inner \<open>while (ucIndex < 8U)\<close> loop with \<open>n\<close> iterations left.\<close>

fun usModbusRTU_bits :: "nat \<Rightarrow> u16 \<Rightarrow> u16" where
  "usModbusRTU_bits 0 usCRC = usCRC"
| "usModbusRTU_bits (Suc n) usCRC =
     usModbusRTU_bits n
       (if usCRC AND 1 \<noteq> 0 then drop_bit 1 usCRC XOR 0xA001 else drop_bit 1 usCRC)"

text \<open>One iteration of the outer loop.\<close>

definition usModbusRTU_byte :: "u8 \<Rightarrow> u16 \<Rightarrow> u16" where
  "usModbusRTU_byte b usCRC = usModbusRTU_bits 8 (usCRC XOR ucast b)"

text \<open>The list argument is \<open>pucData[0], \<dots>, pucData[ulLen - 1]\<close>.\<close>

definition usModbusRTU_CRC :: "bytes \<Rightarrow> u16" where
  "usModbusRTU_CRC pucData = fold usModbusRTU_byte pucData 0xFFFF"

subsection \<open>XOR check byte (main.c)\<close>

text \<open>\<open>crc\<close> is a 16-bit accumulator; the result is its low byte.\<close>

definition checkResult :: "bytes \<Rightarrow> u8" where
  "checkResult data = ucast ((fold (\<lambda>b crc. crc XOR ucast b) data (0 :: u16)) AND 0xFF)"

subsection \<open>CRC-32 (crc\_32.c)\<close>

definition CRC32_INIT_VAL :: u32 where "CRC32_INIT_VAL = 0xFFFFFFFF"

definition crc32_table :: "u32 list" where
  "crc32_table = [
    0x00000000, 0x77073096, 0xEE0E612C, 0x990951BA, 0x076DC419, 0x706AF48F, 0xE963A535, 0x9E6495A3,
    0x0EDB8832, 0x79DCB8A4, 0xE0D5E91E, 0x97D2D988, 0x09B64C2B, 0x7EB17CBD, 0xE7B82D07, 0x90BF1D91,
    0x1DB71064, 0x6AB020F2, 0xF3B97148, 0x84BE41DE, 0x1ADAD47D, 0x6DDDE4EB, 0xF4D4B551, 0x83D385C7,
    0x136C9856, 0x646BA8C0, 0xFD62F97A, 0x8A65C9EC, 0x14015C4F, 0x63066CD9, 0xFA0F3D63, 0x8D080DF5,
    0x3B6E20C8, 0x4C69105E, 0xD56041E4, 0xA2677172, 0x3C03E4D1, 0x4B04D447, 0xD20D85FD, 0xA50AB56B,
    0x35B5A8FA, 0x42B2986C, 0xDBBBC9D6, 0xACBCF940, 0x32D86CE3, 0x45DF5C75, 0xDCD60DCF, 0xABD13D59,
    0x26D930AC, 0x51DE003A, 0xC8D75180, 0xBFD06116, 0x21B4F4B5, 0x56B3C423, 0xCFBA9599, 0xB8BDA50F,
    0x2802B89E, 0x5F058808, 0xC60CD9B2, 0xB10BE924, 0x2F6F7C87, 0x58684C11, 0xC1611DAB, 0xB6662D3D,
    0x76DC4190, 0x01DB7106, 0x98D220BC, 0xEFD5102A, 0x71B18589, 0x06B6B51F, 0x9FBFE4A5, 0xE8B8D433,
    0x7807C9A2, 0x0F00F934, 0x9609A88E, 0xE10E9818, 0x7F6A0DBB, 0x086D3D2D, 0x91646C97, 0xE6635C01,
    0x6B6B51F4, 0x1C6C6162, 0x856530D8, 0xF262004E, 0x6C0695ED, 0x1B01A57B, 0x8208F4C1, 0xF50FC457,
    0x65B0D9C6, 0x12B7E950, 0x8BBEB8EA, 0xFCB9887C, 0x62DD1DDF, 0x15DA2D49, 0x8CD37CF3, 0xFBD44C65,
    0x4DB26158, 0x3AB551CE, 0xA3BC0074, 0xD4BB30E2, 0x4ADFA541, 0x3DD895D7, 0xA4D1C46D, 0xD3D6F4FB,
    0x4369E96A, 0x346ED9FC, 0xAD678846, 0xDA60B8D0, 0x44042D73, 0x33031DE5, 0xAA0A4C5F, 0xDD0D7CC9,
    0x5005713C, 0x270241AA, 0xBE0B1010, 0xC90C2086, 0x5768B525, 0x206F85B3, 0xB966D409, 0xCE61E49F,
    0x5EDEF90E, 0x29D9C998, 0xB0D09822, 0xC7D7A8B4, 0x59B33D17, 0x2EB40D81, 0xB7BD5C3B, 0xC0BA6CAD,
    0xEDB88320, 0x9ABFB3B6, 0x03B6E20C, 0x74B1D29A, 0xEAD54739, 0x9DD277AF, 0x04DB2615, 0x73DC1683,
    0xE3630B12, 0x94643B84, 0x0D6D6A3E, 0x7A6A5AA8, 0xE40ECF0B, 0x9309FF9D, 0x0A00AE27, 0x7D079EB1,
    0xF00F9344, 0x8708A3D2, 0x1E01F268, 0x6906C2FE, 0xF762575D, 0x806567CB, 0x196C3671, 0x6E6B06E7,
    0xFED41B76, 0x89D32BE0, 0x10DA7A5A, 0x67DD4ACC, 0xF9B9DF6F, 0x8EBEEFF9, 0x17B7BE43, 0x60B08ED5,
    0xD6D6A3E8, 0xA1D1937E, 0x38D8C2C4, 0x4FDFF252, 0xD1BB67F1, 0xA6BC5767, 0x3FB506DD, 0x48B2364B,
    0xD80D2BDA, 0xAF0A1B4C, 0x36034AF6, 0x41047A60, 0xDF60EFC3, 0xA867DF55, 0x316E8EEF, 0x4669BE79,
    0xCB61B38C, 0xBC66831A, 0x256FD2A0, 0x5268E236, 0xCC0C7795, 0xBB0B4703, 0x220216B9, 0x5505262F,
    0xC5BA3BBE, 0xB2BD0B28, 0x2BB45A92, 0x5CB36A04, 0xC2D7FFA7, 0xB5D0CF31, 0x2CD99E8B, 0x5BDEAE1D,
    0x9B64C2B0, 0xEC63F226, 0x756AA39C, 0x026D930A, 0x9C0906A9, 0xEB0E363F, 0x72076785, 0x05005713,
    0x95BF4A82, 0xE2B87A14, 0x7BB12BAE, 0x0CB61B38, 0x92D28E9B, 0xE5D5BE0D, 0x7CDCEFB7, 0x0BDBDF21,
    0x86D3D2D4, 0xF1D4E242, 0x68DDB3F8, 0x1FDA836E, 0x81BE16CD, 0xF6B9265B, 0x6FB077E1, 0x18B74777,
    0x88085AE6, 0xFF0F6A70, 0x66063BCA, 0x11010B5C, 0x8F659EFF, 0xF862AE69, 0x616BFFD3, 0x166CCF45,
    0xA00AE278, 0xD70DD2EE, 0x4E048354, 0x3903B3C2, 0xA7672661, 0xD06016F7, 0x4969474D, 0x3E6E77DB,
    0xAED16A4A, 0xD9D65ADC, 0x40DF0B66, 0x37D83BF0, 0xA9BCAE53, 0xDEBB9EC5, 0x47B2CF7F, 0x30B5FFE9,
    0xBDBDF21C, 0xCABAC28A, 0x53B39330, 0x24B4A3A6, 0xBAD03605, 0xCDD70693, 0x54DE5729, 0x23D967BF,
    0xB3667A2E, 0xC4614AB8, 0x5D681B02, 0x2A6F2B94, 0xB40BBE37, 0xC30C8EA1, 0x5A05DF1B, 0x2D02EF8D]"

definition crc32_byte :: "u8 \<Rightarrow> u32 \<Rightarrow> u32" where
  "crc32_byte b crc32 = (let idx = (ucast crc32 :: u8) XOR b
                         in drop_bit 8 crc32 XOR crc32_table ! unat idx)"

definition crc32_cyc_cal :: "u32 \<Rightarrow> bytes \<Rightarrow> u32" where
  "crc32_cyc_cal init_val pdata = fold crc32_byte pdata init_val"

definition crc32_cal :: "bytes \<Rightarrow> u32" where
  "crc32_cal pdata = crc32_cyc_cal CRC32_INIT_VAL pdata XOR CRC32_INIT_VAL"

text \<open>\<open>ReadUniqueId\<close> reads the three 32-bit identifier registers of the chip, which are
  the argument here, and hashes their twelve bytes.\<close>

definition ReadUniqueId :: "u32 \<times> u32 \<times> u32 \<Rightarrow> u32" where
  "ReadUniqueId ids = (case ids of (id1, id2, id3) \<Rightarrow>
     crc32_cal (le32 id1 @ le32 id2 @ le32 id3))"

section \<open>The bit-serial register\<close>

text \<open>One shift of a reflected CRC register with feedback polynomial \<open>p\<close>.\<close>

definition crc_shift :: "'a::len word \<Rightarrow> 'a word \<Rightarrow> 'a word" where
  "crc_shift p c = (if bit c 0 then drop_bit 1 c XOR p else drop_bit 1 c)"

locale reflected_crc =
  fixes poly :: "'a::len word"
  assumes top: "bit poly (LENGTH('a) - 1)"
    and wide: "8 \<le> LENGTH('a)"
begin

definition serial :: "u8 \<Rightarrow> 'a word \<Rightarrow> 'a word" where
  "serial b c = (crc_shift poly ^^ 8) (c XOR ucast b)"

lemma shift_top: "bit (crc_shift poly c) (LENGTH('a) - 1) \<longleftrightarrow> bit c 0"
  using top wide by (auto simp: crc_shift_def bit_simps dest: bit_imp_le_length)

lemma drop1_inject:
  fixes c d :: "'b::len word"
  assumes "drop_bit 1 c = drop_bit 1 d" and "bit c 0 = bit d 0"
  shows "c = d"
proof (rule bit_word_eqI)
  fix n
  show "bit c n = bit d n"
  proof (cases n)
    case 0 with assms(2) show ?thesis by simp
  next
    case (Suc m)
    have "bit (drop_bit 1 c) m = bit (drop_bit 1 d) m" using assms(1) by simp
    then show ?thesis by (simp add: Suc bit_simps)
  qed
qed

lemma shift_inject: "crc_shift poly c = crc_shift poly d \<Longrightarrow> c = d"
proof -
  assume eq: "crc_shift poly c = crc_shift poly d"
  then have low: "bit c 0 = bit d 0" by (metis shift_top)
  with eq have "drop_bit 1 c = drop_bit 1 d" by (auto simp: crc_shift_def split: if_splits)
  then show "c = d" using low by (rule drop1_inject)
qed

lemma shifts_inject: "(crc_shift poly ^^ n) c = (crc_shift poly ^^ n) d \<Longrightarrow> c = d"
  by (induction n) (auto dest: shift_inject)

lemma shift_xor: "crc_shift poly (c XOR d) = crc_shift poly c XOR crc_shift poly d"
proof -
  have [simp]: "drop_bit 1 (c XOR d) = drop_bit 1 c XOR drop_bit 1 d"
    by (rule bit_word_eqI) (simp add: bit_simps)
  show ?thesis
    by (cases "bit c 0"; cases "bit d 0")
      (simp_all add: crc_shift_def bit_simps xor.assoc xor.left_commute xor.commute)
qed

lemma shifts_xor:
  "(crc_shift poly ^^ n) (c XOR d) = (crc_shift poly ^^ n) c XOR (crc_shift poly ^^ n) d"
  by (induction n) (simp_all add: shift_xor)

lemma shifts_clear:
  "(\<And>i. i < n \<Longrightarrow> \<not> bit c i) \<Longrightarrow> (crc_shift poly ^^ n) c = drop_bit n c"
proof (induction n arbitrary: c)
  case (Suc n)
  have "crc_shift poly c = drop_bit 1 c" using Suc.prems [of 0] by (simp add: crc_shift_def)
  moreover have "(crc_shift poly ^^ n) (drop_bit 1 c) = drop_bit n (drop_bit 1 c)"
    by (rule Suc.IH) (simp add: bit_simps Suc.prems)
  ultimately show ?case by (simp add: funpow_swap1 drop_bit_drop_bit)
qed simp

lemma shifts_zero [simp]: "(crc_shift poly ^^ n) 0 = 0"
  by (simp add: shifts_clear)

lemma serial_inject_byte: "serial b c = serial b' c \<Longrightarrow> b = b'"
  using wide by (auto simp: serial_def ucast_u8_inject dest: shifts_inject)

lemma serial_inject_state: "serial b c = serial b c' \<Longrightarrow> c = c'"
  by (auto simp: serial_def dest: shifts_inject)

end

section \<open>Checksums folded over bytes\<close>

locale byte_checksum =
  fixes step :: "u8 \<Rightarrow> 's \<Rightarrow> 's"
  assumes inject_byte: "step b c = step b' c \<Longrightarrow> b = b'"
    and inject_state: "step b c = step b c' \<Longrightarrow> c = c'"
begin

lemma fold_inject: "fold step xs c = fold step xs c' \<Longrightarrow> c = c'"
  by (induction xs arbitrary: c c') (auto dest: inject_state)

text \<open>Any change of one byte changes the checksum.\<close>

lemma one_byte_detected:
  assumes "b \<noteq> b'"
  shows "fold step (xs @ b # ys) c \<noteq> fold step (xs @ b' # ys) c"
proof
  assume "fold step (xs @ b # ys) c = fold step (xs @ b' # ys) c"
  then have "step b (fold step xs c) = step b' (fold step xs c)"
    by (auto dest: fold_inject)
  then show False using assms by (auto dest: inject_byte)
qed

text \<open>A frame that carries a wrong checksum at the start value is never accepted, so a
  receiver that starts from another value rejects every frame.\<close>

lemma start_matters: "c \<noteq> c' \<Longrightarrow> fold step xs c \<noteq> fold step xs c'"
  by (auto dest: fold_inject)

end

section \<open>Modbus CRC-16 is a reflected CRC\<close>

interpretation modbus: reflected_crc "0xA001 :: u16"
  by unfold_locales (simp_all add: bit_numeral_rec)

lemma and_one_bit0: "(c AND 1 \<noteq> 0) \<longleftrightarrow> bit c 0" for c :: "'a::len word"
  by (simp add: bit_0 and_one_eq odd_iff_mod_2_eq_one)

lemma usModbusRTU_bits_shift: "usModbusRTU_bits n c = (crc_shift 0xA001 ^^ n) c"
  by (induction n arbitrary: c) (simp_all add: and_one_bit0 crc_shift_def funpow_swap1)

lemma usModbusRTU_byte_serial: "usModbusRTU_byte b c = modbus.serial b c"
  by (simp add: usModbusRTU_byte_def usModbusRTU_bits_shift modbus.serial_def)

interpretation modbus_sum: byte_checksum usModbusRTU_byte
  by unfold_locales
    (auto simp: usModbusRTU_byte_serial dest: modbus.serial_inject_byte modbus.serial_inject_state)

text \<open>The register absorbs two bytes as one 16-bit quantity.\<close>

lemma shift8_high_byte: "(crc_shift (0xA001 :: u16) ^^ 8) (push_bit 8 (ucast (b :: u8))) = ucast b"
proof -
  have "(crc_shift (0xA001 :: u16) ^^ 8) (push_bit 8 (ucast b)) = drop_bit 8 (push_bit 8 (ucast b))"
    by (rule modbus.shifts_clear) (simp add: bit_simps)
  also have "\<dots> = ucast b"
    by (rule bit_word_eqI) (auto simp: bit_simps dest: bit_imp_le_length)
  finally show ?thesis .
qed

lemma mk16_xor: "mk16 h l = push_bit 8 (ucast h) XOR ucast l"
  by (rule bit_word_eqI) (auto simp: mk16_def bit_simps dest: bit_imp_le_length)

lemma usModbusRTU_two_bytes:
  "usModbusRTU_byte h (usModbusRTU_byte l c) = (crc_shift 0xA001 ^^ 16) (c XOR mk16 h l)"
proof -
  let ?S = "crc_shift (0xA001 :: u16)"
  have "(?S ^^ 16) (c XOR mk16 h l) = (?S ^^ 8) ((?S ^^ 8) (c XOR ucast l XOR push_bit 8 (ucast h)))"
    using funpow_add [of 8 8 ?S]
    by (simp add: mk16_xor xor.assoc xor.commute xor.left_commute)
  also have "\<dots> = (?S ^^ 8) ((?S ^^ 8) (c XOR ucast l) XOR ucast h)"
    by (simp only: modbus.shifts_xor shift8_high_byte xor.assoc)
  finally show ?thesis
    by (simp add: usModbusRTU_byte_serial modbus.serial_def)
qed

lemma modbus_state_of_frame:
  "fold usModbusRTU_byte [l, h] c = 0 \<longleftrightarrow> c = mk16 h l"
proof -
  have "(crc_shift (0xA001 :: u16) ^^ 16) (c XOR mk16 h l) = 0 \<longleftrightarrow> c XOR mk16 h l = 0"
    using modbus.shifts_inject [of 16 "c XOR mk16 h l" 0] by auto
  also have "\<dots> \<longleftrightarrow> c = mk16 h l"
    by (metis xor_self_eq xor_right_cancel)
  finally show ?thesis by (simp add: usModbusRTU_two_bytes)
qed

section \<open>CRC-32 is a reflected CRC\<close>

interpretation ieee: reflected_crc "0xEDB88320 :: u32"
  by unfold_locales (simp_all add: bit_numeral_rec)


text \<open>Rewrites that run the register on numerals.\<close>

lemma shifts_8: "(f ^^ 8) x = f (f (f (f (f (f (f (f x)))))))"
  by (simp add: numeral_eq_Suc)

lemma crc_shift_even: "crc_shift p (numeral (Num.Bit0 n)) = drop_bit 1 (numeral (Num.Bit0 n))"
  by (simp add: crc_shift_def bit_0)

lemma crc_shift_odd: "crc_shift p (numeral (Num.Bit1 n)) = drop_bit 1 (numeral (Num.Bit1 n)) XOR p"
  by (simp add: crc_shift_def bit_0)

lemma crc_shift_01: "crc_shift p 0 = 0" "crc_shift p 1 = drop_bit 1 1 XOR p"
  by (simp_all add: crc_shift_def bit_0)

lemma crc32_table_serial:
  "crc32_table = map (\<lambda>n. (crc_shift 0xEDB88320 ^^ 8) (of_nat n)) [0..<256]"
  by (simp add: crc32_table_def shifts_8 crc_shift_even crc_shift_odd crc_shift_01 upt_rec [of 0 "numeral n" for n] upt_rec [of "Suc 0" "numeral n" for n]
      numeral_2_eq_2 [symmetric])

lemma crc32_table_length [simp]: "length crc32_table = 256"
  by (simp add: crc32_table_serial)

lemma crc32_table_nth:
  "crc32_table ! unat (b :: u8) = (crc_shift 0xEDB88320 ^^ 8) (ucast b)"
proof -
  have "unat b < 256" using unsigned_less [of b] by simp
  then show ?thesis by (simp add: crc32_table_serial)
qed

text \<open>A table step is eight register shifts: the high bytes move down unchanged and the
  low byte's contribution is the table entry.\<close>

lemma crc32_byte_serial: "crc32_byte b c = ieee.serial b c"
proof -
  let ?S = "crc_shift (0xEDB88320 :: u32) ^^ 8"
  let ?high = "push_bit 8 (drop_bit 8 c)"
  have split: "c XOR ucast b = ?high XOR ucast (ucast c XOR b :: u8)"
    by (rule bit_word_eqI) (auto simp: bit_simps dest: bit_imp_le_length)
  have "?S ?high = drop_bit 8 ?high"
    by (rule ieee.shifts_clear) (simp add: bit_simps)
  also have "\<dots> = drop_bit 8 c"
    by (rule bit_word_eqI) (auto simp: bit_simps dest: bit_imp_le_length)
  finally show ?thesis
    by (simp add: ieee.serial_def split ieee.shifts_xor crc32_byte_def Let_def crc32_table_nth)
qed

interpretation ieee_sum: byte_checksum crc32_byte
  by unfold_locales
    (auto simp: crc32_byte_serial dest: ieee.serial_inject_byte ieee.serial_inject_state)

text \<open>Four bytes are absorbed as one 32-bit quantity.\<close>

lemma ieee_shifts_byte:
  assumes "8 \<le> n" "n \<le> 24"
  shows "(crc_shift (0xEDB88320 :: u32) ^^ 8) (push_bit n (ucast (b :: u8))) = push_bit (n - 8) (ucast b)"
proof -
  have "(crc_shift (0xEDB88320 :: u32) ^^ 8) (push_bit n (ucast b)) = drop_bit 8 (push_bit n (ucast b))"
    using assms by (intro ieee.shifts_clear) (simp add: bit_simps)
  also have "\<dots> = push_bit (n - 8) (ucast b)"
    using assms by (intro bit_word_eqI) (auto simp: bit_simps add.commute dest: bit_imp_le_length)
  finally show ?thesis .
qed

lemma le32_xor:
  "w = ucast (le32 w ! 0) XOR push_bit 8 (ucast (le32 w ! 1)) XOR
       push_bit 16 (ucast (le32 w ! 2)) XOR push_bit 24 (ucast (le32 w ! 3))" (is "_ = ?bytes")
proof (rule bit_word_eqI)
  fix n assume n: "n < LENGTH(32)"
  consider "n < 8" | "8 \<le> n" "n < 16" | "16 \<le> n" "n < 24" | "24 \<le> n" by linarith
  then show "bit w n = bit ?bytes n"
    using n by cases (auto simp: le32_def bit_simps)
qed

lemma crc32_absorbs_word:
  "fold crc32_byte (le32 w) c = (crc_shift 0xEDB88320 ^^ 32) (c XOR w)"
proof -
  define b0 b1 b2 b3 where "b0 = le32 w ! 0" "b1 = le32 w ! 1" "b2 = le32 w ! 2" "b3 = le32 w ! 3"
  let ?S = "crc_shift (0xEDB88320 :: u32) ^^ 8"
  have "(crc_shift 0xEDB88320 ^^ 32) x = ?S (?S (?S (?S x)))" for x :: u32
    using funpow_add [of 8 24 "crc_shift (0xEDB88320 :: u32)"]
      funpow_add [of 8 16 "crc_shift (0xEDB88320 :: u32)"]
      funpow_add [of 8 8 "crc_shift (0xEDB88320 :: u32)"] by simp
  moreover have "c XOR w = (c XOR ucast b0) XOR push_bit 8 (ucast b1) XOR push_bit 16 (ucast b2) XOR push_bit 24 (ucast b3)"
    by (subst le32_xor) (simp add: b0_b1_b2_b3_def xor.assoc)
  moreover have "fold crc32_byte (le32 w) c =
      ?S (?S (?S (?S (c XOR ucast b0) XOR ucast b1) XOR ucast b2) XOR ucast b3)"
    by (simp add: le32_def b0_b1_b2_b3_def crc32_byte_serial ieee.serial_def)
  ultimately show ?thesis
    by (simp add: ieee.shifts_xor ieee_shifts_byte xor.assoc)
qed

section \<open>The XOR check byte\<close>

lemma checkResult_fold: "checkResult data = fold (\<lambda>b c. c XOR b) data 0"
proof -
  have "ucast (fold (\<lambda>b crc. crc XOR ucast b) data (c :: u16) AND 0xFF) =
        fold (\<lambda>b c. c XOR b) data (ucast c :: u8)" for c
  proof (induction data arbitrary: c)
    case Nil
    show ?case by (rule bit_word_eqI) (auto simp: bit_simps bit_numeral_rec less_Suc_eq numeral_eq_Suc)
  next
    case (Cons b data)
    have "(ucast (c XOR ucast b) :: u8) = ucast c XOR b"
      by (rule bit_word_eqI) (auto simp: bit_simps)
    then show ?case using Cons.IH by simp
  qed
  from this [of 0] show ?thesis by (simp add: checkResult_def)
qed

interpretation xor_sum: byte_checksum "\<lambda>b c. c XOR b :: u8"
  by unfold_locales simp_all

lemma checkResult_append: "checkResult (xs @ ys) = checkResult xs XOR checkResult ys"
proof -
  have "fold (\<lambda>b c. c XOR b) ys a = a XOR fold (\<lambda>b c. c XOR b) ys (0 :: u8)" for a
  proof (induction ys arbitrary: a)
    case (Cons y ys)
    show ?case using Cons.IH [of "a XOR y"] Cons.IH [of y] by (simp add: xor.assoc)
  qed simp
  from this [of "checkResult xs"] show ?thesis by (simp add: checkResult_fold)
qed

lemma checkResult_Nil [simp]: "checkResult [] = 0"
  by (simp add: checkResult_fold)

lemma checkResult_Cons [simp]: "checkResult (x # xs) = x XOR checkResult xs"
  using checkResult_append [of "[x]" xs] by (simp add: checkResult_fold)

section \<open>Properties\<close>

text \<open>C23. Any error confined to two neighbouring bytes of a message (in particular any
  single-byte error) changes the Modbus CRC-16, wherever in the message it is.\<close>

theorem modbus_burst_detected:
  assumes "(a, b) \<noteq> (a', b')"
  shows "usModbusRTU_CRC (xs @ a # b # ys) \<noteq> usModbusRTU_CRC (xs @ a' # b' # ys)"
proof
  let ?c = "fold usModbusRTU_byte xs 0xFFFF"
  assume "usModbusRTU_CRC (xs @ a # b # ys) = usModbusRTU_CRC (xs @ a' # b' # ys)"
  then have "usModbusRTU_byte b (usModbusRTU_byte a ?c) = usModbusRTU_byte b' (usModbusRTU_byte a' ?c)"
    by (auto simp: usModbusRTU_CRC_def dest: modbus_sum.fold_inject)
  then have "?c XOR mk16 b a = ?c XOR mk16 b' a'"
    by (simp only: usModbusRTU_two_bytes) (rule modbus.shifts_inject)
  then show False using assms by simp
qed

theorem modbus_burst_detected_witness:
  "((0x10, 0x20) :: u8 \<times> u8) \<noteq> (0x20, 0x10) \<and>
   usModbusRTU_CRC ([1, 3] @ 0x10 # 0x20 # [0, 1]) \<noteq> usModbusRTU_CRC ([1, 3] @ 0x20 # 0x10 # [0, 1])"
  using modbus_burst_detected [of "0x10" "0x20" "0x20" "0x10" "[1, 3]" "[0, 1]"] by simp

text \<open>Appending a CRC low byte first and running the CRC over the whole frame gives
  zero exactly when the two bytes are the CRC of the data: the check of the received
  frame and the construction of the sent one agree.\<close>

theorem modbus_residue:
  "usModbusRTU_CRC (data @ [l, h]) = 0 \<longleftrightarrow> mk16 h l = usModbusRTU_CRC data"
  using modbus_state_of_frame [of l h "fold usModbusRTU_byte data 0xFFFF"]
  by (auto simp: usModbusRTU_CRC_def)

text \<open>C24. The table-driven CRC-32 computes, for every start value and every byte
  sequence, what the bit-serial register with the reflected IEEE 802.3 polynomial
  computes: all 256 table entries are right and the table step is eight shifts.\<close>

theorem crc32_is_ieee:
  "crc32_cyc_cal init_val pdata =
   fold (\<lambda>b c. (crc_shift 0xEDB88320 ^^ 8) (c XOR ucast b)) pdata init_val"
proof -
  have "crc32_byte = (\<lambda>b c. (crc_shift 0xEDB88320 ^^ 8) (c XOR ucast b))"
    by (intro ext) (simp add: crc32_byte_serial ieee.serial_def)
  then show ?thesis by (simp add: crc32_cyc_cal_def)
qed

lemma crc32_check_value: "crc32_cal [0x31, 0x32, 0x33, 0x34, 0x35, 0x36, 0x37, 0x38, 0x39] = 0xCBF43926"
  by (simp add: crc32_cal_def CRC32_INIT_VAL_def crc32_cyc_cal_def crc32_byte_serial
      ieee.serial_def shifts_8 crc_shift_even crc_shift_odd crc_shift_01)

text \<open>Two chips whose 96-bit identifiers differ in exactly one of the three
  identifier registers never get the same module UUID.\<close>

theorem ReadUniqueId_distinguishes:
  assumes "i \<noteq> j"
  shows "ReadUniqueId (i, b, c) \<noteq> ReadUniqueId (j, b, c) \<and>
         ReadUniqueId (a, i, c) \<noteq> ReadUniqueId (a, j, c) \<and>
         ReadUniqueId (a, b, i) \<noteq> ReadUniqueId (a, b, j)"
proof -
  have "fold crc32_byte (le32 i) s \<noteq> fold crc32_byte (le32 j) s" for s
    using assms by (auto simp: crc32_absorbs_word dest: ieee.shifts_inject)
  then show ?thesis
    by (auto simp: ReadUniqueId_def crc32_cal_def crc32_cyc_cal_def dest: ieee_sum.fold_inject)
qed

theorem ReadUniqueId_distinguishes_witness:
  "(0x01020304 :: u32) \<noteq> 0x01020305 \<and>
   ReadUniqueId (0x01020304, 0, 0) \<noteq> ReadUniqueId (0x01020305, 0, 0)"
  using ReadUniqueId_distinguishes [of "0x01020304" "0x01020305" 0 0 0] by simp

end
