(* ===== verification/Lcd.thy ===== *)
theory Lcd
  imports Base
begin

text \<open>
  The ST7567 display driver, \<^verbatim>\<open>applications/Oled1309/st7567/ST7567.c\<close>: a frame buffer of
  132 columns by 8 pages kept in RAM (128 columns are visible), drawing primitives that
  only touch that buffer, and a bit-banged serial link that copies it to the controller.

  State: the record \<open>lcd\<close> holds the C globals \<open>ST7567_Buffer_all\<close> and \<open>ST7567\<close>, the
  bytes that follow the buffer in memory (which \<open>ST7567_UpdateScreen\<close> reads), and the
  sequence of pin writes and delays made so far. C integers keep their width: 16-bit
  coordinates are \<open>16 word\<close>, \<open>int16_t\<close> locals of the line algorithm are \<open>int\<close> with the
  conversion \<open>to_s16\<close> written out.
\<close>

section \<open>State\<close>

datatype lcd_pin = CS | SCK | MOSI | RES | DC | BL

datatype lcd_ev = Pin lcd_pin bool | HAL_Delay nat

record lcd =
  Buffer_all :: bytes
  Buffer_after :: "nat \<Rightarrow> u8"
  CurrentX :: u16
  CurrentY :: u16
  Inverted :: u8
  bus :: "lcd_ev list"

record FontDef_t =
  width :: nat
  height :: nat
  order :: nat
  fbytes :: nat
  data :: bytes

definition ST7567_WIDTH :: nat where [simp]: "ST7567_WIDTH = 128"
definition ST7567_HEIGHT :: nat where [simp]: "ST7567_HEIGHT = 64"
definition ST7567_SEG_EXPAND :: nat where [simp]: "ST7567_SEG_EXPAND = 4"
definition ST7567_X_OFFSET :: nat where [simp]: "ST7567_X_OFFSET = 0"
definition BUF_SIZE :: nat where [simp]: "BUF_SIZE = 1056"

definition emit :: "lcd_ev list \<Rightarrow> lcd \<Rightarrow> lcd" where
  "emit es l = l\<lparr>bus := bus l @ es\<rparr>"

section \<open>The serial link\<close>

text \<open>The loop of \<open>ST7567_TransmitByte\<close> with \<open>n\<close> bits left.\<close>

fun transmit_bits :: "nat \<Rightarrow> u8 \<Rightarrow> lcd_ev list" where
  "transmit_bits 0 dat = []"
| "transmit_bits (Suc n) dat =
     [Pin SCK False, Pin MOSI (dat AND 0x80 \<noteq> 0), Pin SCK True] @ transmit_bits n (push_bit 1 dat)"

definition ST7567_TransmitByte :: "u8 \<Rightarrow> lcd \<Rightarrow> lcd" where
  "ST7567_TransmitByte dat = emit ([Pin CS False] @ transmit_bits 8 dat @ [Pin CS True])"

definition ST7567_Transmit :: "bytes \<Rightarrow> lcd \<Rightarrow> lcd" where
  "ST7567_Transmit pData l = fold ST7567_TransmitByte pData l"

definition ST7567_WriteCommand :: "u8 \<Rightarrow> lcd \<Rightarrow> lcd" where
  "ST7567_WriteCommand command l =
     emit [Pin DC True] (ST7567_TransmitByte command (emit [Pin DC False] l))"

definition ST7567_WriteData :: "u8 \<Rightarrow> lcd \<Rightarrow> lcd" where
  "ST7567_WriteData d l = ST7567_TransmitByte d l"

definition ST7567_Reset :: "lcd \<Rightarrow> lcd" where
  "ST7567_Reset = emit [Pin RES False, HAL_Delay 5, Pin RES True]"

definition ST7567_BackLight_On :: "lcd \<Rightarrow> lcd" where
  "ST7567_BackLight_On = emit [Pin BL True]"

definition ST7567_BackLight_Off :: "lcd \<Rightarrow> lcd" where
  "ST7567_BackLight_Off = emit [Pin BL False]"

text \<open>The command bytes \<open>ST7567_Init\<close> writes, in order: software reset, power control,
  contrast mode and value, bias, orientation, regulation ratio, normal display, display on,
  RAM content, start line, page and column addresses.\<close>

definition ST7567_Init_commands :: bytes where
  "ST7567_Init_commands =
     [0xE2, 0x28 OR 0x04 OR 0x02 OR 0x01, 0x81, 0x3F AND 0x20, 0xA2, 0xA0, 0xC8,
      0x20 OR 0x03, 0xA6, 0xAF, 0xA4, 0x40 OR (0 AND 0x3F), 0xB0 OR (0 AND 0x07), 0x10, 0x00]"

definition ST7567_Init :: "lcd \<Rightarrow> lcd" where
  "ST7567_Init l =
     fold ST7567_WriteCommand ST7567_Init_commands (ST7567_BackLight_Off (ST7567_Reset l))"

definition ST7567_SetContrast :: "u8 \<Rightarrow> lcd \<Rightarrow> lcd" where
  "ST7567_SetContrast val l = ST7567_WriteCommand (0x3F AND val) (ST7567_WriteCommand 0x81 l)"

text \<open>\<open>ST7567_Buffer_all[n]\<close> as the generated code reads it. The ninth page of \<open>ST7567_UpdateScreen\<close> lies behind
  the array on every update: it is read from \<open>Buffer_after\<close>, the memory that the linker placed there.\<close>

definition lcd_mem :: "lcd \<Rightarrow> nat \<Rightarrow> u8" where
  "lcd_mem l n = (if n < BUF_SIZE then Buffer_all l ! n else Buffer_after l (n - BUF_SIZE))"

definition ST7567_UpdatePage :: "nat \<Rightarrow> lcd \<Rightarrow> lcd" where
  "ST7567_UpdatePage i l =
     fold (\<lambda>j l. ST7567_WriteData (lcd_mem l (i * 132 + j)) l) [0..<132]
       (ST7567_WriteCommand 0x00 (ST7567_WriteCommand 0x10 (ST7567_WriteCommand (0xB0 + of_nat i) l)))"

definition ST7567_UpdateScreen :: "lcd \<Rightarrow> lcd" where
  "ST7567_UpdateScreen l = fold ST7567_UpdatePage [0..<9] l"

definition ST7567_ToggleInvert :: "lcd \<Rightarrow> lcd" where
  "ST7567_ToggleInvert l =
     (let l' = l\<lparr>Inverted := (if Inverted l = 0 then 1 else 0)\<rparr>
      in if Inverted l' \<noteq> 0 then ST7567_WriteCommand 0xA7 l' else ST7567_WriteCommand 0xA6 l')"

section \<open>Drawing\<close>

definition ST7567_Fill :: "u8 \<Rightarrow> lcd \<Rightarrow> lcd" where
  "ST7567_Fill color l = l\<lparr>Buffer_all := replicate BUF_SIZE (if color = 0 then 0x00 else 0xFF)\<rparr>"

definition pix_index :: "u16 \<Rightarrow> u16 \<Rightarrow> nat" where
  "pix_index x y = ST7567_X_OFFSET + unat x + (unat y div 8) * (ST7567_WIDTH + ST7567_SEG_EXPAND)"

definition ST7567_DrawPixel :: "u16 \<Rightarrow> u16 \<Rightarrow> u8 \<Rightarrow> lcd \<Rightarrow> lcd" where
  "ST7567_DrawPixel x y color l =
     (if unat x \<ge> ST7567_WIDTH \<or> unat y \<ge> ST7567_HEIGHT then l
      else let i = pix_index x y; m = push_bit (unat y mod 8) 1; b = Buffer_all l ! i
           in if color = 1 then l\<lparr>Buffer_all := (Buffer_all l)[i := b OR m]\<rparr>
              else l\<lparr>Buffer_all := (Buffer_all l)[i := b AND NOT m]\<rparr>)"

definition ST7567_GotoXY :: "u16 \<Rightarrow> u16 \<Rightarrow> lcd \<Rightarrow> lcd" where
  "ST7567_GotoXY x y l = l\<lparr>CurrentX := x, CurrentY := y\<rparr>"

subsection \<open>Text\<close>

definition c_not :: "u8 \<Rightarrow> u8" where "c_not c = (if c = 0 then 1 else 0)"

text \<open>The index of row \<open>i\<close>, byte \<open>j\<close> of the glyph of \<open>ch\<close> in a font table, computed
  in 32-bit unsigned arithmetic.\<close>

definition glyph_index :: "char \<Rightarrow> FontDef_t \<Rightarrow> nat \<Rightarrow> nat \<Rightarrow> nat" where
  "glyph_index ch font i j =
     unat (((of_char ch - 32) * of_nat (height font) + of_nat i) * of_nat (fbytes font)
           + of_nat j :: u32)"

text \<open>The number of columns byte \<open>j\<close> contributes: \<open>k < 8 && k < font->width - j * 8\<close>.\<close>

definition glyph_cols :: "FontDef_t \<Rightarrow> nat \<Rightarrow> nat" where
  "glyph_cols font j = min 8 (unat (of_nat (width font) - of_nat j * 8 :: u32))"

definition glyph_bit :: "FontDef_t \<Rightarrow> u32 \<Rightarrow> nat \<Rightarrow> bool" where
  "glyph_bit font b k =
     (if order font = 0 then push_bit k b AND 0x80 \<noteq> 0 else b AND push_bit k 1 \<noteq> 0)"

definition glyph_dot :: "(u8 \<Rightarrow> u32) \<Rightarrow> char \<Rightarrow> FontDef_t \<Rightarrow> u8 \<Rightarrow> nat \<Rightarrow> nat \<Rightarrow> nat \<Rightarrow> lcd \<Rightarrow> lcd" where
  "glyph_dot f ch font color i j k l =
     ST7567_DrawPixel (CurrentX l + of_nat (j * 8 + k)) (CurrentY l + of_nat i)
       (if glyph_bit font (f (data font ! glyph_index ch font i j)) k then color else c_not color) l"

text \<open>The three nested loops shared by \<open>ST7567_Putc\<close> and \<open>ST7567_Putc_Hightlight\<close>;
  \<open>f\<close> turns the table byte into the 32-bit variable \<open>b\<close>.\<close>

definition draw_glyph :: "(u8 \<Rightarrow> u32) \<Rightarrow> char \<Rightarrow> FontDef_t \<Rightarrow> u8 \<Rightarrow> lcd \<Rightarrow> lcd" where
  "draw_glyph f ch font color l =
     fold (\<lambda>i. fold (\<lambda>j. fold (\<lambda>k. glyph_dot f ch font color i j k) [0..<glyph_cols font j])
       [0..<fbytes font]) [0..<height font] l"

definition ST7567_Putc :: "char \<Rightarrow> FontDef_t \<Rightarrow> u8 \<Rightarrow> lcd \<Rightarrow> lcd" where
  "ST7567_Putc ch font color l =
     (let l' = draw_glyph ucast ch font color l in l'\<lparr>CurrentX := CurrentX l' + of_nat (width font)\<rparr>)"

definition ST7567_Putc_Hightlight :: "char \<Rightarrow> FontDef_t \<Rightarrow> u8 \<Rightarrow> lcd \<Rightarrow> lcd" where
  "ST7567_Putc_Hightlight ch font color l =
     (let l' = draw_glyph (\<lambda>d. NOT (ucast d)) ch font color l
      in l'\<lparr>CurrentX := CurrentX l' + of_nat (width font)\<rparr>)"

text \<open>A C string is the list of its characters before the terminating NUL. \<open>ST7567_Putc\<close>
  returns its argument, so the error return of \<open>ST7567_Puts\<close> is never taken.\<close>

definition ST7567_Puts :: "string \<Rightarrow> FontDef_t \<Rightarrow> u8 \<Rightarrow> lcd \<Rightarrow> lcd" where
  "ST7567_Puts str Font color l = fold (\<lambda>ch. ST7567_Putc ch Font color) str l"

definition ST7567_Puts_HightLight :: "string \<Rightarrow> FontDef_t \<Rightarrow> u8 \<Rightarrow> lcd \<Rightarrow> lcd" where
  "ST7567_Puts_HightLight str Font color l = fold (\<lambda>ch. ST7567_Putc_Hightlight ch Font color) str l"

end
