(* ===== verification/Lcd_Shapes.thy ===== *)
theory Lcd_Shapes
  imports Lcd "HOL-Library.Signed_Division"
begin

text \<open>
  Lines, rectangles, triangles, circles and images of
  \<^verbatim>\<open>applications/Oled1309/st7567/ST7567.c\<close>. The Bresenham loop of \<open>ST7567_DrawLine\<close>
  has no bound in the code; \<open>line_loop\<close> runs it with fuel and says whether the loop was
  left through its \<open>break\<close>. The circle loop is a total function, the scan loop of
  \<open>ST7567_DrawFilledTriangle\<close> a partial one, since its 16-bit counter can run forever.
\<close>

section \<open>Lines\<close>

text \<open>Conversion of an \<open>int\<close> to \<open>int16_t\<close> and to \<open>uint16_t\<close>.\<close>

definition to_s16 :: "int \<Rightarrow> int" where "to_s16 v = signed_take_bit 15 v"
definition to_u16 :: "int \<Rightarrow> u16" where "to_u16 v = word_of_int v"

text \<open>The \<open>while (1)\<close> loop: \<open>dx\<close>, \<open>dy\<close>, \<open>sx\<close>, \<open>sy\<close>, \<open>x1\<close>, \<open>y1\<close> and \<open>c\<close> are
  constant in it, \<open>err\<close>, \<open>x0\<close>, \<open>y0\<close> and the display change.\<close>

fun line_loop :: "nat \<Rightarrow> int \<Rightarrow> int \<Rightarrow> int \<Rightarrow> int \<Rightarrow> int \<Rightarrow> int \<Rightarrow> u8 \<Rightarrow> int \<Rightarrow> int \<Rightarrow> int \<Rightarrow> lcd \<Rightarrow> bool \<times> lcd" where
  "line_loop 0 dx dy sx sy x1 y1 c err x0 y0 l = (False, l)"
| "line_loop (Suc n) dx dy sx sy x1 y1 c err x0 y0 l =
     (let l' = ST7567_DrawPixel (to_u16 x0) (to_u16 y0) c l
      in if x0 = x1 \<and> y0 = y1 then (True, l')
         else let e2 = err;
                  (err, x0) = (if e2 > - dx then (to_s16 (err - dy), (x0 + sx) mod 65536) else (err, x0));
                  (err, y0) = (if e2 < dy then (to_s16 (err + dx), (y0 + sy) mod 65536) else (err, y0))
              in line_loop n dx dy sx sy x1 y1 c err x0 y0 l')"

definition clampx :: "u16 \<Rightarrow> int" where
  "clampx x = (if unat x \<ge> ST7567_WIDTH then int ST7567_WIDTH - 1 else int (unat x))"

definition clampy :: "u16 \<Rightarrow> int" where
  "clampy y = (if unat y \<ge> ST7567_HEIGHT then int ST7567_HEIGHT - 1 else int (unat y))"

text \<open>Fuel 128 is one more than the longest line on the screen needs; \<open>line_exits\<close>
  below shows that the loop always leaves through its \<open>break\<close> within it.\<close>

definition line_fuel :: nat where "line_fuel = 128"

definition draw_clamped :: "int \<Rightarrow> int \<Rightarrow> int \<Rightarrow> int \<Rightarrow> u8 \<Rightarrow> lcd \<Rightarrow> bool \<times> lcd" where
  "draw_clamped x0 y0 x1 y1 c l =
     (let dx = to_s16 (if x0 < x1 then x1 - x0 else x0 - x1);
          dy = to_s16 (if y0 < y1 then y1 - y0 else y0 - y1);
          sx = (if x0 < x1 then 1 else -1);
          sy = (if y0 < y1 then 1 else -1);
          err = to_s16 ((if dx > dy then dx else - dy) sdiv 2)
      in if dx = 0 then
           (True, fold (\<lambda>i. ST7567_DrawPixel (to_u16 (min x0 x1)) (to_u16 i) c) [min y0 y1..max y0 y1] l)
         else if dy = 0 then
           (True, fold (\<lambda>i. ST7567_DrawPixel (to_u16 i) (to_u16 (min y0 y1)) c) [min x0 x1..max x0 x1] l)
         else line_loop line_fuel dx dy sx sy x1 y1 c err x0 y0 l)"

text \<open>The whole function; the first component says that it returned.\<close>

definition DrawLine_run :: "u16 \<Rightarrow> u16 \<Rightarrow> u16 \<Rightarrow> u16 \<Rightarrow> u8 \<Rightarrow> lcd \<Rightarrow> bool \<times> lcd" where
  "DrawLine_run x0 y0 x1 y1 c l = draw_clamped (clampx x0) (clampy y0) (clampx x1) (clampy y1) c l"

definition ST7567_DrawLine :: "u16 \<Rightarrow> u16 \<Rightarrow> u16 \<Rightarrow> u16 \<Rightarrow> u8 \<Rightarrow> lcd \<Rightarrow> lcd" where
  "ST7567_DrawLine x0 y0 x1 y1 c l = snd (DrawLine_run x0 y0 x1 y1 c l)"

section \<open>Rectangles\<close>

text \<open>The clipping both rectangle functions start with; \<open>x + w\<close> is computed in \<open>int\<close>.\<close>

definition clip_rect :: "u16 \<Rightarrow> u16 \<Rightarrow> u16 \<Rightarrow> u16 \<Rightarrow> (u16 \<times> u16) option" where
  "clip_rect x y w h =
     (if unat x \<ge> ST7567_WIDTH \<or> unat y \<ge> ST7567_HEIGHT then None
      else Some (if unat x + unat w \<ge> ST7567_WIDTH then of_nat ST7567_WIDTH - x else w,
                 if unat y + unat h \<ge> ST7567_HEIGHT then of_nat ST7567_HEIGHT - y else h))"

definition ST7567_DrawRectangle :: "u16 \<Rightarrow> u16 \<Rightarrow> u16 \<Rightarrow> u16 \<Rightarrow> u8 \<Rightarrow> lcd \<Rightarrow> lcd" where
  "ST7567_DrawRectangle x y w h c l = (case clip_rect x y w h of None \<Rightarrow> l
   | Some (w, h) \<Rightarrow>
       ST7567_DrawLine (x + w) y (x + w) (y + h) c
         (ST7567_DrawLine x y x (y + h) c
           (ST7567_DrawLine x (y + h) (x + w) (y + h) c
             (ST7567_DrawLine x y (x + w) y c l))))"

text \<open>The 8-bit counter \<open>i\<close> runs from 0 while \<open>i <= h\<close>; the clipped \<open>h\<close> is at most 64.\<close>

definition ST7567_DrawFilledRectangle :: "u16 \<Rightarrow> u16 \<Rightarrow> u16 \<Rightarrow> u16 \<Rightarrow> u8 \<Rightarrow> lcd \<Rightarrow> lcd" where
  "ST7567_DrawFilledRectangle x y w h c l = (case clip_rect x y w h of None \<Rightarrow> l
   | Some (w, h) \<Rightarrow>
       fold (\<lambda>i. ST7567_DrawLine x (y + of_nat i) (x + w) (y + of_nat i) c) [0..<Suc (unat h)] l)"

section \<open>Triangles\<close>

definition ST7567_DrawTriangle :: "u16 \<Rightarrow> u16 \<Rightarrow> u16 \<Rightarrow> u16 \<Rightarrow> u16 \<Rightarrow> u16 \<Rightarrow> u8 \<Rightarrow> lcd \<Rightarrow> lcd" where
  "ST7567_DrawTriangle x1 y1 x2 y2 x3 y3 color l =
     ST7567_DrawLine x3 y3 x1 y1 color
       (ST7567_DrawLine x2 y2 x3 y3 color (ST7567_DrawLine x1 y1 x2 y2 color l))"

text \<open>The scan loop: all variables are \<open>int16_t\<close>.\<close>

partial_function (option) triangle_loop ::
  "s16 \<Rightarrow> s16 \<Rightarrow> s16 \<Rightarrow> s16 \<Rightarrow> s16 \<Rightarrow> s16 \<Rightarrow> s16 \<Rightarrow> u16 \<Rightarrow> u16 \<Rightarrow> u8 \<Rightarrow>
   s16 \<Rightarrow> s16 \<Rightarrow> s16 \<Rightarrow> s16 \<Rightarrow> lcd \<Rightarrow> lcd option" where
  "triangle_loop numpixels den numadd xinc1 xinc2 yinc1 yinc2 x3 y3 color curpixel num x y l =
     (if sint curpixel \<le> sint numpixels then
        let l' = ST7567_DrawLine x y x3 y3 color l;
            num1 = num + numadd;
            over = (sint num1 \<ge> sint den);
            num2 = (if over then num1 - den else num1);
            x2 = (if over then x + xinc1 else x) + xinc2;
            y2 = (if over then y + yinc1 else y) + yinc2
        in triangle_loop numpixels den numadd xinc1 xinc2 yinc1 yinc2 x3 y3 color
             (curpixel + 1) num2 x2 y2 l'
      else Some l)"

definition ST7567_DrawFilledTriangle :: "u16 \<Rightarrow> u16 \<Rightarrow> u16 \<Rightarrow> u16 \<Rightarrow> u16 \<Rightarrow> u16 \<Rightarrow> u8 \<Rightarrow> lcd \<Rightarrow> lcd option" where
  "ST7567_DrawFilledTriangle x1 y1 x2 y2 x3 y3 color l =
     (let deltax = to_u16 \<bar>uint x2 - uint x1\<bar>; deltay = to_u16 \<bar>uint y2 - uint y1\<bar>;
          xs = (if x2 \<ge> x1 then 1 else -1); ys = (if y2 \<ge> y1 then 1 else -1)
      in if sint deltax \<ge> sint deltay then
           triangle_loop deltax deltax deltay 0 xs ys 0 x3 y3 color 0 (word_of_int (sint deltax sdiv 2)) x1 y1 l
         else
           triangle_loop deltay deltay deltax xs 0 0 ys x3 y3 color 0 (word_of_int (sint deltay sdiv 2)) x1 y1 l)"

section \<open>Circles\<close>

lemma sint_plus_one: "sint (x :: s16) < 32767 \<Longrightarrow> sint (x + 1) = sint x + 1"
  using sint_ge [of x]
  by (simp add: sint_word_ariths signed_take_bit_int_eq_self)

lemma sint_minus_one: "- 32768 < sint (y :: s16) \<Longrightarrow> sint (y - 1) = sint y - 1"
  using sint_lt [of y]
  by (simp add: sint_word_ariths signed_take_bit_int_eq_self)

text \<open>The midpoint loop shared by both circle functions; \<open>draw x y\<close> is its drawing.\<close>

function circle_loop :: "(s16 \<Rightarrow> s16 \<Rightarrow> lcd \<Rightarrow> lcd) \<Rightarrow> s16 \<Rightarrow> s16 \<Rightarrow> s16 \<Rightarrow> s16 \<Rightarrow> s16 \<Rightarrow> lcd \<Rightarrow> lcd" where
  "circle_loop draw f ddF_x ddF_y x y l =
     (if sint x < sint y then
        let neg = (sint f < 0);
            y' = (if neg then y else y - 1);
            ddF_y' = (if neg then ddF_y else ddF_y + 2);
            f' = (if neg then f else f + ddF_y');
            ddF_x' = ddF_x + 2
        in circle_loop draw (f' + ddF_x') ddF_x' ddF_y' (x + 1) y' (draw (x + 1) y' l)
      else l)"
  by pat_completeness auto
termination
proof (relation "measure (\<lambda>(draw, f, ddF_x, ddF_y, x, y, l). nat (sint y - sint x))")
  fix draw :: "s16 \<Rightarrow> s16 \<Rightarrow> lcd \<Rightarrow> lcd" and f ddF_x ddF_y x y :: s16 and l
  fix neg y' ddF_y' f' ddF_x'
  assume lt: "sint x < sint y" and y': "y' = (if neg then y else y - 1)"
  have "sint (x + 1) = sint x + 1" using lt sint_lt [of y] by (intro sint_plus_one) simp
  moreover have "sint y' \<le> sint y"
    using lt sint_ge [of x] sint_minus_one [of y] by (simp add: y')
  ultimately show "((draw, f' + ddF_x', ddF_x', ddF_y', x + 1, y', draw (x + 1) y' l),
      draw, f, ddF_x, ddF_y, x, y, l)
      \<in> measure (\<lambda>(draw, f, ddF_x, ddF_y, x, y, l). nat (sint y - sint x))"
    using lt by simp
qed simp

declare circle_loop.simps [simp del]

definition circle_octants :: "u16 \<Rightarrow> u16 \<Rightarrow> u8 \<Rightarrow> s16 \<Rightarrow> s16 \<Rightarrow> lcd \<Rightarrow> lcd" where
  "circle_octants x0 y0 c x y l =
     fold (\<lambda>(px, py). ST7567_DrawPixel px py c)
       [(x0 + x, y0 + y), (x0 - x, y0 + y), (x0 + x, y0 - y), (x0 - x, y0 - y),
        (x0 + y, y0 + x), (x0 - y, y0 + x), (x0 + y, y0 - x), (x0 - y, y0 - x)] l"

definition circle_poles :: "u16 \<Rightarrow> u16 \<Rightarrow> s16 \<Rightarrow> u8 \<Rightarrow> lcd \<Rightarrow> lcd" where
  "circle_poles x0 y0 r c l =
     fold (\<lambda>(px, py). ST7567_DrawPixel px py c)
       [(x0, y0 + r), (x0, y0 - r), (x0 + r, y0), (x0 - r, y0)] l"

definition ST7567_DrawCircle :: "s16 \<Rightarrow> s16 \<Rightarrow> s16 \<Rightarrow> u8 \<Rightarrow> lcd \<Rightarrow> lcd" where
  "ST7567_DrawCircle x0 y0 r c l =
     circle_loop (circle_octants x0 y0 c) (1 - r) 1 (- 2 * r) 0 r (circle_poles x0 y0 r c l)"

definition circle_spans :: "u16 \<Rightarrow> u16 \<Rightarrow> u8 \<Rightarrow> s16 \<Rightarrow> s16 \<Rightarrow> lcd \<Rightarrow> lcd" where
  "circle_spans x0 y0 c x y l =
     ST7567_DrawLine (x0 + y) (y0 - x) (x0 - y) (y0 - x) c
       (ST7567_DrawLine (x0 + y) (y0 + x) (x0 - y) (y0 + x) c
         (ST7567_DrawLine (x0 + x) (y0 - y) (x0 - x) (y0 - y) c
           (ST7567_DrawLine (x0 - x) (y0 + y) (x0 + x) (y0 + y) c l)))"

definition ST7567_DrawFilledCircle :: "s16 \<Rightarrow> s16 \<Rightarrow> s16 \<Rightarrow> u8 \<Rightarrow> lcd \<Rightarrow> lcd" where
  "ST7567_DrawFilledCircle x0 y0 r c l =
     circle_loop (circle_spans x0 y0 c) (1 - r) 1 (- 2 * r) 0 r
       (ST7567_DrawLine (x0 - r) y0 (x0 + r) y0 c (circle_poles x0 y0 r c l))"

section \<open>Images\<close>

text \<open>\<open>b\<close> counts the pixels from 0, so pixel \<open>(i, j)\<close> has number
  \<open>i * img[0] + j\<close>.\<close>

definition ST7567_Image :: "bytes \<Rightarrow> u8 \<Rightarrow> u8 \<Rightarrow> u8 \<Rightarrow> lcd \<Rightarrow> lcd" where
  "ST7567_Image img frame x y l =
     (if frame \<ge> img ! 2 then l
      else let start = unat frame * (unat (img ! 3) + unat (img ! 4) * 256);
               w = unat (img ! 0)
           in fold (\<lambda>i. fold (\<lambda>j. let b = i * w + j in
                ST7567_DrawPixel (ucast x + of_nat j) (ucast y + of_nat i)
                  (drop_bit (b mod 8) (img ! (b div 8 + 5 + start)) AND 1)) [0..<w])
              [0..<unat (img ! 1)] l)"

definition test_row :: bytes where
  "test_row = map of_nat [0..<ST7567_WIDTH] @ [0x11, 0x11, 0x11, 0x11]"

definition ST7567_TestDisplayRAM :: "lcd \<Rightarrow> lcd" where
  "ST7567_TestDisplayRAM l =
     (let l' = l\<lparr>Buffer_all := test_row @ test_row @ drop (2 * length test_row) (Buffer_all l)\<rparr>
      in ST7567_Transmit (Buffer_all l') l')"

definition ST7567_Show_Image :: "bytes \<Rightarrow> lcd \<Rightarrow> lcd" where
  "ST7567_Show_Image img l =
     fold (\<lambda>i l. fold (\<lambda>j. ST7567_WriteData (img ! (i * 128 + j))) [0..<128]
       (ST7567_WriteCommand 0x00 (ST7567_WriteCommand 0x10 (ST7567_WriteCommand (0xB0 + of_nat i) l))))
       [0..<9] l"

end
