(* ===== verification/Lcd_Props.thy ===== *)
theory Lcd_Props
  imports Lcd_Shapes
begin

text \<open>
  Correctness of the display driver. The locale \<open>canvas\<close> is the interface the drawing
  routines rely on (what a pixel is after a plot, plots keep the buffer well-formed); it is
  interpreted on \<open>ST7567_DrawPixel\<close>. The line routine is shown to terminate and to
  rasterise every line within half a pixel; the pin sequence of the serial link is decoded
  by an abstract receiver, and \<open>ST7567_UpdateScreen\<close> is shown to send the frame buffer.
\<close>

section \<open>Pixels\<close>

definition lcd_wf :: "lcd \<Rightarrow> bool" where
  "lcd_wf l \<longleftrightarrow> length (Buffer_all l) = BUF_SIZE"

definition pixel :: "lcd \<Rightarrow> nat \<Rightarrow> nat \<Rightarrow> bool" where
  "pixel l x y = bit (Buffer_all l ! (x + y div 8 * 132)) (y mod 8)"

text \<open>The interface: \<open>put\<close> sets one pixel of a surface that is 128 by 64.\<close>

locale canvas =
  fixes put :: "u16 \<Rightarrow> u16 \<Rightarrow> u8 \<Rightarrow> 's \<Rightarrow> 's"
    and px :: "'s \<Rightarrow> nat \<Rightarrow> nat \<Rightarrow> bool"
    and ok :: "'s \<Rightarrow> bool"
  assumes ok_put: "ok s \<Longrightarrow> ok (put x y c s)"
    and px_put: "ok s \<Longrightarrow> i < 128 \<Longrightarrow> j < 64 \<Longrightarrow>
      px (put x y c s) i j = (if unat x = i \<and> unat y = j then c = 1 else px s i j)"
begin

definition put_all :: "u8 \<Rightarrow> (u16 \<times> u16) list \<Rightarrow> 's \<Rightarrow> 's" where
  "put_all c ps s = fold (\<lambda>(x, y). put x y c) ps s"

lemma ok_put_all: "ok s \<Longrightarrow> ok (put_all c ps s)"
  unfolding put_all_def by (induction ps arbitrary: s) (auto simp: ok_put)

lemma px_put_all:
  "ok s \<Longrightarrow> i < 128 \<Longrightarrow> j < 64 \<Longrightarrow>
   px (put_all c ps s) i j = (if (i, j) \<in> (\<lambda>(x, y). (unat x, unat y)) ` set ps then c = 1 else px s i j)"
  unfolding put_all_def
  by (induction ps arbitrary: s) (auto simp: ok_put px_put split: if_splits)

text \<open>\<open>f\<close> paints: inside the region \<open>R\<close> it makes the pixels \<open>V\<close>, elsewhere it keeps
  them. Loops of such steps paint the union of their regions.\<close>

definition paints :: "('s \<Rightarrow> 's) \<Rightarrow> (nat \<Rightarrow> nat \<Rightarrow> bool) \<Rightarrow> (nat \<Rightarrow> nat \<Rightarrow> bool) \<Rightarrow> bool" where
  "paints f R V \<longleftrightarrow> (\<forall>s. ok s \<longrightarrow> ok (f s) \<and>
     (\<forall>x y. x < 128 \<longrightarrow> y < 64 \<longrightarrow> px (f s) x y = (if R x y then V x y else px s x y)))"

lemma paints_fold:
  assumes "\<And>i. i < n \<Longrightarrow> paints (f i) (R i) V"
  shows "paints (fold f [0..<n]) (\<lambda>x y. \<exists>i<n. R i x y) V"
  using assms
proof (induction n)
  case 0
  show ?case by (simp add: paints_def)
next
  case (Suc n)
  then have "paints (fold f [0..<n]) (\<lambda>x y. \<exists>i<n. R i x y) V" "paints (f n) (R n) V"
    by simp_all
  then show ?case by (auto simp: paints_def less_Suc_eq)
qed

end

lemma DrawPixel_wf: "lcd_wf l \<Longrightarrow> lcd_wf (ST7567_DrawPixel x y c l)"
  by (simp add: lcd_wf_def ST7567_DrawPixel_def Let_def)

lemma pix_index_bound: "unat x < 128 \<Longrightarrow> unat y < 64 \<Longrightarrow> pix_index x y < BUF_SIZE"
proof -
  assume xy: "unat x < 128" "unat y < 64"
  then have "unat y div 8 \<le> 7" by simp
  then have "unat y div 8 * 132 \<le> 7 * 132" by (rule mult_le_mono1)
  with xy show ?thesis by (simp add: pix_index_def)
qed

lemma pix_index_eq:
  assumes "unat x < 128" "i < 128"
  shows "pix_index x y = i + j div 8 * 132 \<longleftrightarrow> unat x = i \<and> unat y div 8 = j div 8"
proof
  assume "pix_index x y = i + j div 8 * 132"
  then have e: "unat x + unat y div 8 * 132 = i + j div 8 * 132" by (simp add: pix_index_def)
  then have "(unat x + unat y div 8 * 132) mod 132 = (i + j div 8 * 132) mod 132" by simp
  then have "unat x = i" using assms by simp
  then show "unat x = i \<and> unat y div 8 = j div 8" using e by simp
qed (simp add: pix_index_def)

lemma pixel_DrawPixel:
  assumes wf: "lcd_wf l" and ij: "i < 128" "j < 64"
  shows "pixel (ST7567_DrawPixel x y c l) i j = (if unat x = i \<and> unat y = j then c = 1 else pixel l i j)"
proof (cases "unat x < 128 \<and> unat y < 64")
  case True
  then have "pix_index x y < length (Buffer_all l)"
    using pix_index_bound [of x y] wf by (simp add: lcd_wf_def)
  moreover have "unat y = j \<longleftrightarrow> unat y div 8 = j div 8 \<and> unat y mod 8 = j mod 8"
    by (metis div_mult_mod_eq)
  moreover have "bit (push_bit (unat y mod 8) 1 :: u8) (j mod 8) \<longleftrightarrow> unat y mod 8 = j mod 8"
    by (auto simp: bit_simps)
  moreover have "j mod 8 < 8" by simp
  ultimately show ?thesis
    using True ij pix_index_eq [of x i y j]
    by (auto simp: pixel_def ST7567_DrawPixel_def Let_def nth_list_update bit_simps)
next
  case False
  with ij show ?thesis by (auto simp: ST7567_DrawPixel_def)
qed

interpretation screen: canvas ST7567_DrawPixel pixel lcd_wf
  by unfold_locales (simp_all add: DrawPixel_wf pixel_DrawPixel)

section \<open>Lines\<close>

lemma to_s16_id: "- 32768 \<le> v \<Longrightarrow> v < 32768 \<Longrightarrow> to_s16 v = v"
  by (simp add: to_s16_def signed_take_bit_int_eq_self)

definition plot :: "u8 \<Rightarrow> int \<times> int \<Rightarrow> lcd \<Rightarrow> lcd" where
  "plot c p = ST7567_DrawPixel (to_u16 (fst p)) (to_u16 (snd p)) c"

definition neighbours :: "int \<times> int \<Rightarrow> int \<times> int \<Rightarrow> bool" where
  "neighbours p q \<longleftrightarrow> \<bar>fst p - fst q\<bar> \<le> 1 \<and> \<bar>snd p - snd q\<bar> \<le> 1"

definition line_trace :: "int \<Rightarrow> int \<Rightarrow> int \<Rightarrow> int \<Rightarrow> int \<Rightarrow> int \<Rightarrow> int \<Rightarrow> int \<times> int \<Rightarrow> (int \<times> int) list \<Rightarrow> bool" where
  "line_trace dx dy sx sy x1 y1 n p pts \<longleftrightarrow>
     int (length pts) = n + 1 \<and> hd pts = p \<and> last pts = (x1, y1) \<and> successively neighbours pts \<and>
     (\<forall>x y. (x, y) \<in> set pts \<longrightarrow> (\<exists>m k. x = x1 - sx * m \<and> y = y1 - sy * k \<and>
        0 \<le> m \<and> m \<le> dx \<and> 0 \<le> k \<and> k \<le> dy \<and> 2 * \<bar>m * dy - k * dx\<bar> \<le> max dx dy))"

lemma line_trace_point:
  assumes "line_trace dx dy sx sy x1 y1 n p pts" "(x, y) \<in> set pts"
  obtains m k where "x = x1 - sx * m" "y = y1 - sy * k" "0 \<le> m" "m \<le> dx" "0 \<le> k" "k \<le> dy"
    "2 * \<bar>m * dy - k * dx\<bar> \<le> max dx dy"
proof -
  from assms have "\<exists>m k. x = x1 - sx * m \<and> y = y1 - sy * k \<and> 0 \<le> m \<and> m \<le> dx \<and> 0 \<le> k \<and> k \<le> dy \<and>
    2 * \<bar>m * dy - k * dx\<bar> \<le> max dx dy"
    by (simp add: line_trace_def)
  then show ?thesis by (elim exE conjE) (rule that)
qed

lemma line_traceI:
  assumes "0 \<le> m" "m \<le> dx" "0 \<le> k" "k \<le> dy" "2 * \<bar>m * dy - k * dx\<bar> \<le> max dx dy"
    and "line_trace dx dy sx sy x1 y1 n q pts" and "n \<ge> 0"
    and "neighbours (x1 - sx * m, y1 - sy * k) q"
  shows "line_trace dx dy sx sy x1 y1 (n + 1) (x1 - sx * m, y1 - sy * k) ((x1 - sx * m, y1 - sy * k) # pts)"
proof -
  obtain p ps where pts: "pts = p # ps" using assms(6,7) by (cases pts) (auto simp: line_trace_def)
  show ?thesis using assms unfolding line_trace_def pts by auto
qed

lemma coord_bounds:
  fixes dx dy :: int
  assumes "0 < dx" "0 \<le> dy" "0 \<le> m" "m \<le> dx" "0 \<le> e" "e < dx" "k * dx = dx div 2 + m * dy - e"
  shows "0 \<le> k" "k \<le> dy" "2 * \<bar>m * dy - k * dx\<bar> \<le> dx"
proof -
  have "0 \<le> m * dy" "0 \<le> dx div 2" using assms by simp_all
  then have low: "- dx < k * dx" using assms(6,7) by linarith
  show "0 \<le> k"
  proof (rule ccontr)
    assume "\<not> 0 \<le> k"
    then have "k * dx \<le> (- 1) * dx" using assms(1) by (intro mult_right_mono) simp_all
    with low show False by simp
  qed
  have "m * dy \<le> dx * dy" "dx div 2 < dx" using assms by (simp_all add: mult_right_mono)
  then have "k * dx < dx * dy + dx" using assms(5,7) by linarith
  then have "k * dx < (dy + 1) * dx" by (simp add: algebra_simps)
  then show "k \<le> dy" using assms(1) by (simp add: mult_less_cancel_right)
  have "m * dy - k * dx = e - dx div 2" using assms(7) by simp
  moreover have "2 * \<bar>e - dx div 2\<bar> \<le> dx" using assms(5,6) by presburger
  ultimately show "2 * \<bar>m * dy - k * dx\<bar> \<le> dx" by simp
qed

lemma coord_zero:
  fixes dx dy :: int
  assumes "0 < dx" "0 \<le> dy" "0 \<le> e" "e < dx" "k * dx = dx div 2 - e"
  shows "k = 0"
proof -
  have "k * dx < 1 * dx" using assms by simp
  then have "k < 1" using assms(1) by (simp add: mult_less_cancel_right)
  moreover have "0 \<le> k" using coord_bounds(1) [of dx dy 0 e k] assms by simp
  ultimately show ?thesis by simp
qed

definition line_box :: "int \<Rightarrow> int \<Rightarrow> int \<Rightarrow> int \<Rightarrow> int \<Rightarrow> int \<Rightarrow> bool" where
  "line_box dx dy sx sy x1 y1 \<longleftrightarrow>
     0 < dx \<and> 0 < dy \<and> dx < 128 \<and> dy < 128 \<and> (sx = 1 \<or> sx = - 1) \<and> (sy = 1 \<or> sy = - 1) \<and>
     0 \<le> x1 \<and> x1 < 128 \<and> 0 \<le> y1 \<and> y1 < 128 \<and>
     0 \<le> x1 - sx * dx \<and> x1 - sx * dx < 128 \<and> 0 \<le> y1 - sy * dy \<and> y1 - sy * dy < 128"

lemma line_box_mod:
  assumes "line_box dx dy sx sy x1 y1"
  shows "0 \<le> m \<Longrightarrow> m \<le> dx \<Longrightarrow> (x1 - sx * m) mod 65536 = x1 - sx * m"
    and "0 \<le> k \<Longrightarrow> k \<le> dy \<Longrightarrow> (y1 - sy * k) mod 65536 = y1 - sy * k"
  using assms by (auto simp: line_box_def intro!: mod_pos_pos_trivial)

lemma line_box_eq:
  assumes "line_box dx dy sx sy x1 y1"
  shows "x1 - sx * m = x1 \<longleftrightarrow> m = 0" "y1 - sy * k = y1 \<longleftrightarrow> k = 0"
  using assms by (auto simp: line_box_def)

lemma line_trace_end: "0 \<le> dx \<Longrightarrow> 0 \<le> dy \<Longrightarrow> line_trace dx dy sx sy x1 y1 0 (x1, y1) [(x1, y1)]"
  by (auto simp: line_trace_def intro!: exI [of _ 0])

lemma line_loop_end:
  "0 < n \<Longrightarrow> line_loop n dx dy sx sy x1 y1 c e x1 y1 l = (True, fold (plot c) [(x1, y1)] l)"
  by (cases n) (simp_all add: plot_def)

lemma line_loop_xmajor:
  assumes box: "line_box dx dy sx sy x1 y1" and maj: "dy < dx"
  shows "int m \<le> dx \<Longrightarrow> 0 \<le> e \<Longrightarrow> e < dx \<Longrightarrow> k * dx = dx div 2 + int m * dy - e \<Longrightarrow> m < n \<Longrightarrow>
    \<exists>pts. line_trace dx dy sx sy x1 y1 (int m) (x1 - sx * int m, y1 - sy * k) pts \<and>
    (\<forall>l. line_loop n dx dy sx sy x1 y1 c e (x1 - sx * int m) (y1 - sy * k) l = (True, fold (plot c) pts l))"
proof (induction m arbitrary: n e k)
  case 0
  have pos: "0 < dx" "0 < dy" using box by (simp_all add: line_box_def)
  have "k = 0" using coord_zero [of dx dy e k] "0.prems" pos by simp
  then show ?case using "0.prems" pos line_trace_end [of dx dy] line_loop_end
    by (intro exI [of _ "[(x1, y1)]"]) simp
next
  case (Suc m)
  let ?x = "x1 - sx * int (Suc m)" and ?y = "y1 - sy * k"
  have pos: "0 < dx" "0 < dy" "dx < 128" "dy < 128" using box by (simp_all add: line_box_def)
  obtain n' where n: "n = Suc n'" "m < n'" using Suc.prems by (cases n) auto
  define step where "step \<longleftrightarrow> e < dy"
  define e' where "e' = (if step then e - dy + dx else e - dy)"
  define k' where "k' = (if step then k - 1 else k)"
  have cb: "0 \<le> k" "k \<le> dy" "2 * \<bar>int (Suc m) * dy - k * dx\<bar> \<le> max dx dy"
    using coord_bounds [of dx dy "int (Suc m)" e k] Suc.prems pos by auto
  have e': "0 \<le> e'" "e' < dx" "k' * dx = dx div 2 + int m * dy - e'"
    using Suc.prems pos maj by (auto simp: e'_def k'_def step_def algebra_simps)
  have cb': "0 \<le> k'" "k' \<le> dy"
    using coord_bounds [of dx dy "int m" e' k'] e' Suc.prems pos by auto
  obtain pts where tr: "line_trace dx dy sx sy x1 y1 (int m) (x1 - sx * int m, y1 - sy * k') pts"
    and run: "\<And>l. line_loop n' dx dy sx sy x1 y1 c e' (x1 - sx * int m) (y1 - sy * k') l = (True, fold (plot c) pts l)"
    using Suc.IH [of e' k' n'] Suc.prems e' n by auto
  have nb: "neighbours (?x, ?y) (x1 - sx * int m, y1 - sy * k')"
    using box by (auto simp: line_box_def neighbours_def k'_def algebra_simps)
  have tr': "line_trace dx dy sx sy x1 y1 (int m + 1) (?x, ?y) ((?x, ?y) # pts)"
    using Suc.prems by (intro line_traceI [OF _ _ cb tr _ nb]) simp_all
  have mx: "(?x + sx) mod 65536 = x1 - sx * int m"
    using line_box_mod(1) [OF box, of "int m"] Suc.prems by (simp add: algebra_simps)
  have my: "step \<Longrightarrow> (?y + sy) mod 65536 = y1 - sy * k'"
    using line_box_mod(2) [OF box cb'] by (simp add: k'_def algebra_simps)
  have ne: "?x \<noteq> x1" using line_box_eq(1) [OF box, of "int (Suc m)"] by simp
  have "line_loop n dx dy sx sy x1 y1 c e ?x ?y l = line_loop n' dx dy sx sy x1 y1 c e' (x1 - sx * int m) (y1 - sy * k') (plot c (?x, ?y) l)" for l
    using ne mx my e' Suc.prems pos unfolding n(1)
    by (auto simp: plot_def Let_def step_def e'_def k'_def to_s16_id simp del: of_nat_Suc)
  then have "line_loop n dx dy sx sy x1 y1 c e ?x ?y l = (True, fold (plot c) ((?x, ?y) # pts) l)" for l
    by (simp add: run del: of_nat_Suc)
  then show ?case using tr' by (intro exI [of _ "(?x, ?y) # pts"]) (simp add: algebra_simps)
qed


lemma line_loop_ymajor:
  assumes box: "line_box dx dy sx sy x1 y1" and maj: "dx \<le> dy"
  shows "int k \<le> dy \<Longrightarrow> 0 \<le> f \<Longrightarrow> f < dy \<Longrightarrow> m * dy = dy div 2 + int k * dx - f \<Longrightarrow> k < n \<Longrightarrow>
    \<exists>pts. line_trace dx dy sx sy x1 y1 (int k) (x1 - sx * m, y1 - sy * int k) pts \<and>
    (\<forall>l. line_loop n dx dy sx sy x1 y1 c (- f) (x1 - sx * m) (y1 - sy * int k) l = (True, fold (plot c) pts l))"
proof (induction k arbitrary: n f m)
  case 0
  have pos: "0 < dx" "0 < dy" using box by (simp_all add: line_box_def)
  have "m = 0" using coord_zero [of dy dx f m] "0.prems" pos by simp
  then show ?case using "0.prems" pos line_trace_end [of dx dy] line_loop_end
    by (intro exI [of _ "[(x1, y1)]"]) simp
next
  case (Suc k)
  let ?x = "x1 - sx * m" and ?y = "y1 - sy * int (Suc k)"
  have pos: "0 < dx" "0 < dy" "dx < 128" "dy < 128" using box by (simp_all add: line_box_def)
  obtain n' where n: "n = Suc n'" "k < n'" using Suc.prems by (cases n) auto
  define step where "step \<longleftrightarrow> f < dx"
  define f' where "f' = (if step then f - dx + dy else f - dx)"
  define m' where "m' = (if step then m - 1 else m)"
  have cb: "0 \<le> m" "m \<le> dx" "2 * \<bar>m * dy - int (Suc k) * dx\<bar> \<le> max dx dy"
    using coord_bounds [of dy dx "int (Suc k)" f m] Suc.prems pos
    by (auto simp: abs_minus_commute)
  have f': "0 \<le> f'" "f' < dy" "m' * dy = dy div 2 + int k * dx - f'"
    using Suc.prems pos maj by (auto simp: f'_def m'_def step_def algebra_simps)
  have cb': "0 \<le> m'" "m' \<le> dx"
    using coord_bounds [of dy dx "int k" f' m'] f' Suc.prems pos by auto
  obtain pts where tr: "line_trace dx dy sx sy x1 y1 (int k) (x1 - sx * m', y1 - sy * int k) pts"
    and run: "\<And>l. line_loop n' dx dy sx sy x1 y1 c (- f') (x1 - sx * m') (y1 - sy * int k) l = (True, fold (plot c) pts l)"
    using Suc.IH [of f' m' n'] Suc.prems f' n by auto
  have nb: "neighbours (?x, ?y) (x1 - sx * m', y1 - sy * int k)"
    using box by (auto simp: line_box_def neighbours_def m'_def algebra_simps)
  have tr': "line_trace dx dy sx sy x1 y1 (int k + 1) (?x, ?y) ((?x, ?y) # pts)"
    using Suc.prems by (intro line_traceI [OF cb(1,2) _ _ cb(3) tr _ nb]) simp_all
  have my: "(?y + sy) mod 65536 = y1 - sy * int k"
    using line_box_mod(2) [OF box, of "int k"] Suc.prems by (simp add: algebra_simps)
  have mx: "step \<Longrightarrow> (?x + sx) mod 65536 = x1 - sx * m'"
    using line_box_mod(1) [OF box cb'] by (simp add: m'_def algebra_simps)
  have fe: "step \<Longrightarrow> to_s16 (to_s16 (- f - dy) + dx) = - f'" "\<not> step \<Longrightarrow> to_s16 (- f + dx) = - f'"
    using Suc.prems pos by (auto simp: f'_def to_s16_id)
  have ne: "?y \<noteq> y1" using line_box_eq(2) [OF box, of "int (Suc k)"] by simp
  have "line_loop n dx dy sx sy x1 y1 c (- f) ?x ?y l = line_loop n' dx dy sx sy x1 y1 c (- f') (x1 - sx * m') (y1 - sy * int k) (plot c (?x, ?y) l)" for l
    using ne mx my fe Suc.prems pos unfolding n(1)
    by (cases step) (auto simp: plot_def Let_def step_def m'_def simp del: of_nat_Suc)
  then have "line_loop n dx dy sx sy x1 y1 c (- f) ?x ?y l = (True, fold (plot c) ((?x, ?y) # pts) l)" for l
    by (simp add: run del: of_nat_Suc)
  then show ?case using tr' by (intro exI [of _ "(?x, ?y) # pts"]) (simp add: algebra_simps)
qed

text \<open>What a rasterised line must be.\<close>

definition raster_line :: "int \<Rightarrow> int \<Rightarrow> int \<Rightarrow> int \<Rightarrow> (int \<times> int) list \<Rightarrow> bool" where
  "raster_line x0 y0 x1 y1 pts \<longleftrightarrow>
     int (length pts) = max \<bar>x1 - x0\<bar> \<bar>y1 - y0\<bar> + 1 \<and> (x0, y0) \<in> set pts \<and> (x1, y1) \<in> set pts \<and>
     successively neighbours pts \<and>
     list_all (\<lambda>(x, y). min x0 x1 \<le> x \<and> x \<le> max x0 x1 \<and> min y0 y1 \<le> y \<and> y \<le> max y0 y1 \<and>
       2 * \<bar>(x1 - x) * (y1 - y0) - (y1 - y) * (x1 - x0)\<bar> \<le> max \<bar>x1 - x0\<bar> \<bar>y1 - y0\<bar>) pts"

lemma line_trace_raster:
  assumes box: "line_box dx dy sx sy x1 y1" and n: "n = max dx dy"
    and tr: "line_trace dx dy sx sy x1 y1 n (x1 - sx * dx, y1 - sy * dy) pts"
  shows "raster_line (x1 - sx * dx) (y1 - sy * dy) x1 y1 pts"
proof -
  have s: "sx = 1 \<or> sx = - 1" "sy = 1 \<or> sy = - 1" "0 < dx" "0 < dy"
    using box by (auto simp: line_box_def)
  have "pts \<noteq> []" using tr n s by (auto simp: line_trace_def)
  then have ends: "hd pts \<in> set pts" "last pts \<in> set pts" by simp_all
  have dev: "2 * \<bar>(x1 - x) * (sy * dy) - (y1 - y) * (sx * dx)\<bar> \<le> max dx dy \<and>
      min (x1 - sx * dx) x1 \<le> x \<and> x \<le> max (x1 - sx * dx) x1 \<and>
      min (y1 - sy * dy) y1 \<le> y \<and> y \<le> max (y1 - sy * dy) y1" if pt: "(x, y) \<in> set pts" for x y
  proof -
    obtain m k where mk: "x = x1 - sx * m" "y = y1 - sy * k" "0 \<le> m" "m \<le> dx" "0 \<le> k" "k \<le> dy"
      "2 * \<bar>m * dy - k * dx\<bar> \<le> max dx dy"
      by (rule line_trace_point [OF tr pt])
    have "(x1 - x) * (sy * dy) - (y1 - y) * (sx * dx) = sx * sy * (m * dy - k * dx)"
      by (simp add: mk algebra_simps)
    moreover have "\<bar>sx * sy * (m * dy - k * dx)\<bar> = \<bar>m * dy - k * dx\<bar>"
      using s(1,2) by (elim disjE) (simp_all add: abs_minus_commute)
    ultimately have "2 * \<bar>(x1 - x) * (sy * dy) - (y1 - y) * (sx * dx)\<bar> \<le> max dx dy"
      using mk(7) by simp
    moreover have "min (x1 - sx * dx) x1 \<le> x \<and> x \<le> max (x1 - sx * dx) x1"
      using s(1) mk(1,3,4) by (elim disjE) (auto simp: min_def max_def)
    moreover have "min (y1 - sy * dy) y1 \<le> y \<and> y \<le> max (y1 - sy * dy) y1"
      using s(2) mk(2,5,6) by (elim disjE) (auto simp: min_def max_def)
    ultimately show ?thesis by blast
  qed
  have diffs: "x1 - (x1 - sx * dx) = sx * dx" "y1 - (y1 - sy * dy) = sy * dy" by simp_all
  have abs: "\<bar>sx * dx\<bar> = dx" "\<bar>sy * dy\<bar> = dy" using s by auto
  show ?thesis
    unfolding raster_line_def list_all_iff diffs abs
    apply (intro conjI)
    subgoal using tr n by (simp add: line_trace_def)
    subgoal using tr ends(1) by (simp add: line_trace_def)
    subgoal using tr ends(2) by (simp add: line_trace_def)
    subgoal using tr by (simp add: line_trace_def)
    subgoal using dev by (simp add: Ball_def)
    done
qed

lemma clamp_bounds: "0 \<le> (if N \<le> n then int N - 1 else int n) \<and> (if N \<le> n then int N - 1 else int n) < int N"
  if "0 < N" for N n :: nat
  using that by auto

lemma clampx_bounds: "0 \<le> clampx x \<and> clampx x < 128"
  using clamp_bounds [of 128 "unat x"] by (simp only: clampx_def ST7567_WIDTH_def) simp

lemma clampy_bounds: "0 \<le> clampy y \<and> clampy y < 64"
  using clamp_bounds [of 64 "unat y"] by (simp only: clampy_def ST7567_HEIGHT_def) simp

lemma sdiv_two: "0 \<le> v \<Longrightarrow> v sdiv 2 = v div 2" "0 \<le> v \<Longrightarrow> (- v) sdiv 2 = - (v div 2)" for v :: int
  by (simp_all add: signed_divide_int_def sgn_if)

lemma fold_plot_vertical:
  "fold (\<lambda>i. ST7567_DrawPixel (to_u16 x) (to_u16 i) c) ys = fold (plot c) (map (\<lambda>y. (x, y)) ys)"
  by (simp add: fold_map plot_def comp_def)

lemma fold_plot_horizontal:
  "fold (\<lambda>i. ST7567_DrawPixel (to_u16 i) (to_u16 y) c) xs = fold (plot c) (map (\<lambda>x. (x, y)) xs)"
  by (simp add: fold_map plot_def comp_def)

lemma successively_upto: "successively (\<lambda>a b. \<bar>a - b\<bar> \<le> 1) [i..j]"
proof (induction i j rule: upto.induct)
  case (1 i j)
  show ?case
  proof (cases "i < j")
    case True
    with 1 have "successively (\<lambda>a b. \<bar>a - b\<bar> \<le> 1) [i + 1..j]" by simp
    with True show ?thesis by (simp add: upto.simps [of i j] upto.simps [of "i + 1" j])
  qed (simp add: upto.simps [of i j] upto.simps [of "i + 1" j])
qed

lemma raster_vertical: "raster_line x y0 x y1 (map (\<lambda>y. (x, y)) [min y0 y1..max y0 y1])"
  using successively_upto
  by (auto simp: raster_line_def list_all_iff successively_map neighbours_def)

lemma raster_horizontal: "raster_line x0 y x1 y (map (\<lambda>x. (x, y)) [min x0 x1..max x0 x1])"
  using successively_upto
  by (auto simp: raster_line_def list_all_iff successively_map neighbours_def)


lemma draw_clamped_raster:
  assumes b: "0 \<le> x0" "x0 < 128" "0 \<le> x1" "x1 < 128" "0 \<le> y0" "y0 < 64" "0 \<le> y1" "y1 < 64"
  shows "\<exists>pts. raster_line x0 y0 x1 y1 pts \<and>
     (\<forall>l. draw_clamped x0 y0 x1 y1 c l = (True, fold (plot c) pts l))"
proof -
  define dx dy sx sy where ds: "dx = \<bar>x1 - x0\<bar>" "dy = \<bar>y1 - y0\<bar>"
    "sx = (if x0 < x1 then 1 else -1 :: int)" "sy = (if y0 < y1 then 1 else -1 :: int)"
  have abs: "to_s16 (if x0 < x1 then x1 - x0 else x0 - x1) = dx"
    "to_s16 (if y0 < y1 then y1 - y0 else y0 - y1) = dy"
    using b by (auto simp: ds to_s16_id)
  have start: "x0 = x1 - sx * dx" "y0 = y1 - sy * dy" by (auto simp: ds)
  note run = draw_clamped_def Let_def abs ds(3,4) [symmetric]
  have box: "line_box dx dy sx sy x1 y1" if "dx \<noteq> 0" "dy \<noteq> 0"
    using b that by (auto simp: line_box_def ds)
  consider "dx = 0" | "dx \<noteq> 0" "dy = 0" | "dx \<noteq> 0" "dy \<noteq> 0" "dy < dx" | "dx \<noteq> 0" "dy \<noteq> 0" "dx \<le> dy"
    by linarith
  then show ?thesis
  proof cases
    case 1
    then have "x0 = x1" by (simp add: ds)
    moreover have "draw_clamped x0 y0 x1 y1 c l = (True, fold (plot c) (map (\<lambda>y. (min x0 x1, y)) [min y0 y1..max y0 y1]) l)" for l
      unfolding run using 1 by (simp add: fold_plot_vertical)
    ultimately show ?thesis using raster_vertical [of x1 y0 y1] by auto
  next
    case 2
    then have "y0 = y1" by (simp add: ds)
    moreover have "draw_clamped x0 y0 x1 y1 c l = (True, fold (plot c) (map (\<lambda>x. (x, min y0 y1)) [min x0 x1..max x0 x1]) l)" for l
      unfolding run using 2 by (simp add: fold_plot_horizontal)
    ultimately show ?thesis using raster_horizontal [of x0 y1 x1] by auto
  next
    case 3
    have d: "0 < dx" "dx < 128" using 3 b by (auto simp: ds)
    then obtain pts where tr: "line_trace dx dy sx sy x1 y1 dx (x1 - sx * dx, y1 - sy * dy) pts"
      and go: "\<And>l. line_loop line_fuel dx dy sx sy x1 y1 c (dx div 2) (x1 - sx * dx) (y1 - sy * dy) l = (True, fold (plot c) pts l)"
      using line_loop_xmajor [OF box [OF 3(1,2)] 3(3), of "nat dx" "dx div 2" dy line_fuel c]
      by (force simp: line_fuel_def nat_less_iff)
    have e: "to_s16 ((if dy < dx then dx else - dy) sdiv 2) = dx div 2"
      using 3 d by (simp add: sdiv_two to_s16_id)
    have "raster_line x0 y0 x1 y1 pts"
      using line_trace_raster [OF box [OF 3(1,2)] _ tr] 3(3) start by simp
    moreover have "draw_clamped x0 y0 x1 y1 c l = (True, fold (plot c) pts l)" for l
      unfolding run e using 3(1,2) go [of l] start by simp
    ultimately show ?thesis by blast
  next
    case 4
    have d: "0 < dy" "dy < 128" using 4 b by (auto simp: ds)
    then obtain pts where tr: "line_trace dx dy sx sy x1 y1 dy (x1 - sx * dx, y1 - sy * dy) pts"
      and go: "\<And>l. line_loop line_fuel dx dy sx sy x1 y1 c (- (dy div 2)) (x1 - sx * dx) (y1 - sy * dy) l = (True, fold (plot c) pts l)"
      using line_loop_ymajor [OF box [OF 4(1,2)] 4(3), of "nat dy" "dy div 2" dx line_fuel c]
      by (force simp: line_fuel_def nat_less_iff)
    have e: "to_s16 ((if dy < dx then dx else - dy) sdiv 2) = - (dy div 2)"
      using 4 d by (simp add: sdiv_two to_s16_id)
    have "raster_line x0 y0 x1 y1 pts"
      using line_trace_raster [OF box [OF 4(1,2)] _ tr] 4(3) start by simp
    moreover have "draw_clamped x0 y0 x1 y1 c l = (True, fold (plot c) pts l)" for l
      unfolding run e using 4(1,2) go [of l] start by simp
    ultimately show ?thesis by blast
  qed
qed


section \<open>The serial link, decoded\<close>

text \<open>An abstract receiver: it samples MOSI on the rising edge of SCK while CS is low and
  hands over a byte with the level of DC after eight bits; CS going either way empties its
  shift register.\<close>

record lcd_rx =
  rcs :: bool
  rsck :: bool
  rmosi :: bool
  rdc :: bool
  rbits :: "bool list"
  rout :: "(bool \<times> u8) list"

definition rx_clock :: "lcd_rx \<Rightarrow> lcd_rx" where
  "rx_clock r =
     (let bs = rbits r @ [rmosi r]
      in if length bs = 8
         then r\<lparr>rsck := True, rbits := [], rout := rout r @ [(rdc r, horner_sum of_bool 2 (rev bs))]\<rparr>
         else r\<lparr>rsck := True, rbits := bs\<rparr>)"

fun rx_step :: "lcd_ev \<Rightarrow> lcd_rx \<Rightarrow> lcd_rx" where
  "rx_step (Pin CS b) r = r\<lparr>rcs := b, rbits := []\<rparr>"
| "rx_step (Pin MOSI b) r = r\<lparr>rmosi := b\<rparr>"
| "rx_step (Pin DC b) r = r\<lparr>rdc := b\<rparr>"
| "rx_step (Pin SCK b) r = (if b \<and> \<not> rsck r \<and> \<not> rcs r then rx_clock r else r\<lparr>rsck := b\<rparr>)"
| "rx_step (Pin RES b) r = r"
| "rx_step (Pin BL b) r = r"
| "rx_step (HAL_Delay n) r = r"

definition rx_init :: lcd_rx where
  "rx_init = \<lparr>rcs = True, rsck = True, rmosi = False, rdc = True, rbits = [], rout = []\<rparr>"

definition received :: "lcd \<Rightarrow> lcd_rx" where
  "received l = fold rx_step (bus l) rx_init"

abbreviation stream :: "lcd \<Rightarrow> (bool \<times> u8) list" where
  "stream l \<equiv> rout (received l)"

lemma mosi_bit: "i \<le> 7 \<Longrightarrow> (push_bit i dat AND 0x80 \<noteq> 0) = bit dat (7 - i)" for dat :: u8
  using bit_iff_and_push_bit_not_eq_0 [of "push_bit i dat" 7]
  by (simp add: bit_simps push_bit_of_1)

lemma byte_of_bits:
  "horner_sum of_bool 2 [bit dat 0, bit dat 1, bit dat 2, bit dat 3, bit dat 4, bit dat 5, bit dat 6, bit dat 7] = (dat :: u8)"
proof -
  have "[bit dat 0, bit dat 1, bit dat 2, bit dat 3, bit dat 4, bit dat 5, bit dat 6, bit dat 7] = map (bit dat) [0..<8]"
    by (simp add: upt_rec [of 0 "numeral n" for n] upt_rec [of "Suc 0" "numeral n" for n] numeral_2_eq_2 [symmetric])
  then show ?thesis by (simp only: horner_sum_bit_eq_take_bit) (simp add: take_bit_word_eq_self)
qed

lemma transmit_bits_8:
  "transmit_bits 8 dat = concat (map (\<lambda>i. [Pin SCK False, Pin MOSI (bit dat (7 - i)), Pin SCK True]) [0..<8])"
proof -
  have "transmit_bits n (push_bit i dat) =
      concat (map (\<lambda>i. [Pin SCK False, Pin MOSI (bit dat (7 - i)), Pin SCK True]) [i..<i + n])"
    if "i + n \<le> 8" for n i
    using that
  proof (induction n arbitrary: i)
    case (Suc n)
    then show ?case using mosi_bit [of i dat] Suc.IH [of "Suc i"]
      by (simp add: upt_rec [of i] push_bit_push_bit)
  qed simp
  from this [of 0 8] show ?thesis by simp
qed

lemma rx_byte:
  "fold rx_step ([Pin CS False] @ transmit_bits 8 dat @ [Pin CS True]) r =
   r\<lparr>rcs := True, rsck := True, rmosi := bit dat 0, rbits := [], rout := rout r @ [(rdc r, dat)]\<rparr>"
  by (simp add: transmit_bits_8 rx_clock_def upt_rec [of 0 "numeral n" for n]
      upt_rec [of "Suc 0" "numeral n" for n] numeral_2_eq_2 [symmetric] byte_of_bits [simplified])

lemma received_emit: "received (emit es l) = fold rx_step es (received l)"
  by (simp add: received_def emit_def)

lemma received_TransmitByte:
  "received (ST7567_TransmitByte d l) =
   (received l)\<lparr>rcs := True, rsck := True, rmosi := bit d 0, rbits := [],
     rout := stream l @ [(rdc (received l), d)]\<rparr>"
  unfolding ST7567_TransmitByte_def received_emit rx_byte ..

lemma stream_WriteCommand [simp]: "stream (ST7567_WriteCommand c l) = stream l @ [(False, c)]"
  by (simp add: ST7567_WriteCommand_def received_TransmitByte received_emit)

lemma dc_WriteCommand [simp]: "rdc (received (ST7567_WriteCommand c l))"
  by (simp add: ST7567_WriteCommand_def received_emit)

lemma stream_WriteData [simp]:
  "stream (ST7567_WriteData d l) = stream l @ [(rdc (received l), d)]"
  "rdc (received (ST7567_WriteData d l)) = rdc (received l)"
  by (simp_all add: ST7567_WriteData_def received_TransmitByte)

lemma lcd_mem_bus [simp]:
  "lcd_mem (ST7567_WriteData d l) = lcd_mem l" "lcd_mem (ST7567_WriteCommand d l) = lcd_mem l"
  by (simp_all add: fun_eq_iff lcd_mem_def ST7567_WriteData_def ST7567_WriteCommand_def
      ST7567_TransmitByte_def emit_def)

lemma stream_data_loop:
  "rdc (received l) \<Longrightarrow>
   stream (fold (\<lambda>j l. ST7567_WriteData (lcd_mem l (f j)) l) js l) =
     stream l @ map (\<lambda>j. (True, lcd_mem l (f j))) js"
  "rdc (received l) \<Longrightarrow>
   rdc (received (fold (\<lambda>j l. ST7567_WriteData (lcd_mem l (f j)) l) js l))"
  "lcd_mem (fold (\<lambda>j l. ST7567_WriteData (lcd_mem l (f j)) l) js l) = lcd_mem l"
  by (induction js arbitrary: l) simp_all

definition page_stream :: "lcd \<Rightarrow> nat \<Rightarrow> (bool \<times> u8) list" where
  "page_stream l i = [(False, 0xB0 + of_nat i), (False, 0x10), (False, 0x00)] @
     map (\<lambda>j. (True, lcd_mem l (i * 132 + j))) [0..<132]"

lemma stream_UpdatePage: "stream (ST7567_UpdatePage i l) = stream l @ page_stream l i"
  "lcd_mem (ST7567_UpdatePage i l) = lcd_mem l"
  by (simp_all add: ST7567_UpdatePage_def stream_data_loop page_stream_def)

lemma page_stream_UpdatePage: "page_stream (ST7567_UpdatePage i l) = page_stream l"
  by (simp add: fun_eq_iff page_stream_def stream_UpdatePage)

lemma stream_pages: "stream (fold ST7567_UpdatePage is l) = stream l @ concat (map (page_stream l) is)"
  by (induction "is" arbitrary: l) (simp_all add: stream_UpdatePage page_stream_UpdatePage)

section \<open>Properties\<close>

text \<open>C26. \<open>ST7567_DrawLine\<close> returns for all coordinates, and the pixels it writes are
  a connected rasterisation of the clipped segment: one pixel per step of the longer axis,
  both end points included, every pixel inside the bounding box and within half a pixel of
  the ideal line; a pixel on the screen afterwards has the colour \<open>c\<close> if it is one of them
  and its old value otherwise.\<close>

theorem DrawLine_rasterises:
  "\<exists>pts. raster_line (clampx x0) (clampy y0) (clampx x1) (clampy y1) pts \<and>
     (\<forall>l. fst (DrawLine_run x0 y0 x1 y1 c l) \<and>
       ST7567_DrawLine x0 y0 x1 y1 c l = fold (\<lambda>(x, y). ST7567_DrawPixel (to_u16 x) (to_u16 y) c) pts l)"
proof -
  obtain pts where r: "raster_line (clampx x0) (clampy y0) (clampx x1) (clampy y1) pts"
    and run: "\<And>l. draw_clamped (clampx x0) (clampy y0) (clampx x1) (clampy y1) c l = (True, fold (plot c) pts l)"
    using draw_clamped_raster [of "clampx x0" "clampx x1" "clampy y0" "clampy y1" c]
      clampx_bounds clampy_bounds by blast
  have "plot c = (\<lambda>(x, y). ST7567_DrawPixel (to_u16 x) (to_u16 y) c)" by (auto simp: plot_def)
  then show ?thesis using r run by (auto simp: DrawLine_run_def ST7567_DrawLine_def)
qed

text \<open>A pixel is set, cleared or kept by \<open>ST7567_DrawPixel\<close> exactly as asked:
  coordinates off the screen change nothing, on-screen ones change that pixel only, and
  the buffer keeps its size, so no write leaves it.\<close>

theorem DrawPixel_exact:
  assumes "lcd_wf l" and "i < 128" and "j < 64"
  shows "pixel (ST7567_DrawPixel x y c l) i j =
           (if unat x = i \<and> unat y = j then c = 1 else pixel l i j) \<and>
         lcd_wf (ST7567_DrawPixel x y c l) \<and>
         (unat x < 128 \<longrightarrow> unat y < 64 \<longrightarrow> pix_index x y < length (Buffer_all l))"
  using screen.px_put [OF assms] screen.ok_put [OF assms(1)] pix_index_bound [of x y] assms(1)
  by (simp add: lcd_wf_def)

definition blank_lcd :: lcd where
  "blank_lcd = \<lparr>Buffer_all = replicate BUF_SIZE 0, Buffer_after = (\<lambda>_. 0), CurrentX = 0,
     CurrentY = 0, Inverted = 0, bus = []\<rparr>"

theorem DrawPixel_exact_witness:
  "lcd_wf blank_lcd \<and> pixel (ST7567_DrawPixel 5 9 1 blank_lcd) 5 9 \<and>
   \<not> pixel (ST7567_DrawPixel 5 9 1 blank_lcd) 5 8"
proof -
  have wf: "lcd_wf blank_lcd" by (simp add: lcd_wf_def blank_lcd_def)
  show ?thesis
    using wf DrawPixel_exact [OF wf, of 5 9 5 9 1] DrawPixel_exact [OF wf, of 5 8 5 9 1]
    by (simp add: pixel_def blank_lcd_def)
qed

definition page_address :: "nat \<Rightarrow> (bool \<times> u8) list" where
  "page_address i = [(False, 0xB0 + of_nat i), (False, 0x10), (False, 0x00)]"

lemma page_stream_inside:
  assumes "lcd_wf l" "i < 8"
  shows "page_stream l i = page_address i @ map (Pair True) (take 132 (drop (i * 132) (Buffer_all l)))"
proof -
  have "i * 132 + 132 \<le> 8 * 132" using assms(2) by linarith
  then show ?thesis using assms(1)
    by (auto simp: page_stream_def page_address_def lcd_mem_def lcd_wf_def add.commute intro!: nth_equalityI)
qed

lemma page_stream_behind: "page_stream l 8 = page_address 8 @ map (\<lambda>j. (True, Buffer_after l j)) [0..<132]"
  by (auto simp: page_stream_def page_address_def lcd_mem_def)

text \<open>C27. What the display controller receives during \<open>ST7567_UpdateScreen\<close>, bit by bit
  over the emulated serial bus: for each of the eight pages of the display the page, high-column and
  low-column commands (DC low) and then the 132 bytes of that page of the frame buffer (DC high), in order; and after them
  a ninth page, which the controller does not have, with 132 bytes of the memory that follows the frame buffer.\<close>

theorem UpdateScreen_stream:
  assumes "lcd_wf l"
  shows "stream (ST7567_UpdateScreen l) = stream l @
    concat (map (\<lambda>i. page_address i @ map (Pair True) (take 132 (drop (i * 132) (Buffer_all l)))) [0..<8]) @
    page_address 8 @ map (\<lambda>j. (True, Buffer_after l j)) [0..<132]"
proof -
  have n: "[0..<9] = [0..<8] @ [8]" by (simp add: upt_rec)
  have e: "map (page_stream l) [0..<8] = map (\<lambda>i. page_address i @ map (Pair True) (take 132 (drop (i * 132) (Buffer_all l)))) [0..<8]"
    using page_stream_inside [OF assms] by (intro map_cong) auto
  show ?thesis unfolding ST7567_UpdateScreen_def stream_pages n map_append concat_append e by (simp add: page_stream_behind)
qed

theorem UpdateScreen_stream_witness:
  "drop (9 * 135 - 135) (stream (ST7567_UpdateScreen blank_lcd)) = page_address 8 @ replicate 132 (True, 0)"
proof -
  have "stream blank_lcd = []" by (simp add: received_def blank_lcd_def rx_init_def)
  moreover have "length (concat (map (\<lambda>i. page_address i @ map (Pair True) (take 132 (drop (i * 132) (Buffer_all blank_lcd)))) [0..<8])) = 1080"
    by (simp add: blank_lcd_def page_address_def upt_rec)
  moreover have "lcd_wf blank_lcd" by (simp add: lcd_wf_def blank_lcd_def)
  moreover have "map (\<lambda>j. (True, Buffer_after blank_lcd j)) [0..<132] = replicate 132 (True, 0)"
    by (intro nth_equalityI) (simp_all add: blank_lcd_def)
  ultimately show ?thesis using UpdateScreen_stream [of blank_lcd] by simp
qed

end
