(* ===== verification/Flash.thy ===== *)
theory Flash
  imports Base
begin

text \<open>
  The on-chip flash: the driver \<^verbatim>\<open>drivers/drv_flash_f1.c\<close> and the two HAL routines it
  calls (\<^verbatim>\<open>HAL_FLASH_Program\<close> and \<^verbatim>\<open>HAL_FLASHEx_Erase\<close> of the STM32F1 HAL). The flash
  controller itself is hardware: its two operations (program a half word, erase a page)
  and the outcome of the initial wait are the fields of the parameter \<open>flash_hw\<close>, and what
  its reference manual says of them is the predicate \<open>nor_flash\<close>.
\<close>

section \<open>The hardware\<close>

type_synonym flash = "u32 \<Rightarrow> u8"

record flash_hw =
  hw_idle :: bool
  hw_halfword :: "u32 \<Rightarrow> u16 \<Rightarrow> flash \<Rightarrow> bool \<times> flash"
  hw_erase_page :: "u32 \<Rightarrow> flash \<Rightarrow> bool \<times> flash"

definition FLASH_PAGE_SIZE :: u32 where "FLASH_PAGE_SIZE = 0x400"
definition STM32_FLASH_END_ADDRESS :: u32 where "STM32_FLASH_END_ADDRESS = 0x08020000"

text \<open>\<open>RT_ALIGN_DOWN(addr, FLASH_PAGE_SIZE)\<close>.\<close>

definition GetPage :: "u32 \<Rightarrow> u32" where
  "GetPage addr = addr AND NOT (FLASH_PAGE_SIZE - 1)"

section \<open>The HAL\<close>

text \<open>\<open>HAL_FLASH_Program(FLASH_TYPEPROGRAM_WORD, Address, Data)\<close>: the low half word, then
  the high one, stopping at the first error.\<close>

definition HAL_FLASH_Program :: "flash_hw \<Rightarrow> u32 \<Rightarrow> u32 \<Rightarrow> flash \<Rightarrow> bool \<times> flash" where
  "HAL_FLASH_Program hw Address Data m =
     (if \<not> hw_idle hw then (False, m)
      else case hw_halfword hw Address (ucast Data) m of
        (False, m') \<Rightarrow> (False, m')
      | (True, m') \<Rightarrow> hw_halfword hw (Address + 2) (ucast (drop_bit 16 Data)) m')"

fun erase_pages :: "flash_hw \<Rightarrow> nat \<Rightarrow> u32 \<Rightarrow> flash \<Rightarrow> bool \<times> flash" where
  "erase_pages hw 0 address m = (True, m)"
| "erase_pages hw (Suc n) address m =
     (case hw_erase_page hw address m of
        (False, m') \<Rightarrow> (False, m')
      | (True, m') \<Rightarrow> erase_pages hw n (address + FLASH_PAGE_SIZE) m')"

text \<open>Page erase of \<open>NbPages\<close> pages; with no page to erase the status stays \<open>HAL_ERROR\<close>.\<close>

definition HAL_FLASHEx_Erase :: "flash_hw \<Rightarrow> u32 \<Rightarrow> nat \<Rightarrow> flash \<Rightarrow> bool \<times> flash" where
  "HAL_FLASHEx_Erase hw PageAddress NbPages m =
     (if \<not> hw_idle hw \<or> NbPages = 0 then (False, m) else erase_pages hw NbPages PageAddress m)"

section \<open>The driver\<close>

text \<open>Result codes: the byte count on success, negative on error.\<close>

definition RT_EINVAL :: int where "RT_EINVAL = 10"

text \<open>\<open>stm32_flash_read\<close>: \<open>None\<close> is \<open>-RT_EINVAL\<close> with the buffer left alone, \<open>Some\<close>
  the bytes put into the buffer (the result is then \<open>size\<close>).\<close>

definition stm32_flash_read :: "u32 \<Rightarrow> nat \<Rightarrow> flash \<Rightarrow> bytes option" where
  "stm32_flash_read addr sz m =
     (if addr + of_nat sz > STM32_FLASH_END_ADDRESS then None
      else Some (map (\<lambda>i. m (addr + of_nat i)) [0..<sz]))"

definition flash_word :: "flash \<Rightarrow> u32 \<Rightarrow> u32" where
  "flash_word m addr = of_le32 [m addr, m (addr + 1), m (addr + 2), m (addr + 3)]"

text \<open>The programming loop. The buffer is read a word at a time; \<open>None\<close> is a read past
  the end of the buffer.\<close>

fun write_words :: "flash_hw \<Rightarrow> u32 \<Rightarrow> u32 \<Rightarrow> bytes \<Rightarrow> flash \<Rightarrow> (bool \<times> flash) option" where
  "write_words hw addr end_addr buf m =
     (if addr < end_addr then
        (case buf of
           b0 # b1 # b2 # b3 # rest \<Rightarrow>
             let w = of_le32 [b0, b1, b2, b3] in
             (case HAL_FLASH_Program hw addr w m of
                (False, m') \<Rightarrow> Some (False, m')
              | (True, m') \<Rightarrow>
                  if flash_word m' addr \<noteq> w then Some (False, m')
                  else write_words hw (addr + 4) end_addr rest m')
         | _ \<Rightarrow> None)
      else Some (True, m))"

declare write_words.simps [simp del]

definition stm32_flash_write :: "flash_hw \<Rightarrow> u32 \<Rightarrow> bytes \<Rightarrow> nat \<Rightarrow> flash \<Rightarrow> (int \<times> flash) option" where
  "stm32_flash_write hw addr buf sz m =
     (let end_addr = addr + of_nat sz in
      if addr mod 4 \<noteq> 0 then Some (- RT_EINVAL, m)
      else if end_addr > STM32_FLASH_END_ADDRESS then Some (- RT_EINVAL, m)
      else map_option (\<lambda>(ok, m'). (if ok then int sz else - 1, m')) (write_words hw addr end_addr buf m))"

text \<open>The part has one bank, so \<open>stm32_flash_erase\<close> is \<open>stm32_flash_erase_bank\<close>.\<close>

definition stm32_flash_erase_bank :: "flash_hw \<Rightarrow> u32 \<Rightarrow> nat \<Rightarrow> flash \<Rightarrow> int \<times> flash" where
  "stm32_flash_erase_bank hw addr sz m =
     (if addr + of_nat sz > STM32_FLASH_END_ADDRESS then (- RT_EINVAL, m)
      else case HAL_FLASHEx_Erase hw (GetPage addr)
                  (unat ((of_nat sz + FLASH_PAGE_SIZE - 1) div FLASH_PAGE_SIZE)) m of
             (True, m') \<Rightarrow> (int sz, m')
           | (False, m') \<Rightarrow> (- 1, m'))"

definition stm32_flash_erase :: "flash_hw \<Rightarrow> u32 \<Rightarrow> nat \<Rightarrow> flash \<Rightarrow> int \<times> flash" where
  "stm32_flash_erase hw addr sz m = stm32_flash_erase_bank hw addr sz m"

text \<open>\<open>setDataToFlah\<close> and \<open>getDataFromFlash\<close> of \<^verbatim>\<open>applications/Uart/module.c\<close>; both
  ignore the driver's result codes.\<close>

definition setDataToFlah :: "flash_hw \<Rightarrow> u32 \<Rightarrow> bytes \<Rightarrow> flash \<Rightarrow> flash option" where
  "setDataToFlah hw addr dat m =
     map_option snd (stm32_flash_write hw addr dat (length dat)
       (snd (stm32_flash_erase hw addr (length dat) m)))"

definition getDataFromFlash :: "u32 \<Rightarrow> bytes \<Rightarrow> flash \<Rightarrow> bytes" where
  "getDataFromFlash addr dat m =
     (case stm32_flash_read addr (length dat) m of None \<Rightarrow> dat | Some bs \<Rightarrow> bs)"

section \<open>Documented behaviour of the hardware\<close>

definition erased_page :: "u32 \<Rightarrow> flash \<Rightarrow> flash" where
  "erased_page a m = (\<lambda>x. if GetPage x = GetPage a then 0xFF else m x)"

text \<open>Programming an erased, aligned half word stores it; erasing a page sets all its bytes
  and no other.\<close>

definition nor_flash :: "flash_hw \<Rightarrow> bool" where
  "nor_flash hw \<longleftrightarrow> hw_idle hw \<and>
     (\<forall>a d m. even a \<longrightarrow> m a = 0xFF \<longrightarrow> m (a + 1) = 0xFF \<longrightarrow>
        hw_halfword hw a d m = (True, m(a := lo8 d, a + 1 := hi8 d))) \<and>
     (\<forall>a m. hw_erase_page hw a m = (True, erased_page a m))"

text \<open>A controller with this behaviour, which also refuses to program a half word that is
  not erased.\<close>

definition ref_hw :: flash_hw where
  "ref_hw = \<lparr>hw_idle = True,
     hw_halfword = (\<lambda>a d m. if m a = 0xFF \<and> m (a + 1) = 0xFF
                            then (True, m(a := lo8 d, a + 1 := hi8 d)) else (False, m)),
     hw_erase_page = (\<lambda>a m. (True, erased_page a m))\<rparr>"

lemma nor_flash_ref: "nor_flash ref_hw"
  by (simp add: nor_flash_def ref_hw_def)

section \<open>Erase, write, read back\<close>

text \<open>The bytes \<open>bs\<close> laid over a memory from address \<open>a\<close> on.\<close>

definition store_at :: "u32 \<Rightarrow> bytes \<Rightarrow> flash \<Rightarrow> flash" where
  "store_at a bs m = (\<lambda>x. if unat (x - a) < length bs then bs ! unat (x - a) else m x)"

lemma store_at_Nil [simp]: "store_at a [] m = m"
  by (simp add: store_at_def)

lemma unat_pred: "y \<noteq> 0 \<Longrightarrow> unat (y :: u32) = Suc (unat (y - 1))"
  using unat_minus_one [of y] by (simp add: unat_gt_0)

lemma store_at_Cons:
  assumes "length bs < 2 ^ 32"
  shows "store_at a (b # bs) m = store_at (a + 1) bs (m(a := b))"
proof
  fix x
  show "store_at a (b # bs) m x = store_at (a + 1) bs (m(a := b)) x"
  proof (cases "x = a")
    case True
    have "unat (- 1 :: u32) = 2 ^ 32 - 1" by (simp add: unsigned_minus_1_eq_mask mask_eq_exp_minus_1)
    with True assms show ?thesis by (simp add: store_at_def)
  next
    case False
    then have "unat (x - a) = Suc (unat (x - (a + 1)))"
      using unat_pred [of "x - a"] by (simp add: diff_diff_eq add.commute)
    with False show ?thesis by (simp add: store_at_def)
  qed
qed

lemma halves_of_le32:
  "lo8 (ucast (of_le32 [b0, b1, b2, b3])) = b0"
  "hi8 (ucast (of_le32 [b0, b1, b2, b3])) = b1"
  "lo8 (ucast (drop_bit 16 (of_le32 [b0, b1, b2, b3]))) = b2"
  "hi8 (ucast (drop_bit 16 (of_le32 [b0, b1, b2, b3]))) = b3"
proof -
  let ?w = "of_le32 [b0, b1, b2, b3]"
  have "lo8 (ucast ?w) = ucast ?w" "hi8 (ucast ?w) = ucast (drop_bit 8 ?w)"
    "lo8 (ucast (drop_bit 16 ?w)) = ucast (drop_bit 16 ?w)"
    "hi8 (ucast (drop_bit 16 ?w)) = ucast (drop_bit 24 ?w)"
    by (rule bit_word_eqI; auto simp: lo8_def hi8_def bit_simps)+
  then show "lo8 (ucast ?w) = b0" "hi8 (ucast ?w) = b1"
    "lo8 (ucast (drop_bit 16 ?w)) = b2" "hi8 (ucast (drop_bit 16 ?w)) = b3"
    by (simp_all add: le32_of_le32)
qed

lemma HAL_FLASH_Program_erased:
  assumes "nor_flash hw" "even a" "\<And>i. i < 4 \<Longrightarrow> m (a + of_nat i) = 0xFF"
  shows "HAL_FLASH_Program hw a (of_le32 [b0, b1, b2, b3]) m =
           (True, m(a := b0, a + 1 := b1, a + 2 := b2, a + 3 := b3))"
proof -
  have erased: "m a = 0xFF" "m (a + 1) = 0xFF" "m (a + 2) = 0xFF" "m (a + 3) = 0xFF"
    using assms(3) [of 0] assms(3) [of 1] assms(3) [of 2] assms(3) [of 3] by simp_all
  let ?w = "of_le32 [b0, b1, b2, b3]"
  have prog: "hw_halfword hw p d m = (True, m(p := lo8 d, q := hi8 d))"
    if "even p" "q = p + 1" "m p = 0xFF" "m q = 0xFF" for p q d m
    using assms(1) that by (simp add: nor_flash_def)
  have "even (a + 2)" using assms(2) by (intro dvd_add) simp_all
  then have "hw_halfword hw (a + 2) (ucast (drop_bit 16 ?w)) (m(a := b0, a + 1 := b1)) =
      (True, m(a := b0, a + 1 := b1, a + 2 := b2, a + 3 := b3))"
    using prog [of "a + 2" "a + 3" "m(a := b0, a + 1 := b1)" "ucast (drop_bit 16 ?w)"] erased
    by (simp add: halves_of_le32)
  with prog [of a "a + 1" m "ucast ?w"] assms erased show ?thesis
    by (simp add: HAL_FLASH_Program_def nor_flash_def halves_of_le32)
qed

lemma flash_word_stored:
  "flash_word (m(a := b0, a + 1 := b1, a + 2 := b2, a + 3 := b3)) a = of_le32 [b0, b1, b2, b3]"
  by (simp add: flash_word_def)

lemma store_at_word:
  assumes "length bs + 4 < 2 ^ 32"
  shows "store_at a (b0 # b1 # b2 # b3 # bs) m =
         store_at (a + 4) bs (m(a := b0, a + 1 := b1, a + 2 := b2, a + 3 := b3))"
proof -
  have "a + 1 + 1 = a + 2" "a + 2 + 1 = a + 3" "a + 3 + 1 = a + 4" by simp_all
  with assms show ?thesis by (simp add: store_at_Cons add.commute)
qed

lemma less_add_of_nat:
  "0 < n \<Longrightarrow> unat (a :: u32) + n < 2 ^ 32 \<Longrightarrow> a < a + of_nat n"
  by (simp add: word_less_nat_alt unat_of_nat unat_plus_if')

text \<open>Over erased memory the programming loop succeeds and lays the buffer down.\<close>

lemma write_words_erased:
  assumes "nor_flash hw" "even a" "length bs = 4 * k" "unat a + length bs < 2 ^ 32"
    and "\<And>i. i < length bs \<Longrightarrow> m (a + of_nat i) = 0xFF"
  shows "write_words hw a (a + of_nat (length bs)) bs m = Some (True, store_at a bs m)"
  using assms(2-)
proof (induction k arbitrary: a bs m)
  case 0
  then show ?case by (simp add: write_words.simps)
next
  case (Suc k)
  from Suc.prems(2) obtain b0 b1 b2 b3 rest where bs: "bs = b0 # b1 # b2 # b3 # rest"
    and len: "length rest = 4 * k"
    by (auto simp: length_Suc_conv numeral_eq_Suc)
  let ?m = "m(a := b0, a + 1 := b1, a + 2 := b2, a + 3 := b3)"
  have prog: "HAL_FLASH_Program hw a (of_le32 [b0, b1, b2, b3]) m = (True, ?m)"
    using assms(1) Suc.prems bs by (intro HAL_FLASH_Program_erased) auto
  have "unat (a + 4) = unat a + 4" using Suc.prems(3) bs by (simp add: unat_plus_if')
  moreover have "?m (a + 4 + of_nat i) = 0xFF" if "i < length rest" for i
  proof -
    have "unat (of_nat (i + 4) :: u32) = i + 4"
      using that Suc.prems(3) bs by (simp add: unat_of_nat del: of_nat_add)
    then have "of_nat (i + 4) \<noteq> (0 :: u32)" "of_nat (i + 4) \<noteq> (1 :: u32)"
      "of_nat (i + 4) \<noteq> (2 :: u32)" "of_nat (i + 4) \<noteq> (3 :: u32)"
      by (auto simp del: of_nat_add)
    then have "?m (a + of_nat (i + 4)) = 0xFF"
      using Suc.prems(4) [of "i + 4"] that bs by (simp del: of_nat_add)
    also have "a + of_nat (i + 4) = a + 4 + of_nat i" by simp
    finally show ?thesis .
  qed
  moreover have "even (a + 4)" using Suc.prems(1) by (intro dvd_add) simp_all
  ultimately have "write_words hw (a + 4) (a + 4 + of_nat (length rest)) rest ?m =
      Some (True, store_at (a + 4) rest ?m)"
    using len Suc.prems(3) bs by (intro Suc.IH) simp_all
  moreover have "a < a + of_nat (length bs)" using Suc.prems(3) bs
    by (intro less_add_of_nat) auto
  moreover have "a + of_nat (length bs) = a + 4 + of_nat (length rest)" by (simp add: bs)
  ultimately show ?case
    using prog Suc.prems(3) bs
    by (subst write_words.simps) (simp add: flash_word_stored store_at_word add.assoc)
qed

lemma GetPage_mask: "GetPage x = x AND NOT (mask 10)"
  by (simp add: GetPage_def FLASH_PAGE_SIZE_def mask_eq_exp_minus_1)

lemma GetPage_within:
  assumes "GetPage a = a" "i < 1024"
  shows "GetPage (a + of_nat i) = a"
proof -
  have "take_bit 10 (of_nat i :: u32) = of_nat i"
    using assms(2) by (simp add: take_bit_of_nat take_bit_nat_eq_self)
  then have low: "bit (of_nat i :: u32) n \<Longrightarrow> n < 10" for n
    by (metis bit_take_bit_iff)
  have high: "bit a n \<Longrightarrow> 10 \<le> n" for n
    using assms(1) by (metis GetPage_mask bit_and_iff bit_not_iff bit_mask_iff
      bit_imp_le_length leI min_less_iff_conj possible_bit_word)
  have "a + of_nat i = a OR of_nat i"
    by (rule disjunctive_add) (use low high in fastforce)
  then show ?thesis unfolding GetPage_mask
    by (intro bit_word_eqI) (use low high in \<open>force simp: bit_simps\<close>)
qed

lemma erase_one_page:
  assumes "nor_flash hw" "GetPage a = a" "0 < n" "n \<le> 1024" "unat a + n \<le> 0x08020000"
  shows "stm32_flash_erase hw a n m = (int n, erased_page a m)"
proof -
  have n: "unat (of_nat n :: u32) = n" using assms(4) by (simp add: unat_of_nat)
  have "\<not> STM32_FLASH_END_ADDRESS < a + of_nat n"
    using assms(5) n by (simp add: STM32_FLASH_END_ADDRESS_def word_less_nat_alt unat_plus_if')
  moreover have "unat ((of_nat n + FLASH_PAGE_SIZE - 1) div FLASH_PAGE_SIZE) = 1"
  proof -
    have "of_nat n + FLASH_PAGE_SIZE - 1 = (of_nat (n + 1023) :: u32)"
      by (simp add: FLASH_PAGE_SIZE_def)
    moreover have "unat (of_nat (n + 1023) :: u32) = n + 1023"
      using assms(4) by (simp add: unat_of_nat del: of_nat_add)
    moreover have "(n + 1023) div 1024 = 1" using assms(3,4) by simp
    ultimately show ?thesis by (simp add: unat_div FLASH_PAGE_SIZE_def del: of_nat_add)
  qed
  ultimately show ?thesis using assms(1,2)
    by (simp add: stm32_flash_erase_def stm32_flash_erase_bank_def HAL_FLASHEx_Erase_def
        nor_flash_def)
qed

lemma setDataToFlah_stores:
  assumes "nor_flash hw" "GetPage a = a" "length dat = 4 * k" "0 < k" "k \<le> 256"
    and "unat a + length dat \<le> 0x08020000"
  shows "setDataToFlah hw a dat m = Some (store_at a dat (erased_page a m))"
proof -
  have bit: "\<not> bit a n" if "n < 10" for n
    using assms(2) that by (metis GetPage_mask bit_and_iff bit_not_iff bit_mask_iff
      bit_imp_le_length min_less_iff_conj)
  have "take_bit 2 a = 0" by (rule bit_word_eqI) (use bit in \<open>auto simp: bit_simps\<close>)
  then have align: "a mod 4 = 0" by (simp add: take_bit_eq_mod)
  moreover from align have "even a" by (metis dvd_trans mod_0_imp_dvd dvd_triv_left
      num_double numeral_times_numeral)
  moreover have "unat (of_nat (length dat) :: u32) = length dat"
    using assms(3-5) by (simp add: unat_of_nat del: of_nat_mult)
  then have "\<not> STM32_FLASH_END_ADDRESS < a + of_nat (length dat)"
    using assms(6) by (simp add: STM32_FLASH_END_ADDRESS_def word_less_nat_alt unat_plus_if')
  moreover have "erased_page a m (a + of_nat i) = 0xFF" if "i < length dat" for i
    using that assms(2-5) by (simp add: erased_page_def GetPage_within)
  ultimately show ?thesis
    using assms erase_one_page [OF assms(1,2), of "length dat" m]
      write_words_erased [of hw a dat k "erased_page a m"]
    by (simp add: setDataToFlah_def stm32_flash_write_def)
qed

lemma read_stored:
  assumes "length buf = length dat" "length dat < 2 ^ 32" "unat a + length dat \<le> 0x08020000"
  shows "getDataFromFlash a buf (store_at a dat m) = dat"
proof -
  have len: "unat (of_nat (length dat) :: u32) = length dat" using assms(2) by (simp add: unat_of_nat)
  then have "\<not> STM32_FLASH_END_ADDRESS < a + of_nat (length dat)"
    using assms(3) by (simp add: STM32_FLASH_END_ADDRESS_def word_less_nat_alt unat_plus_if')
  moreover have "map (\<lambda>i. store_at a dat m (a + of_nat i)) [0..<length dat] = dat"
    using assms(2) by (intro nth_equalityI) (simp_all add: store_at_def unat_of_nat)
  ultimately show ?thesis
    using assms(1) by (simp add: getDataFromFlash_def stm32_flash_read_def)
qed

text \<open>
  C22: saving a record of whole words at the start of a flash page that it fits in, and reading it back, gives the record,
  whatever the flash held before, and no byte outside that page changes. The bytes put into
  the reader's buffer do not depend on its old contents. The hypothesis on the controller is
  its documented behaviour: an erase sets the bytes of one page, programming an erased half
  word stores it.
\<close>

theorem flash_record_roundtrip:
  assumes "nor_flash hw" "GetPage a = a" "length dat = 4 * k" "0 < k" "k \<le> 256"
    and "unat a + length dat \<le> 0x08020000" "length buf = length dat"
  shows "\<exists>m'. setDataToFlah hw a dat m = Some m' \<and> getDataFromFlash a buf m' = dat \<and>
           (\<forall>x. GetPage x \<noteq> a \<longrightarrow> m' x = m x)"
proof (intro exI conjI allI impI)
  show "setDataToFlah hw a dat m = Some (store_at a dat (erased_page a m))"
    using assms(1-6) by (rule setDataToFlah_stores)
  show "getDataFromFlash a buf (store_at a dat (erased_page a m)) = dat"
    using assms(3-7) by (intro read_stored) simp_all
  fix x assume x: "GetPage x \<noteq> a"
  have "\<not> unat (x - a) < length dat"
    using x GetPage_within [OF assms(2), of "unat (x - a)"] assms(3,5) by auto
  with x assms(2) show "store_at a dat (erased_page a m) x = m x"
    by (simp add: store_at_def erased_page_def)
qed

theorem flash_record_roundtrip_witness:
  "\<exists>m'. setDataToFlah ref_hw 0x801FC00 [1, 2, 3, 4, 5, 6, 7, 8, 9, 10, 11, 12] (\<lambda>_. 0) = Some m' \<and>
     getDataFromFlash 0x801FC00 (replicate 12 0) m' = [1, 2, 3, 4, 5, 6, 7, 8, 9, 10, 11, 12] \<and>
     (\<forall>x. GetPage x \<noteq> 0x801FC00 \<longrightarrow> m' x = 0)"
  using flash_record_roundtrip [of ref_hw "0x801FC00" "[1, 2, 3, 4, 5, 6, 7, 8, 9, 10, 11, 12]" 3
      "replicate 12 0" "\<lambda>_. 0"] nor_flash_ref
  by (simp add: GetPage_def FLASH_PAGE_SIZE_def)

end
