(* ===== verification/Firmware_State.thy ===== *)
theory Firmware_State
  imports Checksums Fonts Flash
begin

text \<open>
  The state the firmware's tasks share: one record \<open>world\<close> with a field per C global (and
  per \<open>static\<close> of a shared function), the display, the flash, the chip's identity words and
  the sequence of effects on the outside (bytes written to a UART, pin writes, delays).
  All structures are packed (\<^verbatim>\<open>#pragma pack(1)\<close> of \<^verbatim>\<open>applications/inc/typedef.h\<close> is never
  undone), so \<open>module_info\<close> is 12 bytes; \<open>info_bytes\<close> is its image in memory.
\<close>

section \<open>The module record\<close>

record module_info =
  mi_crc :: u16
  mi_addr :: u8
  mi_type :: u8
  mi_Version :: u8
  mi_register_state :: u8
  mi_brand_code :: u16
  mi_ctrl :: u16
  mi_select :: u8
  mi_find_location :: u8

definition info_bytes :: "module_info \<Rightarrow> bytes" where
  "info_bytes m = le16 (mi_crc m) @ [mi_addr m, mi_type m, mi_Version m, mi_register_state m] @
     le16 (mi_brand_code m) @ le16 (mi_ctrl m) @ [mi_select m, mi_find_location m]"

definition info_of_bytes :: "bytes \<Rightarrow> module_info" where
  "info_of_bytes b = \<lparr>mi_crc = mk16 (b ! 1) (b ! 0), mi_addr = b ! 2, mi_type = b ! 3,
     mi_Version = b ! 4, mi_register_state = b ! 5, mi_brand_code = mk16 (b ! 7) (b ! 6),
     mi_ctrl = mk16 (b ! 9) (b ! 8), mi_select = b ! 10, mi_find_location = b ! 11\<rparr>"

definition SIZEOF_INFO :: nat where [simp]: "SIZEOF_INFO = 12"

lemma length_info_bytes [simp]: "length (info_bytes m) = 12"
  by (simp add: info_bytes_def)

lemma info_of_info_bytes [simp]: "info_of_bytes (info_bytes m) = m"
  by (simp add: info_of_bytes_def info_bytes_def le16_def)

section \<open>Constants\<close>

definition DATA_BLOCK_START :: u32 where "DATA_BLOCK_START = 0x801FC00"
definition REGISTER_CODE :: u8 where [simp]: "REGISTER_CODE = 0xFA"
definition INFRARED_TYPE :: u8 where [simp]: "INFRARED_TYPE = 0xB4"
definition UART_MSG_SIZE :: nat where [simp]: "UART_MSG_SIZE = 100"

definition SELECT_MATCH :: u8 where [simp]: "SELECT_MATCH = 0"
definition SELECT_LEARN :: u8 where [simp]: "SELECT_LEARN = 1"

definition EVENT_NULL :: u8 where [simp]: "EVENT_NULL = 0"
definition EVENT_SEND_MATCH :: u8 where [simp]: "EVENT_SEND_MATCH = 1"
definition EVENT_SEND_MATCH_OVER :: u8 where [simp]: "EVENT_SEND_MATCH_OVER = 2"
definition EVENT_SEND_SAVE :: u8 where [simp]: "EVENT_SEND_SAVE = 3"
definition EVENT_SEND_ON_TEST :: u8 where [simp]: "EVENT_SEND_ON_TEST = 4"
definition EVENT_SEND_OFF_TEST :: u8 where [simp]: "EVENT_SEND_OFF_TEST = 5"
definition EVENT_SEND_LEARN_MODE_ON :: u8 where [simp]: "EVENT_SEND_LEARN_MODE_ON = 6"
definition EVENT_SEND_LEARN_MODE_OFF :: u8 where [simp]: "EVENT_SEND_LEARN_MODE_OFF = 7"
definition EVENT_SEND_LEARN_ON_OVER :: u8 where [simp]: "EVENT_SEND_LEARN_ON_OVER = 10"
definition EVENT_SEND_LEARN_OFF_OVER :: u8 where [simp]: "EVENT_SEND_LEARN_OFF_OVER = 11"

definition EVENT_CLEAN :: u8 where [simp]: "EVENT_CLEAN = 0"
definition EVENT_REGISTER :: u8 where [simp]: "EVENT_REGISTER = 1"

definition CB_IN_LEARN_ON :: u8 where [simp]: "CB_IN_LEARN_ON = 1"
definition CB_IN_LEARN_OFF :: u8 where [simp]: "CB_IN_LEARN_OFF = 2"
definition INFRARED_EVENT_MATCH_OK :: u8 where [simp]: "INFRARED_EVENT_MATCH_OK = 1"
definition INFRARED_EVENT_MATCH_FAIL :: u8 where [simp]: "INFRARED_EVENT_MATCH_FAIL = 2"
definition INFRARED_EVENT_SAVE_OK :: u8 where [simp]: "INFRARED_EVENT_SAVE_OK = 3"
definition INFRARED_EVENT_SAVE_FAIL :: u8 where [simp]: "INFRARED_EVENT_SAVE_FAIL = 4"

section \<open>Messages, events, pages\<close>

text \<open>\<open>data\<close> always has \<open>UART_MSG_SIZE\<close> bytes; \<open>size\<close> is what the driver announced.\<close>

record rx_msg =
  rx_size :: nat
  messageFlag :: u8
  rx_data :: bytes

text \<open>A function pointer of an event. \<open>CB_invalid\<close> is a null pointer or the value of an
  uninitialised local; calling it is undefined.\<close>

datatype call_back = CB_invalid | CB_matchCallBack | CB_learnCallBack

record infrared_event_t =
  event :: u8
  ev_call_back :: call_back

record type_page_t =
  cusor_home :: u8
  cusor_max :: u8
  cusor :: u8
  select :: u8

section \<open>Effects\<close>

datatype device = UART1 | UART2

datatype pin = BUTTON_DOWN | BUTTON_UP | BUTTON_ENTER | LED_STATE | UART1_EN | IO_CHECK | OLED_PIN lcd_pin

datatype effect =
    Dev_write device bytes
  | Pin_mode pin bool
  | Pin_write pin u8
  | Mdelay nat

section \<open>The shared state\<close>

text \<open>Two functions of the application use a wrong pointer whatever their input: \<open>initModuleInfo\<close> works two structures
  behind \<open>module_info\<close>, \<open>codeDataRecvResult\<close> copies from the address of its parameter. They do not fail on the
  target; they reach memory that belongs to something else, or to nothing. \<open>stray\<close> is the contents of that memory,
  by offset. The model assumes that no other variable of it lies there.\<close>

datatype stray_object = Behind_module_info | At_recv_parameter

record world =
  module_info :: module_info
  stray :: "stray_object \<Rightarrow> nat \<Rightarrow> u8"
  uart1_msg :: rx_msg
  uart2_msg :: rx_msg
  switchState :: u8
  nowTemp :: u8
  infrared_event :: infrared_event_t
  mater_envent :: u8
  reflash_flag :: u8
  pageSelect :: type_page_t
  pageInfor :: u32
  backlightTime :: int
  matchRes :: u8
  mode_cnt :: u8
  mode_show :: string
  led_state :: u8
  disp :: lcd
  flash_mem :: flash
  chip_id :: "u32 \<times> u32 \<times> u32"
  trace :: "effect list"

definition out :: "effect list \<Rightarrow> world \<Rightarrow> world" where
  "out es w = w\<lparr>trace := trace w @ es\<rparr>"

definition rt_pin_write :: "pin \<Rightarrow> u8 \<Rightarrow> world \<Rightarrow> world" where
  "rt_pin_write p v = out [Pin_write p v]"

definition rt_device_write :: "device \<Rightarrow> bytes \<Rightarrow> world \<Rightarrow> world" where
  "rt_device_write d bs = out [Dev_write d bs]"

text \<open>A task's call of \<open>rt_thread_mdelay\<close>, as an effect; what the call does in the kernel is in
  \<^verbatim>\<open>Rt_Sched.thy\<close>.\<close>

definition task_mdelay :: "nat \<Rightarrow> world \<Rightarrow> world" where
  "task_mdelay n = out [Mdelay n]"

text \<open>\<open>getModuleInfo()->field = v\<close> and drawing on the display.\<close>

definition upd_info :: "(module_info \<Rightarrow> module_info) \<Rightarrow> world \<Rightarrow> world" where
  "upd_info f w = w\<lparr>module_info := f (module_info w)\<rparr>"

definition draw :: "(lcd \<Rightarrow> lcd) \<Rightarrow> world \<Rightarrow> world" where
  "draw f w = w\<lparr>disp := f (disp w)\<rparr>"

section \<open>Accessors\<close>

definition getSwitchState :: "world \<Rightarrow> u8" where [fw_defs]: "getSwitchState w = switchState w"
definition setSwitchState :: "u8 \<Rightarrow> world \<Rightarrow> world" where [fw_defs]: "setSwitchState s w = w\<lparr>switchState := s\<rparr>"
definition getNowTemp :: "world \<Rightarrow> u8" where [fw_defs]: "getNowTemp w = nowTemp w"
definition setNowTemp :: "u8 \<Rightarrow> world \<Rightarrow> world" where [fw_defs]: "setNowTemp t w = w\<lparr>nowTemp := t\<rparr>"
definition getModuleInfo :: "world \<Rightarrow> module_info" where [fw_defs]: "getModuleInfo w = module_info w"
definition getInfraredEvent :: "world \<Rightarrow> infrared_event_t" where [fw_defs]: "getInfraredEvent w = infrared_event w"
definition setinfraredEvent :: "infrared_event_t \<Rightarrow> world \<Rightarrow> world" where [fw_defs]:
  "setinfraredEvent e w = w\<lparr>infrared_event := e\<rparr>"
definition getMasterEvent :: "world \<Rightarrow> u8" where [fw_defs]: "getMasterEvent w = mater_envent w"
definition setMasterEvent :: "u8 \<Rightarrow> world \<Rightarrow> world" where [fw_defs]: "setMasterEvent e w = w\<lparr>mater_envent := e\<rparr>"

lemmas io_defs = out_def rt_pin_write_def rt_device_write_def task_mdelay_def upd_info_def draw_def

section \<open>Reset\<close>

text \<open>The globals at reset, with the contents of the flash, the identity words and the
  memory that the program does not initialise as parameters.\<close>

definition reset_info :: module_info where
  "reset_info = \<lparr>mi_crc = 0, mi_addr = 0, mi_type = 0, mi_Version = 0, mi_register_state = 0,
     mi_brand_code = 0, mi_ctrl = 0, mi_select = 0, mi_find_location = 0\<rparr>"

definition reset_msg :: rx_msg where
  "reset_msg = \<lparr>rx_size = 0, messageFlag = NO, rx_data = replicate UART_MSG_SIZE 0\<rparr>"

definition reset_lcd :: "(nat \<Rightarrow> u8) \<Rightarrow> lcd" where
  "reset_lcd after = \<lparr>Buffer_all = replicate BUF_SIZE 0, Buffer_after = after, CurrentX = 0,
     CurrentY = 0, Inverted = 0, bus = []\<rparr>"

definition reset_world :: "flash \<Rightarrow> u32 \<times> u32 \<times> u32 \<Rightarrow> (stray_object \<Rightarrow> nat \<Rightarrow> u8) \<Rightarrow> (nat \<Rightarrow> u8) \<Rightarrow> world" where
  "reset_world fl ids beyond after = \<lparr>module_info = reset_info, stray = beyond,
     uart1_msg = reset_msg, uart2_msg = reset_msg, switchState = NO, nowTemp = 0,
     infrared_event = \<lparr>event = 0, ev_call_back = CB_invalid\<rparr>, mater_envent = 0,
     reflash_flag = NO, pageSelect = \<lparr>cusor_home = 0, cusor_max = 0, cusor = 0, select = 0\<rparr>,
     pageInfor = 0, backlightTime = 0, matchRes = 0, mode_cnt = 0, mode_show = '' '',
     led_state = 0, disp = reset_lcd after, flash_mem = fl, chip_id = ids, trace = []\<rparr>"

end
