(* ===== verification/Board.thy ===== *)
theory Board
  imports Firmware_State
begin

text \<open>
  The board support of \<^verbatim>\<open>applications/main.c\<close>: pin directions, the status LED (active low)
  and the software timer every task uses.
\<close>

section \<open>Pins and LED\<close>

text \<open>\<open>True\<close> is \<open>PIN_MODE_OUTPUT\<close>.\<close>

definition GpioInit :: "world \<Rightarrow> world" where
  "GpioInit w = out
     [Pin_mode (OLED_PIN CS) True, Pin_mode (OLED_PIN RES) True, Pin_mode (OLED_PIN DC) True,
      Pin_mode (OLED_PIN BL) True, Pin_mode (OLED_PIN SCK) True, Pin_mode (OLED_PIN MOSI) True,
      Pin_mode BUTTON_DOWN False, Pin_mode BUTTON_ENTER False, Pin_mode BUTTON_UP False,
      Pin_mode LED_STATE True, Pin_mode UART1_EN True, Pin_write UART1_EN NO,
      Pin_mode IO_CHECK False] w"

definition LED_ON :: "world \<Rightarrow> world" where "LED_ON = rt_pin_write LED_STATE NO"
definition LED_OFF :: "world \<Rightarrow> world" where "LED_OFF = rt_pin_write LED_STATE YES"

definition LED_TEST :: "world \<Rightarrow> world" where
  "LED_TEST w = rt_pin_write LED_STATE (if led_state w mod 2 \<noteq> 0 then YES else NO)
                  (w\<lparr>led_state := led_state w + 1\<rparr>)"

definition LED_TEST_LONG :: "world \<Rightarrow> world" where
  "LED_TEST_LONG w = fold (\<lambda>_ w. task_mdelay 50 (LED_TEST w)) [0..<40] w"

section \<open>The software timer\<close>

text \<open>The new value of \<open>*time\<close> (also the result) and of \<open>*flag\<close>.\<close>

definition TimerTask :: "u16 \<Rightarrow> u16 \<Rightarrow> u16 \<times> u8" where
  "TimerTask t touchTime = (if t < touchTime then (t + 1, NO) else (0, YES))"

text \<open>The timer after \<open>k\<close> calls, from its initial state.\<close>

fun timer_after :: "u16 \<Rightarrow> nat \<Rightarrow> u16 \<times> u8" where
  "timer_after touchTime 0 = (0, NO)"
| "timer_after touchTime (Suc k) = TimerTask (fst (timer_after touchTime k)) touchTime"

lemma timer_after_count: "unat (fst (timer_after n k)) = k mod Suc (unat n)"
proof (induction k)
  case (Suc k)
  let ?t = "fst (timer_after n k)"
  show ?case
  proof (cases "?t < n")
    case True
    then have "unat (?t + 1) = Suc (unat ?t)"
      using u16_less [of n] by (simp add: unat_plus_if' word_less_nat_alt)
    with True Suc show ?thesis
      by (simp add: TimerTask_def mod_Suc word_less_nat_alt)
  next
    case False
    with Suc have "k mod Suc (unat n) = unat n"
      by (metis mod_less_divisor less_Suc_eq_le le_antisym not_less word_less_nat_alt zero_less_Suc)
    with False show ?thesis by (simp add: TimerTask_def mod_Suc)
  qed
qed simp

text \<open>
  The period of a software timer is one call more than its argument. After \<open>k > 0\<close>
  calls the flag is set exactly if \<open>k\<close> is a multiple of \<open>touchTime + 1\<close>; the "1 s" timer of
  the 50 ms UART task, \<open>touchTime = 1000 / 50\<close>, fires every 21 calls.
\<close>

theorem TimerTask_period:
  "(snd (timer_after touchTime (Suc k)) = YES) = (Suc k mod (unat touchTime + 1) = 0)"
proof -
  have "fst (timer_after touchTime k) < touchTime \<longleftrightarrow> k mod Suc (unat touchTime) < unat touchTime"
    using timer_after_count [of touchTime k] by (simp add: word_less_nat_alt)
  moreover have "k mod Suc (unat touchTime) < Suc (unat touchTime)" by simp
  ultimately show ?thesis by (auto simp: TimerTask_def mod_Suc less_Suc_eq)
qed

end
