(* ===== verification/Infrared.thy ===== *)
theory Infrared
  imports Board
begin

text \<open>
  The protocol with the infrared code library, \<^verbatim>\<open>applications/Uart/infrared.c\<close>: the commands
  the firmware writes to UART2 and what they do to the displayed state. Every command is a
  frame \<open>AA 55 len ... check\<close> whose last byte makes the exclusive or of all bytes zero.
\<close>

section \<open>The temperature of a control word\<close>

text \<open>\<open>getTempByCtrl\<close> of \<^verbatim>\<open>applications/Oled1309/OledPage.c\<close>.\<close>

definition getTempByCtrl :: "u16 \<Rightarrow> u8" where
  "getTempByCtrl dat =
     (let temp = (ucast (drop_bit 8 dat AND 0x0F) :: u8) + 16
      in if temp > 30 \<or> temp < 16 then 25 else temp)"

section \<open>Commands\<close>

definition sendMatchDataToCodeData :: "device \<Rightarrow> world \<Rightarrow> world" where
  "sendMatchDataToCodeData dev =
     rt_device_write dev [0xAA, 0x55, 0x07, 0x82, 0x00, 0x00, 0x00, 0x00, 0x01, 0x7B]"

definition sendSaveCommandToCodeData :: "device \<Rightarrow> world \<Rightarrow> world" where
  "sendSaveCommandToCodeData dev w =
     (let code = mi_brand_code (getModuleInfo w);
          dat = [0xAA, 0x55, 0x09, 0x91, hi8 code, lo8 code, 0x00, 0x82, 0x21, 0x99, 0x07]
      in rt_device_write dev (dat @ [checkResult dat]) w)"

text \<open>The assignments that end the commands which switch the air conditioner.\<close>

definition set_ac :: "u8 \<Rightarrow> u16 \<Rightarrow> world \<Rightarrow> world" where
  "set_ac on ctr w =
     setNowTemp (getTempByCtrl ctr) (upd_info (mi_ctrl_update (\<lambda>_. ctr)) (setSwitchState on w))"

definition sendMatchOnTest :: "device \<Rightarrow> world \<Rightarrow> world" where
  "sendMatchOnTest dev w =
     (let code = mi_brand_code (getModuleInfo w);
          dat = [0xAA, 0x55, 0x09, 0x00, 0x00, hi8 code, lo8 code, 0xE0, 0x00, 0x00, 0x00]
      in set_ac YES 0xE000 (rt_device_write dev (dat @ [checkResult dat]) w))"

definition sendMatchOffTest :: "device \<Rightarrow> world \<Rightarrow> world" where
  "sendMatchOffTest dev w =
     (let code = mi_brand_code (getModuleInfo w);
          dat = [0xAA, 0x55, 0x09, 0x00, 0x00, hi8 code, lo8 code, 0x60, 0x00, 0x00, 0x00]
      in set_ac NO 0x6000 (rt_device_write dev (dat @ [checkResult dat]) w))"

definition sendlearnOn :: "device \<Rightarrow> world \<Rightarrow> world" where
  "sendlearnOn dev w =
     (let dat = [0xAA, 0x55, 0x07, 0x84, 0x00, 0x00, 0x00, 0x00, 0x01]
      in set_ac YES 0xE000 (rt_device_write dev (dat @ [checkResult dat]) w))"

definition sendlearnOff :: "device \<Rightarrow> world \<Rightarrow> world" where
  "sendlearnOff dev w =
     (let dat = [0xAA, 0x55, 0x07, 0x84, 0x00, 0x00, 0x00, 0x01, 0x01]
      in set_ac NO 0x6000 (rt_device_write dev (dat @ [checkResult dat]) w))"

definition sendCtrlCommandToCodeData :: "device \<Rightarrow> world \<Rightarrow> world" where
  "sendCtrlCommandToCodeData dev w =
     (let code = mi_brand_code (getModuleInfo w); ctrl = mi_ctrl (getModuleInfo w);
          on = (ctrl AND 0x8000 > 0)
      in if mi_select (getModuleInfo w) = SELECT_MATCH then
           let dat = [0xAA, 0x55, 0x09, 0x00, 0x00, hi8 code, lo8 code, hi8 ctrl, lo8 ctrl, 0x00, 0x00]
           in setNowTemp (getTempByCtrl ctrl) (setSwitchState (if on then YES else NO)
                (rt_device_write dev (dat @ [checkResult dat]) w))
         else if mi_select (getModuleInfo w) = SELECT_LEARN then
           (if on then sendlearnOn dev w else sendlearnOff dev w)
         else w)"

definition sendInLearnOnMode :: "device \<Rightarrow> world \<Rightarrow> world" where
  "sendInLearnOnMode dev =
     (let dat = [0xAA, 0x55, 0x07, 0x80, 0x00, 0x00, 0x00, 0x00, 0x01]
      in rt_device_write dev (dat @ [checkResult dat]))"

definition sendInLearnOffMode :: "device \<Rightarrow> world \<Rightarrow> world" where
  "sendInLearnOffMode dev =
     (let dat = [0xAA, 0x55, 0x07, 0x80, 0x00, 0x00, 0x00, 0x01, 0x01]
      in rt_device_write dev (dat @ [checkResult dat]))"

definition sendMatchOver :: "device \<Rightarrow> world \<Rightarrow> world" where
  "sendMatchOver dev =
     (let dat = [0xAA, 0x55, 0x07, 0x81, 0x00, 0x00, 0x00, 0x00, 0x01]
      in rt_device_write dev (dat @ [checkResult dat]))"

definition sendLearnOnOver :: "device \<Rightarrow> world \<Rightarrow> world" where
  "sendLearnOnOver dev =
     (let dat = [0xAA, 0x55, 0x07, 0x81, 0x00, 0x00, 0x00, 0x00, 0x01]
      in rt_device_write dev (dat @ [checkResult dat]))"

definition sendLearnOffOver :: "device \<Rightarrow> world \<Rightarrow> world" where
  "sendLearnOffOver dev =
     (let dat = [0xAA, 0x55, 0x07, 0x81, 0x00, 0x00, 0x00, 0x00, 0x01]
      in rt_device_write dev (dat @ [checkResult dat]))"

section \<open>Answers\<close>

text \<open>The 7-byte answer structure, read from the bytes \<open>b\<close> that \<open>rt_memcpy\<close> copied into
  it; \<open>start_code\<close> is a little-endian \<open>u16\<close>. The code copies from \<open>&recv\<close>, the address of
  the pointer, so on the target \<open>b\<close> is the pointer and three stack bytes instead of the
  message. The result is 0 for \<open>CODE_RECV_FAIL\<close> and for anything that is not an answer.\<close>

definition START_CODE :: u16 where "START_CODE = 0xAA55"

definition codeDataRecvResult :: "bytes \<Rightarrow> u8" where
  "codeDataRecvResult b =
     (if START_CODE = mk16 (b ! 1) (b ! 0) \<and> b ! 3 = 0x40 \<and> b ! 5 \<in> {0, 1, 2} then b ! 5 else 0)"

section \<open>Properties\<close>

text \<open>A well-formed frame of the code library.\<close>

definition wf_frame :: "bytes \<Rightarrow> bool" where
  "wf_frame f \<longleftrightarrow> 3 \<le> length f \<and> take 2 f = [0xAA, 0x55] \<and> unat (f ! 2) + 3 = length f \<and>
     checkResult f = 0"

definition emits_frame :: "(device \<Rightarrow> world \<Rightarrow> world) \<Rightarrow> bool" where
  "emits_frame f \<longleftrightarrow> (\<forall>dev w. \<exists>fr. trace (f dev w) = trace w @ [Dev_write dev fr] \<and> wf_frame fr)"

lemma checkResult_sealed [simp]: "checkResult (dat @ [checkResult dat]) = 0"
  by (simp add: checkResult_append)

lemma wf_frameI:
  assumes "dat = 0xAA # 0x55 # len # rest" "unat len = Suc (length rest)"
  shows "wf_frame (dat @ [checkResult dat])"
proof -
  have "length (dat @ [checkResult dat]) = length rest + 4" by (simp add: assms(1))
  moreover have "take 2 (dat @ [checkResult dat]) = [0xAA, 0x55]" "(dat @ [checkResult dat]) ! 2 = len"
    by (simp_all add: assms(1))
  ultimately show ?thesis using assms(2) by (simp add: wf_frame_def)
qed

lemma trace_io [simp]:
  "trace (rt_device_write d bs w) = trace w @ [Dev_write d bs]"
  "trace (set_ac on ctr w) = trace w" "trace (setNowTemp t w) = trace w"
  "trace (setSwitchState s w) = trace w" "trace (upd_info g w) = trace w"
  by (simp_all add: io_defs fw_defs set_ac_def)

lemmas send_defs = sendMatchDataToCodeData_def sendSaveCommandToCodeData_def sendMatchOnTest_def
  sendMatchOffTest_def sendlearnOn_def sendlearnOff_def sendInLearnOnMode_def
  sendInLearnOffMode_def sendMatchOver_def sendLearnOnOver_def sendLearnOffOver_def

lemma ac_frames:
  "emits_frame sendMatchOnTest" "emits_frame sendMatchOffTest" "emits_frame sendlearnOn" "emits_frame sendlearnOff"
  by (unfold emits_frame_def send_defs Let_def trace_io)
    (intro allI exI conjI, rule refl, rule wf_frameI, rule refl, simp)+

lemma ac_switch:
  "switchState (sendMatchOnTest dev w) = YES" "switchState (sendMatchOffTest dev w) = NO"
  "switchState (sendlearnOn dev w) = YES" "switchState (sendlearnOff dev w) = NO"
  by (simp_all add: send_defs Let_def set_ac_def fw_defs io_defs)

text \<open>
  Every command to the code library is one well-formed frame: it begins with \<open>AA 55\<close>,
  its third byte is the number of bytes after it, and the exclusive or of all its bytes is
  zero (also for the match command, whose check byte is a constant in the code).
\<close>

theorem infrared_frames:
  "emits_frame sendMatchDataToCodeData \<and> emits_frame sendSaveCommandToCodeData \<and>
   emits_frame sendMatchOnTest \<and> emits_frame sendMatchOffTest \<and>
   emits_frame sendlearnOn \<and> emits_frame sendlearnOff \<and>
   emits_frame sendInLearnOnMode \<and> emits_frame sendInLearnOffMode \<and>
   emits_frame sendMatchOver \<and> emits_frame sendLearnOnOver \<and> emits_frame sendLearnOffOver"
proof (intro conjI)
  show "emits_frame sendMatchDataToCodeData"
    by (simp add: emits_frame_def send_defs wf_frame_def)
qed (unfold emits_frame_def send_defs Let_def trace_io,
    (intro allI exI conjI, rule refl, rule wf_frameI, rule refl, simp)+)

lemma getTempByCtrl_range: "16 \<le> getTempByCtrl d" "getTempByCtrl d \<le> 30"
  by (auto simp: getTempByCtrl_def Let_def not_less)

lemma bit15: "(c AND 0x8000 > 0) = bit (c :: u16) 15"
  using bit_iff_and_push_bit_not_eq_0 [of c 15] by (simp add: word_gt_0)

text \<open>
  C35: a control word is turned into one well-formed frame and into the state the display
  shows. In match mode the frame carries the brand code and the control word; in either
  mode the switch state becomes bit 15 of the control word, that bit survives (the learn
  commands replace the word by \<open>E000\<close> or \<open>6000\<close>), and the temperature is between 16
  and 30.
\<close>

theorem ctrl_command_effect:
  fixes dev :: device and w :: world
  assumes "mi_select (module_info w) = SELECT_MATCH \<or> mi_select (module_info w) = SELECT_LEARN"
  defines "w' \<equiv> sendCtrlCommandToCodeData dev w" and "m \<equiv> module_info w"
  shows "\<exists>fr. trace w' = trace w @ [Dev_write dev fr] \<and> wf_frame fr \<and>
      (mi_select m = SELECT_MATCH \<longrightarrow> module_info w' = m \<and>
         take 4 (drop 5 fr) = [hi8 (mi_brand_code m), lo8 (mi_brand_code m), hi8 (mi_ctrl m), lo8 (mi_ctrl m)]) \<and>
      switchState w' = (if bit (mi_ctrl m) 15 then YES else NO) \<and>
      bit (mi_ctrl (module_info w')) 15 = bit (mi_ctrl m) 15 \<and>
      16 \<le> nowTemp w' \<and> nowTemp w' \<le> 30"
proof (cases "mi_select m = SELECT_MATCH")
  case True
  let ?dat = "[0xAA, 0x55, 0x09, 0x00, 0x00, hi8 (mi_brand_code m), lo8 (mi_brand_code m),
      hi8 (mi_ctrl m), lo8 (mi_ctrl m), 0x00, 0x00]"
  have "wf_frame (?dat @ [checkResult ?dat])" by (rule wf_frameI, rule refl, simp)
  moreover have "w' = setNowTemp (getTempByCtrl (mi_ctrl m)) (setSwitchState (if bit (mi_ctrl m) 15 then YES else NO)
      (rt_device_write dev (?dat @ [checkResult ?dat]) w))"
    using True by (simp add: w'_def m_def sendCtrlCommandToCodeData_def Let_def bit15 fw_defs)
  ultimately show ?thesis
    by (intro exI [of _ "?dat @ [checkResult ?dat]"])
      (simp add: fw_defs io_defs getTempByCtrl_range m_def del: checkResult_Cons)
next
  case False
  then have learn: "w' = (if bit (mi_ctrl m) 15 then sendlearnOn dev w else sendlearnOff dev w)"
    using assms by (simp add: sendCtrlCommandToCodeData_def Let_def bit15 fw_defs)
  let ?on = "[0xAA, 0x55, 0x07, 0x84, 0x00, 0x00, 0x00, 0x00, 0x01]"
  let ?off = "[0xAA, 0x55, 0x07, 0x84, 0x00, 0x00, 0x00, 0x01, 0x01]"
  have "wf_frame (?on @ [checkResult ?on])" "wf_frame (?off @ [checkResult ?off])"
    by (rule wf_frameI, rule refl, simp)+
  then show ?thesis unfolding learn using False
    by (auto simp: send_defs Let_def set_ac_def fw_defs io_defs getTempByCtrl_range bit_simps simp del: checkResult_Cons)
qed

theorem ctrl_command_effect_witness:
  "\<exists>fr. trace (sendCtrlCommandToCodeData UART2 (reset_world (\<lambda>_. 0) (0, 0, 0) (\<lambda>_ _. 0) (\<lambda>_. 0))) = [Dev_write UART2 fr] \<and>
     wf_frame fr \<and> take 4 (drop 5 fr) = [0, 0, 0, 0]"
  using ctrl_command_effect [of "reset_world (\<lambda>_. 0) (0, 0, 0) (\<lambda>_ _. 0) (\<lambda>_. 0)" UART2]
  by (auto simp: reset_world_def reset_info_def hi8_def lo8_def)

text \<open>An answer that arrives as \<open>AA 55 ...\<close> is not recognised, even if the message itself
  were copied: read little-endian its first two bytes are \<open>55AA\<close>.\<close>

lemma codeDataRecvResult_wire_order: "codeDataRecvResult (0xAA # 0x55 # rest) = 0"
proof -
  have "START_CODE \<noteq> mk16 0x55 0xAA" by (simp add: START_CODE_def mk16_def)
  then show ?thesis by (simp add: codeDataRecvResult_def)
qed

end
