(* ===== verification/Module_Protocol.thy ===== *)
theory Module_Protocol
  imports Infrared
begin

text \<open>
  The protocol with the hub, \<^verbatim>\<open>applications/Uart/module.c\<close>: a Modbus RTU slave with a few
  registers, and the registration message. Replies are built in heap blocks. The allocator
  is the parameter \<open>heap\<close>: \<open>heap k n\<close> is the block (with its initial contents) the \<open>k\<close>-th
  call of \<open>rt_malloc\<close> gives for \<open>n\<close> bytes, \<open>None\<close> if it fails. A store outside a block
  makes the whole operation \<open>None\<close>.
\<close>

section \<open>Sending\<close>

text \<open>\<open>sendMessageToMaster\<close> of \<^verbatim>\<open>applications/Uart/Uart.c\<close>: the RS-485 driver is switched
  to sending around the write. The length is an 8-bit parameter.\<close>

definition sendMessageToMaster :: "bytes \<Rightarrow> u8 \<Rightarrow> world \<Rightarrow> world" where
  "sendMessageToMaster dat len w =
     rt_pin_write UART1_EN NO (rt_device_write UART1 (take (unat len) dat) (rt_pin_write UART1_EN YES w))"

definition sendRegisterToMaster :: "world \<Rightarrow> world" where
  "sendRegisterToMaster w =
     (let uuid = ReadUniqueId (chip_id w);
          dat = [REGISTER_CODE, 0x00, 0x00, 0x00, 0x00, 0x00, 0x06, mi_addr (getModuleInfo w),
                 INFRARED_TYPE, ucast (drop_bit 24 uuid), ucast (drop_bit 16 uuid),
                 ucast (drop_bit 8 uuid), ucast uuid];
          crc = usModbusRTU_CRC dat
      in sendMessageToMaster (dat @ [lo8 crc, hi8 crc]) 15 w)"

section \<open>Registers\<close>

definition READ_MUTI :: u8 where [simp]: "READ_MUTI = 0x03"
definition WRITE_SINGLE :: u8 where [simp]: "WRITE_SINGLE = 0x06"
definition REGISTER_LOCATION :: u16 where [simp]: "REGISTER_LOCATION = 0x0000"
definition REGISTER_VERSION :: u16 where [simp]: "REGISTER_VERSION = 0x0001"
definition REGISTER_UUID1 :: u16 where [simp]: "REGISTER_UUID1 = 0x0003"
definition REGISTER_UUID2 :: u16 where [simp]: "REGISTER_UUID2 = 0x0004"
definition REGISTER_ADDR :: u16 where [simp]: "REGISTER_ADDR = 0x0006"
definition REGISTER_TYPE :: u16 where [simp]: "REGISTER_TYPE = 0x0007"
definition REGISTER_CTRL :: u16 where [simp]: "REGISTER_CTRL = 0x0100"

text \<open>\<open>(x >> 8) | (x << 8)\<close>, converted to 16 bits.\<close>

definition swap16 :: "u16 \<Rightarrow> u16" where
  "swap16 x = drop_bit 8 x OR push_bit 8 x"

text \<open>Reading the location register has an effect: it starts the locating blink.\<close>

definition getRegister :: "u16 \<Rightarrow> world \<Rightarrow> u16 \<times> world" where
  "getRegister reg w =
     (let m = getModuleInfo w; id = ReadUniqueId (chip_id w)
      in if reg = REGISTER_LOCATION then (0, upd_info (mi_find_location_update (\<lambda>_. YES)) w)
         else if reg = REGISTER_VERSION then (ucast (mi_Version m), w)
         else if reg = REGISTER_UUID1 then (ucast (drop_bit 16 id), w)
         else if reg = REGISTER_UUID2 then (ucast id, w)
         else if reg = REGISTER_ADDR then (swap16 (ucast (mi_addr m)), w)
         else if reg = REGISTER_TYPE then (swap16 (ucast (mi_type m)), w)
         else if reg = REGISTER_CTRL then (swap16 (mi_ctrl m), w)
         else (0, w))"

definition setRegister :: "u16 \<Rightarrow> u16 \<Rightarrow> world \<Rightarrow> world" where
  "setRegister reg v w =
     (if reg = REGISTER_ADDR then upd_info (mi_addr_update (\<lambda>_. ucast v)) w
      else if reg = REGISTER_CTRL then upd_info (mi_ctrl_update (\<lambda>_. v)) w
      else w)"

section \<open>Replies\<close>

text \<open>\<open>dat\<close> is the block \<open>data\<close> points to; \<open>rt_memcpy\<close> may not read past its end.\<close>

definition replyDataToMaster :: "(nat \<Rightarrow> bytes option) \<Rightarrow> u8 \<Rightarrow> bytes \<Rightarrow> u16 \<Rightarrow> u8 \<Rightarrow> world \<Rightarrow> world option" where
  "replyDataToMaster malloc rw dat reg len w =
     (let n = unat len in
      case malloc (n + 3 + 2) of None \<Rightarrow> Some w
      | Some buf \<Rightarrow>
          if n > length dat then None
          else if rw = READ_MUTI then do {
            buf \<leftarrow> put_byte 0 (mi_addr (getModuleInfo w)) buf;
            buf \<leftarrow> put_byte 1 rw buf;
            buf \<leftarrow> put_byte 2 len buf;
            buf \<leftarrow> put_bytes 3 (take n dat) buf;
            buf \<leftarrow> put_byte (n + 3) (lo8 (usModbusRTU_CRC (take (n + 3) buf))) buf;
            buf \<leftarrow> put_byte (n + 4) (hi8 (usModbusRTU_CRC (take (n + 3) buf))) buf;
            Some (sendMessageToMaster buf (len + 3 + 2) w)
          }
          else if rw = WRITE_SINGLE then do {
            buf \<leftarrow> put_byte 0 (mi_addr (getModuleInfo w)) buf;
            buf \<leftarrow> put_byte 1 rw buf;
            buf \<leftarrow> put_byte 2 (hi8 reg) buf;
            buf \<leftarrow> put_byte 3 (lo8 reg) buf;
            buf \<leftarrow> put_bytes 4 (take n dat) buf;
            buf \<leftarrow> put_byte (n + 4) (lo8 (usModbusRTU_CRC (take (n + 4) buf))) buf;
            buf \<leftarrow> put_byte (n + 5) (hi8 (usModbusRTU_CRC (take (n + 4) buf))) buf;
            Some (sendMessageToMaster buf (len + 4 + 2) w)
          }
          else Some w)"

text \<open>The loop that fills \<open>replyData\<close>, with \<open>n\<close> registers left; each is stored as the
  little-endian processor stores a \<open>u16\<close>.\<close>

fun read_registers :: "u16 \<Rightarrow> nat \<Rightarrow> nat \<Rightarrow> bytes \<Rightarrow> world \<Rightarrow> (bytes \<times> world) option" where
  "read_registers temp index 0 replyData w = Some (replyData, w)"
| "read_registers temp index (Suc n) replyData w =
     (let (v, w') = getRegister (temp + of_nat index) w in do {
        replyData \<leftarrow> put_bytes (2 * index) (le16 v) replyData;
        read_registers temp (Suc index) n replyData w'
      })"

definition analyzeMasterData :: "(nat \<Rightarrow> nat \<Rightarrow> bytes option) \<Rightarrow> bytes \<Rightarrow> nat \<Rightarrow> world \<Rightarrow> (int \<times> world) option" where
  "analyzeMasterData heap dat sz w =
     (if dat ! 1 = READ_MUTI then
        let num = dat ! 5; temp = mk16 (dat ! 2) (dat ! 3)
        in case heap 0 (unat num * 2) of None \<Rightarrow> Some (RT_EOK, w)
           | Some replyData \<Rightarrow> do {
               (replyData, w) \<leftarrow> read_registers temp 0 (unat num) replyData w;
               w \<leftarrow> replyDataToMaster (heap 1) READ_MUTI replyData 0 (num * 2) w;
               Some (RT_EOK, w)
             }
      else if dat ! 1 = WRITE_SINGLE then
        (if sz = 8 then
           let reg = mk16 (dat ! 2) (dat ! 3);
               w = setRegister reg (mk16 (dat ! 4) (dat ! 5)) w
           in case heap 0 2 of None \<Rightarrow> Some (RT_EOK, w)
              | Some replyData \<Rightarrow> do {
                  let (v, w) = getRegister reg w;
                  replyData \<leftarrow> put_bytes 0 (le16 v) replyData;
                  w \<leftarrow> replyDataToMaster (heap 1) WRITE_SINGLE replyData reg 2 w;
                  Some (RT_EOK, w)
                }
         else Some (RT_ERROR, w))
      else Some (RT_EOK, w))"

section \<open>Well-formed replies\<close>

lemma put_byte_at: "i = length pre \<Longrightarrow> put_byte i v (pre @ y # rest) = Some (pre @ v # rest)"
  by simp

lemma put_bytes_at:
  "i = length pre \<Longrightarrow> length src = length old \<Longrightarrow> put_bytes i src (pre @ old @ rest) = Some (pre @ src @ rest)"
  by simp

text \<open>A Modbus frame: a body and its CRC, low byte first.\<close>

definition seal :: "bytes \<Rightarrow> bytes" where
  "seal body = body @ [lo8 (usModbusRTU_CRC body), hi8 (usModbusRTU_CRC body)]"

lemma length_seal [simp]: "length (seal body) = length body + 2"
  by (simp add: seal_def)

lemma seal_residue: "usModbusRTU_CRC (seal body) = 0"
  using modbus_state_of_frame [of "lo8 (usModbusRTU_CRC body)" "hi8 (usModbusRTU_CRC body)"
      "usModbusRTU_CRC body"]
  by (simp add: seal_def usModbusRTU_CRC_def)

text \<open>The stores that make a reply: three header bytes, the data, the CRC.\<close>

lemma split_block:
  assumes "k + n + 2 \<le> length b"
  obtains h d y0 y1 rest where "b = h @ d @ y0 # y1 # rest" "length h = k" "length d = n"
proof
  let ?r = "drop (k + n) b"
  have r: "?r = ?r ! 0 # ?r ! 1 # drop 2 ?r"
    using assms by (simp add: Cons_nth_drop_Suc [symmetric] numeral_2_eq_2)
  show "b = take k b @ take n (drop k b) @ ?r ! 0 # ?r ! 1 # drop 2 ?r"
    using r by (metis append_take_drop_id drop_drop add.commute)
  show "length (take k b) = k" "length (take n (drop k b)) = n" using assms by simp_all
qed

lemma reply_stores:
  assumes "length d = n" "n \<le> length dat" "k = length hdr" "i = n + k" "j = i + 1"
  shows "do {
      buf \<leftarrow> put_bytes k (take n dat) (hdr @ d @ y0 # y1 # rest);
      buf \<leftarrow> put_byte i (lo8 (usModbusRTU_CRC (take i buf))) buf;
      buf \<leftarrow> put_byte j (hi8 (usModbusRTU_CRC (take i buf))) buf;
      f buf
    } = f (seal (hdr @ take n dat) @ rest)"
proof -
  let ?body = "hdr @ take n dat"
  have "put_bytes k (take n dat) (hdr @ d @ y0 # y1 # rest) = Some (?body @ y0 # y1 # rest)"
    using assms put_bytes_at [of k hdr "take n dat" d] by simp
  moreover have "put_byte i v (?body @ y0 # y1 # rest) = Some (?body @ v # y1 # rest)" for v
    using assms by (intro put_byte_at) simp
  moreover have "put_byte j v (?body @ z # y1 # rest) = Some (?body @ z # v # rest)" for v z
    using assms put_byte_at [of j "?body @ [z]" v y1 rest] by simp
  moreover have "take i (?body @ zs) = ?body" for zs using assms by simp
  ultimately show ?thesis by (simp del: append_assoc add: seal_def) simp
qed

lemma replyDataToMaster_read:
  assumes "malloc (unat len + 3 + 2) = Some buf" "unat len + 5 \<le> length buf" "unat len \<le> length dat"
  shows "\<exists>rest. replyDataToMaster malloc READ_MUTI dat reg len w =
    Some (sendMessageToMaster (seal ([mi_addr (module_info w), 3, len] @ take (unat len) dat) @ rest) (len + 3 + 2) w)"
proof -
  obtain h d y0 y1 rest where buf: "buf = h @ d @ y0 # y1 # rest" "length h = 3" "length d = unat len"
    using assms(2) by (elim split_block [of 3 "unat len" buf, rotated]) simp_all
  then obtain x0 x1 x2 where h: "h = [x0, x1, x2]" by (auto simp: numeral_3_eq_3 length_Suc_conv)
  have "replyDataToMaster malloc READ_MUTI dat reg len w =
      Some (sendMessageToMaster (seal ([mi_addr (module_info w), 3, len] @ take (unat len) dat) @ rest) (len + 3 + 2) w)"
    using assms(1,3) buf(3) reply_stores [of d "unat len" dat 3 "[mi_addr (module_info w), 3, len]"
        "unat len + 3" "unat len + 4" y0 y1 rest "\<lambda>b. Some (sendMessageToMaster b (len + 3 + 2) w)"]
    by (simp add: replyDataToMaster_def Let_def fw_defs buf(1) h del: put_bytes_Some)
  then show ?thesis by blast
qed

lemma replyDataToMaster_write:
  assumes "malloc (unat len + 3 + 2) = Some buf" "unat len + 6 \<le> length buf" "unat len \<le> length dat"
  shows "\<exists>rest. replyDataToMaster malloc WRITE_SINGLE dat reg len w =
    Some (sendMessageToMaster (seal ([mi_addr (module_info w), 6, hi8 reg, lo8 reg] @ take (unat len) dat) @ rest) (len + 4 + 2) w)"
proof -
  obtain h d y0 y1 rest where buf: "buf = h @ d @ y0 # y1 # rest" "length h = 4" "length d = unat len"
    using assms(2) by (elim split_block [of 4 "unat len" buf, rotated]) simp_all
  then obtain x0 x1 x2 x3 where h: "h = [x0, x1, x2, x3]" by (auto simp: numeral_eq_Suc length_Suc_conv)
  have "replyDataToMaster malloc WRITE_SINGLE dat reg len w =
      Some (sendMessageToMaster (seal ([mi_addr (module_info w), 6, hi8 reg, lo8 reg] @ take (unat len) dat) @ rest) (len + 4 + 2) w)"
    using assms(1,3) buf(3) reply_stores [of d "unat len" dat 4 "[mi_addr (module_info w), 6, hi8 reg, lo8 reg]"
        "unat len + 4" "unat len + 5" y0 y1 rest "\<lambda>b. Some (sendMessageToMaster b (len + 4 + 2) w)"]
    by (simp add: replyDataToMaster_def Let_def fw_defs buf(1) h del: put_bytes_Some)
  then show ?thesis by blast
qed

section \<open>Reading registers\<close>

text \<open>Reading changes nothing but the location flag, which no register shows.\<close>

lemma getRegister_frame:
  "fst (getRegister r (snd (getRegister r' w))) = fst (getRegister r w)"
  "mi_addr (module_info (snd (getRegister r w))) = mi_addr (module_info w)"
  "trace (snd (getRegister r w)) = trace w"
  by (simp_all add: getRegister_def Let_def fw_defs io_defs)

lemma read_registers_ok:
  assumes "2 * (index + n) \<le> length blk"
  shows "\<exists>blk' w'. read_registers temp index n blk w = Some (blk', w') \<and> length blk' = length blk \<and>
     take (2 * (index + n)) blk' = take (2 * index) blk @
       concat (map (\<lambda>i. le16 (fst (getRegister (temp + of_nat i) w))) [index..<index + n]) \<and>
     mi_addr (module_info w') = mi_addr (module_info w) \<and> trace w' = trace w"
  using assms
proof (induction n arbitrary: index blk w)
  case (Suc n)
  obtain v w1 where g: "getRegister (temp + of_nat index) w = (v, w1)" by (cases "getRegister (temp + of_nat index) w")
  let ?blk = "take (2 * index) blk @ le16 v @ drop (2 * index + 2) blk"
  have put: "put_bytes (2 * index) (le16 v) blk = Some ?blk" using Suc.prems by simp
  have blk: "take (2 * Suc index) ?blk = take (2 * index) blk @ le16 v" "length ?blk = length blk"
    using Suc.prems by (simp_all add: le16_def)
  have vals: "fst (getRegister r w1) = fst (getRegister r w)" "mi_addr (module_info w1) = mi_addr (module_info w)"
    "trace w1 = trace w" for r
    using getRegister_frame(1) [of r "temp + of_nat index" w]
      getRegister_frame(2,3) [of "temp + of_nat index" w] g by simp_all
  have "[index..<index + Suc n] = index # [Suc index..<Suc index + n]" by (simp add: upt_rec)
  with Suc.IH [of "Suc index" ?blk w1] Suc.prems blk g put vals show ?case
    by (auto simp del: put_bytes_Some upt_Suc)
qed simp

section \<open>Properties\<close>

text \<open>What \<^verbatim>\<open>rt-thread/src/mem.c\<close> guarantees of the blocks it gives: no block for a request of
  zero bytes, otherwise at least the requested size and never less than
  \<open>MIN_SIZE_ALIGNED = 12\<close> bytes.\<close>

definition rt_heap :: "(nat \<Rightarrow> nat \<Rightarrow> bytes option) \<Rightarrow> bool" where
  "rt_heap heap \<longleftrightarrow> (\<forall>k n b. heap k n = Some b \<longrightarrow> 0 < n \<and> max n 12 \<le> length b)"

definition ref_heap :: "nat \<Rightarrow> nat \<Rightarrow> bytes option" where
  "ref_heap k n = (if n = 0 then None else Some (replicate (max n 12) 0))"

lemma rt_heap_ref: "rt_heap ref_heap"
  by (simp add: rt_heap_def ref_heap_def)

lemma rt_heapD: "rt_heap heap \<Longrightarrow> heap k n = Some b \<Longrightarrow> 0 < n \<and> n \<le> length b \<and> 12 \<le> length b"
  by (auto simp: rt_heap_def)

text \<open>The effects of one message on the RS-485 line.\<close>

definition master_msg :: "bytes \<Rightarrow> effect list" where
  "master_msg m = [Pin_write UART1_EN YES, Dev_write UART1 m, Pin_write UART1_EN NO]"

lemma trace_sendMessage [simp]:
  "trace (sendMessageToMaster dat len w) = trace w @ master_msg (take (unat len) dat)"
  by (simp add: sendMessageToMaster_def master_msg_def io_defs)

lemma info_sendMessage [simp]: "module_info (sendMessageToMaster dat len w) = module_info w"
  by (simp add: sendMessageToMaster_def io_defs)

lemma length_regs: "length (concat (map (\<lambda>i. le16 (f i)) [0..<n])) = 2 * n"
  by (induction n) simp_all

text \<open>
  C11: a read request for 1 to 125 registers, for which the heap serves both requests for memory, is answered by one frame: the module's address,
  the function code, the byte count and two bytes per register, in the processor's byte
  order, with a valid Modbus CRC; the driver of the line is enabled exactly around it.
\<close>

theorem read_reply:
  assumes heap: "rt_heap heap" "heap 0 (2 * n) = Some b0" "heap 1 (2 * n + 5) = Some b1"
    and req: "dat ! 1 = 3" "unat (dat ! 5) = n" "n \<le> 125"
  shows "\<exists>w'. analyzeMasterData heap dat sz w = Some (RT_EOK, w') \<and>
    (let body = [mi_addr (module_info w), 3, of_nat (2 * n)] @
           concat (map (\<lambda>i. le16 (fst (getRegister (mk16 (dat ! 2) (dat ! 3) + of_nat i) w))) [0..<n])
     in trace w' = trace w @ master_msg (seal body) \<and> usModbusRTU_CRC (seal body) = 0)"
proof -
  let ?t = "mk16 (dat ! 2) (dat ! 3)"
  let ?regs = "concat (map (\<lambda>i. le16 (fst (getRegister (?t + of_nat i) w))) [0..<n])"
  let ?body = "[mi_addr (module_info w), 3, of_nat (2 * n)] @ ?regs"
  have b: "2 * n \<le> length b0" "2 * n + 5 \<le> length b1" using rt_heapD [OF heap(1,2)] rt_heapD [OF heap(1,3)] by simp_all
  obtain blk w1 where rd: "read_registers ?t 0 n b0 w = Some (blk, w1)" "length blk = length b0"
    "take (2 * n) blk = ?regs" "mi_addr (module_info w1) = mi_addr (module_info w)" "trace w1 = trace w"
    using read_registers_ok [of 0 n b0 ?t w] b by auto
  have "dat ! 5 = of_nat n" by (simp flip: req(2))
  moreover have eq2: "of_nat n * 2 = (of_nat (2 * n) :: u8)" by (simp add: mult.commute)
  moreover have len: "unat (of_nat (2 * n) :: u8) = 2 * n" using req(3) by (simp add: unat_of_nat del: of_nat_mult)
  ultimately have num: "dat ! 5 * 2 = of_nat (2 * n)" "unat (dat ! 5 * 2) = 2 * n" by (simp_all only:)
  obtain rest where reply: "replyDataToMaster (heap 1) READ_MUTI blk 0 (of_nat (2 * n)) w1 =
      Some (sendMessageToMaster (seal ?body @ rest) (of_nat (2 * n) + 3 + 2) w1)"
    using replyDataToMaster_read [of "heap 1" "of_nat (2 * n)" b1 blk 0 w1] heap(3) b rd len
    by (auto simp: add.commute)
  have "unat (of_nat (2 * n) + 3 + 2 :: u8) = 2 * n + 5"
    using req(3) len by (simp add: unat_plus_if' del: of_nat_mult)
  then have "take (unat (of_nat (2 * n) + 3 + 2 :: u8)) (seal ?body @ rest) = seal ?body"
    by (simp add: length_regs)
  then show ?thesis using req(1,2) heap(2) rd reply num
    by (simp add: analyzeMasterData_def Let_def seal_residue mult.commute del: of_nat_mult)
qed

theorem read_reply_witness:
  "\<exists>w'. analyzeMasterData ref_heap [1, 3, 0, 6, 0, 2, 0, 0] 8 (reset_world (\<lambda>_. 0) (0, 0, 0) (\<lambda>_ _. 0) (\<lambda>_. 0)) = Some (RT_EOK, w') \<and>
     trace w' = master_msg (seal [0, 3, 4, 0, 0, 0, 0])"
  using read_reply [of ref_heap 2 "replicate 12 0" "replicate 12 0" "[1, 3, 0, 6, 0, 2, 0, 0]" 8
      "reset_world (\<lambda>_. 0) (0, 0, 0) (\<lambda>_ _. 0) (\<lambda>_. 0)"] rt_heap_ref
  by (auto simp: ref_heap_def reset_world_def reset_info_def getRegister_def mk16_def swap16_def
      le16_def lo8_def hi8_def fw_defs upt_rec Let_def)

lemma le16_swap16: "le16 (swap16 x) = [hi8 x, lo8 x]"
proof -
  have "lo8 (swap16 x) = hi8 x" by (rule bit_word_eqI) (auto simp: lo8_def hi8_def swap16_def bit_simps)
  moreover have "hi8 (swap16 x) = lo8 x"
    by (rule bit_word_eqI) (auto simp: lo8_def hi8_def swap16_def bit_simps dest: bit_imp_le_length)
  ultimately show ?thesis by (simp add: le16_def)
qed

lemma bytes_of_u8: "hi8 (ucast (b :: u8)) = 0" "lo8 (ucast (b :: u8)) = b"
  by (rule bit_word_eqI; auto simp: hi8_def lo8_def bit_simps dest: bit_imp_le_length)+

text \<open>
  How registers appear on the line. The control, address and type registers are sent
  high byte first, as Modbus prescribes; the version and the two identifier registers are
  sent low byte first.
\<close>

theorem register_wire_order:
  "le16 (fst (getRegister REGISTER_CTRL w)) = [hi8 (mi_ctrl (module_info w)), lo8 (mi_ctrl (module_info w))] \<and>
   le16 (fst (getRegister REGISTER_ADDR w)) = [0, mi_addr (module_info w)] \<and>
   le16 (fst (getRegister REGISTER_TYPE w)) = [0, mi_type (module_info w)] \<and>
   le16 (fst (getRegister REGISTER_VERSION w)) = [mi_Version (module_info w), 0] \<and>
   le16 (fst (getRegister REGISTER_UUID1 w)) @ le16 (fst (getRegister REGISTER_UUID2 w)) =
     (let id = le32 (ReadUniqueId (chip_id w)) in [id ! 2, id ! 3, id ! 0, id ! 1])"
proof -
  let ?id = "ReadUniqueId (chip_id w)"
  have "lo8 (ucast (drop_bit 16 ?id)) = ucast (drop_bit 16 ?id)" "hi8 (ucast (drop_bit 16 ?id)) = ucast (drop_bit 24 ?id)"
    "lo8 (ucast ?id) = ucast ?id" "hi8 (ucast ?id) = ucast (drop_bit 8 ?id)"
    by (rule bit_word_eqI; auto simp: hi8_def lo8_def bit_simps)+
  then show ?thesis
    by (simp add: getRegister_def Let_def fw_defs le16_swap16 bytes_of_u8)
      (simp add: le16_def le32_def bytes_of_u8)
qed

lemma getRegister_writable:
  assumes "r = REGISTER_CTRL \<or> r = REGISTER_ADDR"
  shows "snd (getRegister r w) = w"
  using assms by (auto simp: getRegister_def Let_def)

lemma write_ctrl_effect:
  assumes heap: "rt_heap heap" "heap 0 2 = Some b0" "heap 1 7 = Some b1"
    and req: "take 8 dat = seal [mi_addr (module_info w), 6, 0x01, 0x00, h, l]" "8 \<le> length dat"
  shows "analyzeMasterData heap dat 8 w =
    Some (RT_EOK, w\<lparr>module_info := (module_info w)\<lparr>mi_ctrl := mk16 h l\<rparr>,
                    trace := trace w @ master_msg (take 8 dat)\<rparr>)"
proof -
  have nth: "dat ! i = seal [mi_addr (module_info w), 6, 0x01, 0x00, h, l] ! i" if "i < 8" for i
    using that by (metis nth_take req(1))
  have d: "dat ! 1 = 6" "dat ! 2 = 1" "dat ! 3 = 0" "dat ! 4 = h" "dat ! 5 = l"
    by (simp_all add: nth seal_def)
  have reg: "mk16 1 0 = REGISTER_CTRL" by (simp add: mk16_def)
  let ?w = "setRegister REGISTER_CTRL (mk16 h l) w"
  let ?blk = "[h, l] @ drop 2 b0"
  have w: "?w = w\<lparr>module_info := (module_info w)\<lparr>mi_ctrl := mk16 h l\<rparr>\<rparr>"
    by (simp add: setRegister_def upd_info_def)
  have v: "getRegister REGISTER_CTRL ?w = (swap16 (mk16 h l), ?w)"
    by (simp add: getRegister_def setRegister_def Let_def fw_defs io_defs)
  have put: "put_bytes 0 (le16 (swap16 (mk16 h l))) b0 = Some ?blk"
    using rt_heapD [OF heap(1,2)] by (simp add: le16_swap16 numeral_2_eq_2)
  have hl: "hi8 REGISTER_CTRL = 1" "lo8 REGISTER_CTRL = 0" by (simp_all only: reg [symmetric] hi8_mk16 lo8_mk16)
  have addr: "mi_addr (module_info ?w) = mi_addr (module_info w)" by (simp add: setRegister_def upd_info_def)
  have body: "seal ([mi_addr (module_info ?w), 6, hi8 REGISTER_CTRL, lo8 REGISTER_CTRL] @ take (unat (2 :: u8)) ?blk) = take 8 dat"
    unfolding hl addr req(1) by simp
  have "heap 1 (unat (2 :: u8) + 3 + 2) = Some b1" "unat (2 :: u8) + 6 \<le> length b1"
    "unat (2 :: u8) \<le> length ?blk"
    using heap(3) rt_heapD [OF heap(1,3)] by simp_all
  from replyDataToMaster_write [of "heap 1" 2 b1 ?blk REGISTER_CTRL ?w, OF this, unfolded body]
  obtain rest where "replyDataToMaster (heap 1) WRITE_SINGLE ?blk REGISTER_CTRL 2 ?w =
      Some (sendMessageToMaster (take 8 dat @ rest) (2 + 4 + 2) ?w)" by blast
  moreover have "sendMessageToMaster (take 8 dat @ rest) (2 + 4 + 2) ?w =
      w\<lparr>module_info := (module_info w)\<lparr>mi_ctrl := mk16 h l\<rparr>, trace := trace w @ master_msg (take 8 dat)\<rparr>"
    unfolding w using req(2) by (simp add: sendMessageToMaster_def io_defs master_msg_def)
  ultimately show ?thesis
    using d heap(2) v put reg by (simp add: analyzeMasterData_def Let_def)
qed

text \<open>
  C12: writing the control register stores the value and echoes the request, byte for byte,
  CRC included, as Modbus prescribes for function 6; nothing else changes.
\<close>

theorem write_ctrl_echo:
  assumes heap: "rt_heap heap" "heap 0 2 = Some b0" "heap 1 7 = Some b1"
    and req: "take 8 dat = seal [mi_addr (module_info w), 6, 0x01, 0x00, h, l]" "8 \<le> length dat"
  shows "analyzeMasterData heap dat 8 w =
    Some (RT_EOK, w\<lparr>module_info := (module_info w)\<lparr>mi_ctrl := mk16 h l\<rparr>,
                    trace := trace w @ master_msg (take 8 dat)\<rparr>)"
  by (rule write_ctrl_effect [OF assms])

theorem write_ctrl_echo_witness:
  "analyzeMasterData ref_heap (seal [0, 6, 0x01, 0x00, 0xE5, 0x00] @ replicate 92 0) 8
     (reset_world (\<lambda>_. 0) (0, 0, 0) (\<lambda>_ _. 0) (\<lambda>_. 0)) =
   Some (RT_EOK, (reset_world (\<lambda>_. 0) (0, 0, 0) (\<lambda>_ _. 0) (\<lambda>_. 0))
     \<lparr>module_info := reset_info\<lparr>mi_ctrl := mk16 0xE5 0x00\<rparr>,
      trace := master_msg (seal [0, 6, 0x01, 0x00, 0xE5, 0x00])\<rparr>)"
  using write_ctrl_echo [of ref_heap "replicate 12 0" "replicate 12 0"
      "seal [0, 6, 0x01, 0x00, 0xE5, 0x00] @ replicate 92 0" "reset_world (\<lambda>_. 0) (0, 0, 0) (\<lambda>_ _. 0) (\<lambda>_. 0)" "0xE5" "0x00"]
    rt_heap_ref
  by (simp add: ref_heap_def reset_world_def reset_info_def)

text \<open>
  The reply to a write does not fit in the block requested for it. The block is asked
  for \<open>len + 5\<close> bytes but \<open>len + 6\<close> are stored, so with an allocator that gives exactly
  the requested size every write request ends in a store past the block.
\<close>

theorem write_reply_overruns:
  assumes "heap 0 2 = Some b0" "2 \<le> length b0" "heap 1 7 = Some b1" "length b1 = 7"
    and "dat ! 1 = 6"
  shows "analyzeMasterData heap dat 8 w = None"
proof -
  have "replyDataToMaster (heap 1) WRITE_SINGLE blk reg 2 w = None" for blk reg w
    using assms(3,4) by (simp add: replyDataToMaster_def Let_def put_byte_def put_bytes_def)
  then show ?thesis
    using assms(1,2,5) by (simp add: analyzeMasterData_def Let_def split_beta)
qed

theorem write_reply_overruns_witness:
  "analyzeMasterData (\<lambda>k n. Some (replicate n 0)) [1, 6, 1, 0, 0, 0, 0, 0] 8
     (reset_world (\<lambda>_. 0) (0, 0, 0) (\<lambda>_ _. 0) (\<lambda>_. 0)) = None"
  using write_reply_overruns [of "\<lambda>k n. Some (replicate n 0)" "replicate 2 0" "replicate 7 0"
      "[1, 6, 1, 0, 0, 0, 0, 0]" "reset_world (\<lambda>_. 0) (0, 0, 0) (\<lambda>_ _. 0) (\<lambda>_. 0)"]
  by simp

section \<open>Frame\<close>

text \<open>What handling a request may change.\<close>

definition hub_rest :: "world \<Rightarrow> world" where
  "hub_rest w = w\<lparr>module_info := reset_info, trace := []\<rparr>"

definition hub_frame :: "world \<Rightarrow> world \<Rightarrow> bool" where
  "hub_frame w w' \<longleftrightarrow> hub_rest w' = hub_rest w \<and>
     mi_brand_code (module_info w') = mi_brand_code (module_info w) \<and>
     mi_select (module_info w') = mi_select (module_info w)"

lemma hub_frame_refl [simp]: "hub_frame w w"
  by (simp add: hub_frame_def)

lemma hub_frame_trans: "hub_frame w w' \<Longrightarrow> hub_frame w' w'' \<Longrightarrow> hub_frame w w''"
  by (simp add: hub_frame_def)

lemma hub_frame_getRegister: "hub_frame w (snd (getRegister r w))"
  by (simp add: hub_frame_def hub_rest_def getRegister_def Let_def upd_info_def)

lemma hub_frame_setRegister: "hub_frame w (setRegister r v w)"
  by (simp add: hub_frame_def hub_rest_def setRegister_def upd_info_def)

lemma hub_frame_send: "hub_frame w (sendMessageToMaster dat len w)"
  by (simp add: hub_frame_def hub_rest_def sendMessageToMaster_def io_defs)

lemma read_registers_frame:
  "read_registers temp index n blk w = Some (blk', w') \<Longrightarrow> hub_frame w w'"
proof (induction n arbitrary: index blk w)
  case (Suc n)
  obtain v w1 where g: "getRegister (temp + of_nat index) w = (v, w1)" by (cases "getRegister (temp + of_nat index) w")
  then have "hub_frame w w1" using hub_frame_getRegister [of w "temp + of_nat index"] by simp
  moreover from Suc g have "hub_frame w1 w'" by (auto simp: bind_eq_Some_conv)
  ultimately show ?case by (rule hub_frame_trans)
qed simp

text \<open>With the system's heap no request makes the module store outside its blocks, and a
  request changes only the module record and the line.\<close>

lemma analyzeMasterData_ok:
  assumes heap: "rt_heap heap"
  shows "\<exists>r w'. analyzeMasterData heap dat sz w = Some (r, w') \<and> hub_frame w w'"
proof -
  have rrep: "\<exists>w'. replyDataToMaster (heap 1) READ_MUTI blk reg len w = Some w' \<and> hub_frame w w'"
    if "unat len \<le> length blk" for blk reg len w
  proof (cases "heap 1 (unat len + 3 + 2)")
    case (Some b)
    then have "unat len + 5 \<le> length b" using rt_heapD [OF heap Some] by simp
    with replyDataToMaster_read [of "heap 1" len b blk reg w, OF Some this that] show ?thesis
      using hub_frame_send by metis
  qed (simp add: replyDataToMaster_def Let_def)
  have wrep: "\<exists>w'. replyDataToMaster (heap 1) WRITE_SINGLE blk reg 2 w = Some w' \<and> hub_frame w w'"
    if "2 \<le> length blk" for blk reg w
  proof (cases "heap 1 (unat (2 :: u8) + 3 + 2)")
    case (Some b)
    then have "unat (2 :: u8) + 6 \<le> length b" "unat (2 :: u8) \<le> length blk"
      using rt_heapD [OF heap Some] that by simp_all
    from replyDataToMaster_write [of "heap 1" 2 b blk reg w, OF Some this] show ?thesis using hub_frame_send by metis
  qed (simp add: replyDataToMaster_def Let_def)
  consider (r) b0 where "dat ! 1 = READ_MUTI" "heap 0 (unat (dat ! 5) * 2) = Some b0"
    | (w) b0 where "dat ! 1 = WRITE_SINGLE" "sz = 8" "heap 0 2 = Some b0"
    | (r0) "dat ! 1 = READ_MUTI" "heap 0 (unat (dat ! 5) * 2) = None"
    | (w0) "dat ! 1 = WRITE_SINGLE" "sz = 8" "heap 0 2 = None"
    | (w1) "dat ! 1 = WRITE_SINGLE" "sz \<noteq> 8"
    | (other) "dat ! 1 \<noteq> READ_MUTI" "dat ! 1 \<noteq> WRITE_SINGLE"
    by (cases "heap 0 (unat (dat ! 5) * 2)"; cases "heap 0 2"; blast)
  then show ?thesis
  proof cases
    case r
    let ?n = "unat (dat ! 5)"
    have "?n * 2 \<le> length b0" using rt_heapD [OF heap r(2)] by simp
    then obtain blk w1 where rd: "read_registers (mk16 (dat ! 2) (dat ! 3)) 0 ?n b0 w = Some (blk, w1)"
      "length blk = length b0"
      using read_registers_ok [of 0 ?n b0 "mk16 (dat ! 2) (dat ! 3)" w] by (auto simp: mult.commute)
    have "unat (dat ! 5 * 2) \<le> ?n * 2" by (simp add: unat_word_ariths)
    then obtain w2 where "replyDataToMaster (heap 1) READ_MUTI blk 0 (dat ! 5 * 2) w1 = Some w2" "hub_frame w1 w2"
      using rrep [of "dat ! 5 * 2" blk 0 w1] rd \<open>?n * 2 \<le> length b0\<close> by auto
    with rd r read_registers_frame [OF rd(1)] show ?thesis
      by (auto simp: analyzeMasterData_def Let_def intro: hub_frame_trans)
  next
    case w
    let ?reg = "mk16 (dat ! 2) (dat ! 3)"
    let ?w = "setRegister ?reg (mk16 (dat ! 4) (dat ! 5)) w"
    have b0: "2 \<le> length b0" using rt_heapD [OF heap w(3)] by simp
    obtain v w1 where g: "getRegister ?reg ?w = (v, w1)" by (cases "getRegister ?reg ?w")
    then have f: "hub_frame w w1"
      using hub_frame_getRegister [of ?w ?reg] hub_frame_setRegister hub_frame_trans by (metis snd_conv)
    obtain w2 where "replyDataToMaster (heap 1) WRITE_SINGLE (le16 v @ drop 2 b0) ?reg 2 w1 = Some w2" "hub_frame w1 w2"
      using wrep [of "le16 v @ drop 2 b0" ?reg w1] by auto
    moreover have "put_bytes 0 (le16 v) b0 = Some (le16 v @ drop 2 b0)" using b0 by (simp add: numeral_2_eq_2)
    ultimately show ?thesis using w g hub_frame_trans [OF f]
      by (auto simp: analyzeMasterData_def Let_def simp del: put_bytes_Some)
  next
    case w0
    then show ?thesis by (simp add: analyzeMasterData_def Let_def hub_frame_setRegister)
  qed (simp_all add: analyzeMasterData_def)
qed

end
