(* ===== verification/Oled_Pages.thy ===== *)
theory Oled_Pages
  imports Module_Protocol
begin

text \<open>
  The user interface: the pages and event callbacks of \<^verbatim>\<open>applications/Oled1309/OledPage.c\<close>
  and the page navigation, key callbacks and back light of
  \<^verbatim>\<open>applications/Oled1309/Oled1309.c\<close>. \<open>pageInfor\<close> is a stack of page numbers, one byte
  each, the current page in the low byte. An operation that would leave an array
  (\<open>show[4][16]\<close>, \<open>brand_code[5]\<close>) is \<open>None\<close>.
\<close>

section \<open>Helpers\<close>

text \<open>\<open>itoa(n, buf, 10)\<close> of a non-negative number.\<close>

fun itoa :: "nat \<Rightarrow> string" where
  "itoa n = (if n < 10 then [char_of (48 + n)] else itoa (n div 10) @ [char_of (48 + n mod 10)])"

declare itoa.simps [simp del]

definition put_text :: "u16 \<Rightarrow> u16 \<Rightarrow> string \<Rightarrow> FontDef_t \<Rightarrow> u8 \<Rightarrow> world \<Rightarrow> world" where
  "put_text x y str font color = draw (\<lambda>l. ST7567_Puts str font color (ST7567_GotoXY x y l))"

definition clear_screen :: "world \<Rightarrow> world" where
  "clear_screen = draw (ST7567_Fill 0)"

definition update_screen :: "world \<Rightarrow> world" where
  "update_screen = draw ST7567_UpdateScreen"

definition st7567Init :: "world \<Rightarrow> world" where
  "st7567Init w = clear_screen (task_mdelay 100 (draw ST7567_Init w))"

definition LCD_Test :: "world \<Rightarrow> world" where
  "LCD_Test w = update_screen (put_text 5 5 ''ABCDEFGHIJKLMNOPQRSTUVWXYZ'' Font_5x7 1 w)"

definition wakeUpOledBackLight :: "world \<Rightarrow> world" where
  "wakeUpOledBackLight w = draw (emit [Pin BL True]) (w\<lparr>backlightTime := 0\<rparr>)"

definition monitorBackLight :: "world \<Rightarrow> world" where
  "monitorBackLight w =
     (if backlightTime w < 60 then w\<lparr>backlightTime := backlightTime w + 1\<rparr>
      else draw (emit [Pin BL False]) w)"

definition pageReturn :: "world \<Rightarrow> world" where
  "pageReturn w = w\<lparr>pageInfor := drop_bit 8 (pageInfor w)\<rparr>"

definition cleanLastMatchRes :: "world \<Rightarrow> world" where
  "cleanLastMatchRes w = w\<lparr>matchRes := 0\<rparr>"

definition set_select :: "u8 \<Rightarrow> world \<Rightarrow> world" where
  "set_select v w = w\<lparr>pageSelect := (pageSelect w)\<lparr>select := v\<rparr>\<rparr>"

definition reflash :: "u8 \<Rightarrow> world \<Rightarrow> world" where
  "reflash v w = w\<lparr>reflash_flag := v\<rparr>"

section \<open>Pages (OledPage.c)\<close>

definition HomePage :: "type_page_t \<Rightarrow> world \<Rightarrow> world" where
  "HomePage page w =
     (let w = clear_screen w;
          w = put_text 0 0 ('' Setting       '' @ ''V1.0.0'') Font_6x12 0 w;
          w = put_text 8 22 (itoa (unat (getNowTemp w))) Font_16x32 1 w;
          w = draw (ST7567_DrawCircle 42 30 1 1) w;
          w = put_text 44 30 ''C'' Font_8x16 1 w;
          w = put_text 78 22 (if getSwitchState w = YES then ''On'' else ''Off'') Font_8x16 1 w;
          w = draw (ST7567_DrawLine (8 + 3 * 16) 38 127 38 1) w;
          w = draw (ST7567_GotoXY 70 39) w;
          w = (if mi_select (getModuleInfo w) = SELECT_MATCH then draw (ST7567_Puts ''match'' Font_8x16 1) w
               else if mi_select (getModuleInfo w) = SELECT_LEARN then draw (ST7567_Puts ''learn'' Font_8x16 1) w
               else w)
      in update_screen w)"

definition setting_show :: "string list" where
  "setting_show = [''Select Mode'', ''One Key Match'', ''Learn Mode'', ''Test Command'']"

text \<open>One line of the settings menu; \<open>k\<close> is the index into \<open>show\<close>.\<close>

definition setting_line :: "int \<Rightarrow> nat \<Rightarrow> bool \<Rightarrow> world \<Rightarrow> world option" where
  "setting_line k index marked w =
     (if 0 \<le> k \<and> nat k < length setting_show
      then Some (put_text 8 (16 + of_nat (index * 16)) (setting_show ! nat k) Font_8x16 (if marked then 0 else 1) w)
      else None)"

definition SettingPage :: "type_page_t \<Rightarrow> world \<Rightarrow> world option" where
  "SettingPage page w =
     (let c = int (unat (cusor page));
          w = clear_screen w
      in do {
        w \<leftarrow> (if c \<le> 3 then do {
                 w \<leftarrow> setting_line 0 0 (c = 1) w;
                 w \<leftarrow> setting_line 1 1 (c = 2) w;
                 setting_line 2 2 (c = 3) w
               } else do {
                 w \<leftarrow> setting_line (c - 3) 0 (c = 0 + 1 + c - 3) w;
                 w \<leftarrow> setting_line (1 + c - 3) 1 (c = 1 + 1 + c - 3) w;
                 setting_line (2 + c - 3) 2 (c = 2 + 1 + c - 3) w
               });
        Some (update_screen w)
      })"

definition oneKeyMatchPage :: "world \<Rightarrow> world" where
  "oneKeyMatchPage w =
     setinfraredEvent \<lparr>event = EVENT_SEND_MATCH, ev_call_back = CB_matchCallBack\<rparr>
       (update_screen (put_text 8 16 ''Matching Now'' Font_8x16 0 (clear_screen w)))"

text \<open>\<open>show\<close> and \<open>cnt\<close> are static: \<open>mode_show\<close> and \<open>mode_cnt\<close>.\<close>

definition selectModePage_choose :: "world \<Rightarrow> world" where
  "selectModePage_choose w =
     (let c = cusor (pageSelect w);
          w = (if c = 1 then w\<lparr>mode_show := ''match''\<rparr>
               else if c = 2 then w\<lparr>mode_show := ''learn''\<rparr> else w)
      in if select (pageSelect w) = YES then
           set_select NO (pageReturn
             (if c = 1 then upd_info (mi_select_update (\<lambda>_. SELECT_MATCH)) w
              else if c = 2 then upd_info (mi_select_update (\<lambda>_. SELECT_LEARN)) w else w))
         else w)"

definition selectModePage_show :: "world \<Rightarrow> world" where
  "selectModePage_show w =
     (let w = put_text 8 16 ''select'' Font_8x16 1 w;
          w = put_text 64 16 (mode_show w) Font_8x16 (if mode_cnt w mod 2 \<noteq> 0 then 0 else 1) w
      in update_screen (w\<lparr>mode_cnt := mode_cnt w + 1\<rparr>))"

definition selectModePage :: "world \<Rightarrow> world" where
  "selectModePage w = selectModePage_show (selectModePage_choose (clear_screen w))"

text \<open>An event whose callback is left uninitialised.\<close>

definition bare_event :: "u8 \<Rightarrow> infrared_event_t" where
  "bare_event e = \<lparr>event = e, ev_call_back = CB_invalid\<rparr>"

definition testPage :: "world \<Rightarrow> world" where
  "testPage w =
     (let c = cusor (pageSelect w);
          w = clear_screen w;
          w = put_text 8 16 ''Send On Command'' Font_8x16 (if c = 1 then 0 else 1) w;
          w = put_text 8 32 ''Send Off Command'' Font_8x16 (if c = 2 then 0 else 1) w;
          w = update_screen w
      in if select (pageSelect w) = YES then
           set_select NO
             (if c = 1 then setinfraredEvent (bare_event EVENT_SEND_ON_TEST) w
              else if c = 2 then setinfraredEvent (bare_event EVENT_SEND_OFF_TEST) w else w)
         else w)"

definition learnPage :: "type_page_t \<Rightarrow> world \<Rightarrow> world" where
  "learnPage page w =
     (let w = clear_screen w;
          w = put_text 8 16 ''learn on'' Font_8x16 (if cusor page = 1 then 0 else 1) w;
          w = put_text 8 32 ''learn off'' Font_8x16 (if cusor page = 2 then 0 else 1) w
      in update_screen w)"

definition learnOnPage :: "world \<Rightarrow> world" where
  "learnOnPage w =
     setinfraredEvent \<lparr>event = EVENT_SEND_LEARN_MODE_ON, ev_call_back = CB_learnCallBack\<rparr>
       (update_screen (put_text 8 32 ''command'' Font_8x16 1
         (put_text 8 16 ''start send on'' Font_8x16 1 (clear_screen w))))"

definition learnOffPage :: "world \<Rightarrow> world" where
  "learnOffPage w =
     setinfraredEvent \<lparr>event = EVENT_SEND_LEARN_MODE_OFF, ev_call_back = CB_learnCallBack\<rparr>
       (update_screen (put_text 8 32 ''command'' Font_8x16 1
         (put_text 8 16 ''start send off'' Font_8x16 1 (clear_screen w))))"

section \<open>Event callbacks (OledPage.c)\<close>

definition banner :: "string \<Rightarrow> world \<Rightarrow> world" where
  "banner str w = update_screen (put_text 8 16 str Font_8x16 0 (clear_screen w))"

text \<open>\<open>brand_code\<close> has room for four digits and the terminating NUL.\<close>

definition matchCallBack :: "u8 \<Rightarrow> world \<Rightarrow> world option" where
  "matchCallBack result w =
     (if result = INFRARED_EVENT_MATCH_OK then Some (banner ''Match Sucess'' w)
      else if result = INFRARED_EVENT_MATCH_FAIL then Some (banner ''Match Fail'' w)
      else if result = INFRARED_EVENT_SAVE_OK then
        let w = clear_screen w;
            brand_code = itoa (unat (mi_brand_code (getModuleInfo w)))
        in if length brand_code + 1 > 5 then None
           else Some (pageReturn (task_mdelay 1000 (update_screen
                  (put_text (12 * 8) 32 brand_code Font_8x16 0
                    (put_text 8 32 ''key code = '' Font_8x16 0
                      (put_text 8 16 ''Save Sucess'' Font_8x16 0 w))))))
      else if result = INFRARED_EVENT_SAVE_FAIL then Some (banner ''Save Fail'' w)
      else Some w)"

definition nullCallBack :: "u8 \<Rightarrow> world \<Rightarrow> world" where
  "nullCallBack result w = w"

definition sendOnTestCallBack :: "u8 \<Rightarrow> world \<Rightarrow> world" where
  "sendOnTestCallBack result w = (if result = YES then banner ''Send Off Command'' w else w)"

definition learnCallBack :: "u8 \<Rightarrow> world \<Rightarrow> world" where
  "learnCallBack result w =
     (if result = CB_IN_LEARN_ON then
        update_screen (put_text 8 32 ''key, please'' Font_8x16 1
          (put_text 8 16 ''Press the on'' Font_8x16 1 (clear_screen w)))
      else if result = CB_IN_LEARN_OFF then
        update_screen (put_text 8 32 ''key, please'' Font_8x16 1
          (put_text 8 16 ''Press the off'' Font_8x16 1 (clear_screen w)))
      else w)"

text \<open>\<open>infrared_event.call_back(result)\<close>.\<close>

fun run_call_back :: "call_back \<Rightarrow> u8 \<Rightarrow> world \<Rightarrow> world option" where
  "run_call_back CB_invalid result w = None"
| "run_call_back CB_matchCallBack result w = matchCallBack result w"
| "run_call_back CB_learnCallBack result w = Some (learnCallBack result w)"

end
