(* ===== verification/Oled_Task.thy ===== *)
theory Oled_Task
  imports Oled_Pages
begin

text \<open>
  Navigation and the display task of \<^verbatim>\<open>applications/Oled1309/Oled1309.c\<close>: the three key
  callbacks, cursor set-up and event handling of each page, and the task's start and loop
  body. The task's statics are the record \<open>oled_task\<close>.
\<close>

section \<open>Constants\<close>

definition HOME_PAGE :: u8 where [simp]: "HOME_PAGE = 0x00"
definition SETTING_PAGE :: u8 where [simp]: "SETTING_PAGE = 0x01"
definition ONEKEY_MATCH_PAGE :: u8 where [simp]: "ONEKEY_MATCH_PAGE = 0x02"
definition SELECT_MODE_PAGE :: u8 where [simp]: "SELECT_MODE_PAGE = 0x03"
definition LEARN_MODE_PAGE :: u8 where [simp]: "LEARN_MODE_PAGE = 0x04"
definition LEARN_ON_PAGE :: u8 where [simp]: "LEARN_ON_PAGE = 0x05"
definition LEARN_OFF_PAGE :: u8 where [simp]: "LEARN_OFF_PAGE = 0x06"
definition TEST_PAGE :: u8 where [simp]: "TEST_PAGE = 0x07"

definition NULL_PRESS :: u8 where [simp]: "NULL_PRESS = 0"
definition SHORT_PRESS :: u8 where [simp]: "SHORT_PRESS = 1"
definition LONG_PRESS :: u8 where [simp]: "LONG_PRESS = 2"

section \<open>Key callbacks\<close>

definition set_cusor :: "u8 \<Rightarrow> world \<Rightarrow> world" where
  "set_cusor c w = w\<lparr>pageSelect := (pageSelect w)\<lparr>cusor := c\<rparr>\<rparr>"

definition EnterBtnCallBack :: "u8 \<Rightarrow> world \<Rightarrow> world" where
  "EnterBtnCallBack ty w =
     (if ty = SHORT_PRESS then
        reflash YES (set_select YES (clear_screen (wakeUpOledBackLight w)))
      else if ty = LONG_PRESS then
        let info = (ucast (pageInfor w) :: u8);
            w = (if info = ONEKEY_MATCH_PAGE then
                   setinfraredEvent (bare_event EVENT_SEND_MATCH_OVER) (cleanLastMatchRes w)
                 else if info = LEARN_ON_PAGE then setinfraredEvent (bare_event EVENT_SEND_LEARN_ON_OVER) w
                 else if info = LEARN_OFF_PAGE then setinfraredEvent (bare_event EVENT_SEND_LEARN_OFF_OVER) w
                 else w)
        in w\<lparr>pageInfor := drop_bit 8 (pageInfor w)\<rparr>
      else w)"

definition UpBtnCallBack :: "u8 \<Rightarrow> world \<Rightarrow> world" where
  "UpBtnCallBack ty w =
     (if ty = SHORT_PRESS then
        let w = clear_screen (wakeUpOledBackLight w); p = pageSelect w
        in reflash YES (set_cusor (if cusor p > cusor_home p then cusor p - 1 else cusor_max p) w)
      else w)"

definition DowmBtnCallBack :: "u8 \<Rightarrow> world \<Rightarrow> world" where
  "DowmBtnCallBack ty w =
     (if ty = SHORT_PRESS then
        let w = clear_screen (wakeUpOledBackLight w); p = pageSelect w
        in reflash YES
             (if cusor_max p > 0
              then set_cusor (if cusor p < cusor_max p then cusor p + 1 else cusor_home p) w
              else w)
      else w)"

section \<open>Pages\<close>

definition pageSelectSet :: "u8 \<Rightarrow> u8 \<Rightarrow> world \<Rightarrow> world" where
  "pageSelectSet home mx w =
     w\<lparr>pageSelect := (pageSelect w)\<lparr>cusor_home := home, cusor := home, cusor_max := mx\<rparr>\<rparr>"

definition pageSetting :: "u8 \<Rightarrow> world \<Rightarrow> world" where
  "pageSetting page w =
     (if page = HOME_PAGE then pageSelectSet 1 1 w
      else if page = SETTING_PAGE then pageSelectSet 1 4 w
      else if page = LEARN_MODE_PAGE then pageSelectSet 1 2 w
      else if page = SELECT_MODE_PAGE then
        set_cusor (if mi_select (getModuleInfo w) = SELECT_MATCH then 1 else 2) (pageSelectSet 1 2 w)
      else if page = TEST_PAGE then pageSelectSet 1 2 w
      else w)"

text \<open>\<open>pageInfor <<= 8; pageInfor |= page\<close>.\<close>

definition push_page :: "u8 \<Rightarrow> world \<Rightarrow> world" where
  "push_page page w = w\<lparr>pageInfor := push_bit 8 (pageInfor w) OR ucast page\<rparr>"

text \<open>A menu page: on a pressed enter key go to the page its cursor names, if any.\<close>

definition menu_enter :: "(u8 \<Rightarrow> u8 option) \<Rightarrow> world \<Rightarrow> world" where
  "menu_enter target w =
     (if select (pageSelect w) = YES then
        set_select NO (case target (cusor (pageSelect w)) of None \<Rightarrow> w | Some page \<Rightarrow> push_page page w)
      else w)"

definition home_target :: "u8 \<Rightarrow> u8 option" where
  "home_target c = (if c = 1 then Some SETTING_PAGE else None)"

definition setting_target :: "u8 \<Rightarrow> u8 option" where
  "setting_target c =
     (if c = 1 then Some SELECT_MODE_PAGE else if c = 2 then Some ONEKEY_MATCH_PAGE
      else if c = 3 then Some LEARN_MODE_PAGE else if c = 4 then Some TEST_PAGE else None)"

definition learn_target :: "u8 \<Rightarrow> u8 option" where
  "learn_target c = (if c = 1 then Some LEARN_ON_PAGE else if c = 2 then Some LEARN_OFF_PAGE else None)"

definition pageProgram :: "u8 \<Rightarrow> world \<Rightarrow> world option" where
  "pageProgram page w = do {
     w \<leftarrow> (if page = HOME_PAGE then Some (menu_enter home_target (HomePage (pageSelect w) w))
          else if page = SETTING_PAGE then
            map_option (menu_enter setting_target) (SettingPage (pageSelect w) w)
          else if page = ONEKEY_MATCH_PAGE then Some (oneKeyMatchPage w)
          else if page = SELECT_MODE_PAGE then Some (selectModePage w)
          else if page = LEARN_MODE_PAGE then
            Some (menu_enter learn_target (learnPage (pageSelect w) w))
          else if page = LEARN_ON_PAGE then Some (learnOnPage w)
          else if page = LEARN_OFF_PAGE then Some (learnOffPage w)
          else if page = TEST_PAGE then Some (testPage w)
          else Some w);
     Some (reflash NO w)
   }"

section \<open>The task\<close>

record oled_task =
  ot_Timer1sTouch :: u8
  ot_time1S :: u16
  ot_Timer3sTouch :: u8
  ot_time3S :: u16
  ot_nowPagePre :: u8
  ot_ctrl :: u16

definition oled_statics :: oled_task where
  "oled_statics = \<lparr>ot_Timer1sTouch = NO, ot_time1S = 0, ot_Timer3sTouch = NO, ot_time3S = 0,
     ot_nowPagePre = 0xFF, ot_ctrl = 0\<rparr>"

definition OledTaskEntry_start :: "world \<Rightarrow> world" where
  "OledTaskEntry_start w = wakeUpOledBackLight (push_page HOME_PAGE (st7567Init w))"

text \<open>The part of the loop body that shows the current page.\<close>

definition oled_page_step :: "oled_task \<times> world \<Rightarrow> (oled_task \<times> world) option" where
  "oled_page_step = (\<lambda>(t, w).
     let nowPage = (ucast (pageInfor w AND 0xFF) :: u8)
     in if ot_nowPagePre t \<noteq> nowPage then do {
          w \<leftarrow> pageProgram nowPage (pageSetting nowPage w);
          Some (t\<lparr>ot_nowPagePre := nowPage\<rparr>, w)
        }
        else if reflash_flag w = YES then map_option (Pair t) (pageProgram nowPage w)
        else Some (t, w))"

definition OledTaskEntry_loop :: "oled_task \<times> world \<Rightarrow> (oled_task \<times> world) option" where
  "OledTaskEntry_loop = (\<lambda>(t, w).
     let (t1, f1) = TimerTask (ot_time1S t) 20;
         (t3, f3) = TimerTask (ot_time3S t) 60;
         t = t\<lparr>ot_time1S := t1, ot_Timer1sTouch := f1, ot_time3S := t3, ot_Timer3sTouch := f3\<rparr>;
         nowPage = (ucast (pageInfor w AND 0xFF) :: u8)
     in do {
       (t, w) \<leftarrow> oled_page_step (t, w);
       let (t, w) = (if ot_ctrl t \<noteq> mi_ctrl (getModuleInfo w)
                     then (t\<lparr>ot_ctrl := mi_ctrl (getModuleInfo w)\<rparr>, reflash YES w) else (t, w));
       let w = (if ot_Timer1sTouch t = YES
                then (let w = monitorBackLight w
                      in if nowPage = SELECT_MODE_PAGE \<or> nowPage = HOME_PAGE then reflash YES w else w)
                else w);
       Some (t, task_mdelay 50 w)
     })"

end
