(* ===== verification/Navigation.thy ===== *)
theory Navigation
  imports Oled_Task
begin

text \<open>
  The user interface against an abstract specification: a tree of pages with a parent and
  children. Every operation of the display code keeps the page stack on that tree, the
  cursor inside the current menu, the frame buffer well-formed, and only publishes events
  whose callback may be called.
\<close>

section \<open>The page tree\<close>

datatype ui_page = Home | Setting | Match | Mode | Learn | Test | LearnOn | LearnOff

fun page_code :: "ui_page \<Rightarrow> u32" where
  "page_code Home = 0"
| "page_code Setting = 0x01"
| "page_code Match = 0x0102"
| "page_code Mode = 0x0103"
| "page_code Learn = 0x0104"
| "page_code Test = 0x0107"
| "page_code LearnOn = 0x010405"
| "page_code LearnOff = 0x010406"

fun parent :: "ui_page \<Rightarrow> ui_page" where
  "parent Home = Home"
| "parent Setting = Home"
| "parent LearnOn = Learn"
| "parent LearnOff = Learn"
| "parent _ = Setting"

fun children :: "ui_page \<Rightarrow> ui_page set" where
  "children Home = {Setting}"
| "children Setting = {Mode, Match, Learn, Test}"
| "children Learn = {LearnOn, LearnOff}"
| "children _ = {}"

text \<open>What one step of the firmware may do to the current page.\<close>

inductive ui_step :: "ui_page \<Rightarrow> ui_page \<Rightarrow> bool" where
  ui_stay: "ui_step p p"
| ui_back: "ui_step p (parent p)"
| ui_enter: "q \<in> children p \<Longrightarrow> ui_step p q"

lemma page_code_inj: "page_code p = page_code q \<longleftrightarrow> p = q"
  by (cases p; cases q; simp)

lemma page_code_parent: "drop_bit 8 (page_code p) = page_code (parent p)"
  by (cases p) simp_all

definition shows_page :: "world \<Rightarrow> ui_page \<Rightarrow> bool" where
  "shows_page w p \<longleftrightarrow> pageInfor w = page_code p"

definition page_ok :: "world \<Rightarrow> bool" where
  "page_ok w \<longleftrightarrow> (\<exists>p. shows_page w p)"

section \<open>The frame buffer\<close>

named_theorems lcd_ok

lemma fold_lcd_wf: "(\<And>x l. lcd_wf l \<Longrightarrow> lcd_wf (f x l)) \<Longrightarrow> lcd_wf l \<Longrightarrow> lcd_wf (fold f xs l)"
  by (induction xs arbitrary: l) auto

lemma lcd_wf_emit [lcd_ok]: "lcd_wf l \<Longrightarrow> lcd_wf (emit es l)"
  by (simp add: lcd_wf_def emit_def)

lemma lcd_wf_Fill [lcd_ok]: "lcd_wf (ST7567_Fill c l)"
  by (simp add: lcd_wf_def ST7567_Fill_def)

lemma lcd_wf_GotoXY [lcd_ok]: "lcd_wf l \<Longrightarrow> lcd_wf (ST7567_GotoXY x y l)"
  by (simp add: lcd_wf_def ST7567_GotoXY_def)

lemma lcd_wf_WriteCommand [lcd_ok]: "lcd_wf l \<Longrightarrow> lcd_wf (ST7567_WriteCommand c l)"
  by (simp add: ST7567_WriteCommand_def ST7567_TransmitByte_def lcd_wf_emit)

lemma lcd_wf_UpdateScreen [lcd_ok]: "lcd_wf l \<Longrightarrow> lcd_wf (ST7567_UpdateScreen l)"
  unfolding ST7567_UpdateScreen_def ST7567_UpdatePage_def ST7567_WriteData_def ST7567_TransmitByte_def
  by (intro fold_lcd_wf lcd_ok)

lemma lcd_wf_Init [lcd_ok]: "lcd_wf l \<Longrightarrow> lcd_wf (ST7567_Init l)"
  unfolding ST7567_Init_def ST7567_BackLight_Off_def ST7567_Reset_def by (intro fold_lcd_wf lcd_ok)

lemma lcd_wf_Puts [lcd_ok]: "lcd_wf l \<Longrightarrow> lcd_wf (ST7567_Puts str font c l)"
proof -
  have glyph: "lcd_wf l \<Longrightarrow> lcd_wf (draw_glyph f ch font c l)" for f ch l
    unfolding draw_glyph_def by (intro fold_lcd_wf) (simp_all add: glyph_dot_def DrawPixel_wf)
  have "lcd_wf l \<Longrightarrow> lcd_wf (ST7567_Putc ch font c l)" for ch l
    using glyph [of l ucast ch] by (simp add: ST7567_Putc_def Let_def lcd_wf_def)
  then show "lcd_wf l \<Longrightarrow> lcd_wf (ST7567_Puts str font c l)"
    unfolding ST7567_Puts_def by (intro fold_lcd_wf)
qed

lemma lcd_wf_line_loop: "lcd_wf l \<Longrightarrow> lcd_wf (snd (line_loop n dx dy sx sy x1 y1 c err x0 y0 l))"
  by (induction n arbitrary: err x0 y0 l) (simp_all add: Let_def DrawPixel_wf split_beta)

lemma lcd_wf_DrawLine [lcd_ok]: "lcd_wf l \<Longrightarrow> lcd_wf (ST7567_DrawLine x0 y0 x1 y1 c l)"
  by (auto simp: ST7567_DrawLine_def DrawLine_run_def draw_clamped_def Let_def lcd_wf_line_loop
      intro!: fold_lcd_wf DrawPixel_wf)

lemma lcd_wf_circle_loop:
  "(\<And>x y l. lcd_wf l \<Longrightarrow> lcd_wf (d x y l)) \<Longrightarrow> lcd_wf l \<Longrightarrow> lcd_wf (circle_loop d f ddx ddy x y l)"
  by (induction d f ddx ddy x y l rule: circle_loop.induct) (subst circle_loop.simps, simp add: Let_def)

lemma lcd_wf_DrawCircle [lcd_ok]: "lcd_wf l \<Longrightarrow> lcd_wf (ST7567_DrawCircle x0 y0 r c l)"
  unfolding ST7567_DrawCircle_def circle_poles_def
  by (intro lcd_wf_circle_loop) (auto simp: circle_octants_def DrawPixel_wf intro!: fold_lcd_wf)

section \<open>The invariant of the user interface\<close>

definition cursor_ok :: "type_page_t \<Rightarrow> bool" where
  "cursor_ok p \<longleftrightarrow> cusor_home p \<le> cusor p \<and> cusor p \<le> cusor_max p \<and> cusor_max p \<le> 4"

text \<open>The callback an event needs is there, and a brand code to be shown has four digits.\<close>

definition event_ok :: "infrared_event_t \<Rightarrow> u16 \<Rightarrow> bool" where
  "event_ok e code \<longleftrightarrow>
     (event e = EVENT_SEND_MATCH \<or> event e = EVENT_SEND_SAVE \<longrightarrow> ev_call_back e = CB_matchCallBack) \<and>
     (event e = EVENT_SEND_LEARN_MODE_ON \<or> event e = EVENT_SEND_LEARN_MODE_OFF \<longrightarrow> ev_call_back e = CB_learnCallBack) \<and>
     (event e = EVENT_SEND_SAVE \<longrightarrow> unat code < 10000)"

definition mode_ok :: "module_info \<Rightarrow> bool" where
  "mode_ok m \<longleftrightarrow> mi_select m = SELECT_MATCH \<or> mi_select m = SELECT_LEARN"

definition ui_inv :: "rx_msg \<times> rx_msg \<times> u16 \<Rightarrow> ui_page \<Rightarrow> world \<Rightarrow> bool" where
  "ui_inv k p w \<longleftrightarrow> k = (uart1_msg w, uart2_msg w, mi_brand_code (module_info w)) \<and> shows_page w p \<and> cursor_ok (pageSelect w) \<and> lcd_wf (disp w) \<and>
     event_ok (infrared_event w) (mi_brand_code (module_info w)) \<and> mode_ok (module_info w)"

text \<open>The parameter \<open>k\<close> records what the user interface never changes: the received
  messages and the brand code.\<close>

named_theorems ui_ok

lemma ui_draw [ui_ok]: "ui_inv k p w \<Longrightarrow> (lcd_wf (disp w) \<Longrightarrow> lcd_wf (f (disp w))) \<Longrightarrow> ui_inv k p (draw f w)"
  by (simp add: ui_inv_def draw_def shows_page_def)

lemma ui_put_text [ui_ok]: "ui_inv k p w \<Longrightarrow> ui_inv k p (put_text x y str font c w)"
  unfolding put_text_def by (intro ui_ok lcd_ok)

lemma ui_clear [ui_ok]: "ui_inv k p w \<Longrightarrow> ui_inv k p (clear_screen w)"
  unfolding clear_screen_def by (intro ui_ok lcd_ok)

lemma ui_update [ui_ok]: "ui_inv k p w \<Longrightarrow> ui_inv k p (update_screen w)"
  unfolding update_screen_def by (intro ui_ok lcd_ok)

lemma ui_out [ui_ok]: "ui_inv k p w \<Longrightarrow> ui_inv k p (out es w)"
  by (simp add: ui_inv_def out_def shows_page_def)

lemma ui_delay [ui_ok]: "ui_inv k p w \<Longrightarrow> ui_inv k p (task_mdelay n w)"
  unfolding task_mdelay_def by (rule ui_out)

lemma ui_wakeUp [ui_ok]: "ui_inv k p w \<Longrightarrow> ui_inv k p (wakeUpOledBackLight w)"
  by (simp add: ui_inv_def wakeUpOledBackLight_def draw_def shows_page_def lcd_ok)

lemma ui_monitor [ui_ok]: "ui_inv k p w \<Longrightarrow> ui_inv k p (monitorBackLight w)"
  by (simp add: ui_inv_def monitorBackLight_def draw_def shows_page_def lcd_ok)

lemma ui_return [ui_ok]: "ui_inv k p w \<Longrightarrow> ui_inv k (parent p) (pageReturn w)"
  by (simp add: ui_inv_def pageReturn_def shows_page_def page_code_parent)

lemma ui_select [ui_ok]: "ui_inv k p w \<Longrightarrow> ui_inv k p (set_select v w)"
  by (simp add: ui_inv_def set_select_def shows_page_def cursor_ok_def)

lemma ui_reflash [ui_ok]: "ui_inv k p w \<Longrightarrow> ui_inv k p (reflash v w)"
  by (simp add: ui_inv_def reflash_def shows_page_def)

lemma ui_clean [ui_ok]: "ui_inv k p w \<Longrightarrow> ui_inv k p (cleanLastMatchRes w)"
  by (simp add: ui_inv_def cleanLastMatchRes_def shows_page_def)

lemma ui_set_event [ui_ok]:
  "ui_inv k p w \<Longrightarrow> event_ok e (mi_brand_code (module_info w)) \<Longrightarrow> ui_inv k p (setinfraredEvent e w)"
  by (simp add: ui_inv_def setinfraredEvent_def shows_page_def)

lemma ui_mode [ui_ok]: "ui_inv k p w \<Longrightarrow> ui_inv k p (w\<lparr>mode_show := s\<rparr>)" "ui_inv k p w \<Longrightarrow> ui_inv k p (w\<lparr>mode_cnt := n\<rparr>)"
  by (simp_all add: ui_inv_def shows_page_def)

lemma ui_if: "(b \<Longrightarrow> ui_inv k p w) \<Longrightarrow> (\<not> b \<Longrightarrow> ui_inv k p w') \<Longrightarrow> ui_inv k p (if b then w else w')"
  by simp

lemma bare_event_ok: "e \<noteq> 1 \<Longrightarrow> e \<noteq> 3 \<Longrightarrow> e \<noteq> 6 \<Longrightarrow> e \<noteq> 7 \<Longrightarrow> event_ok (bare_event e) code"
  by (simp add: event_ok_def bare_event_def)

section \<open>Pages\<close>

lemma ui_HomePage [ui_ok]: "ui_inv k p w \<Longrightarrow> ui_inv k p (HomePage pg w)"
  unfolding HomePage_def Let_def by (intro ui_ok lcd_ok ui_if)

lemma setting_line_ok:
  "0 \<le> j \<Longrightarrow> j \<le> 3 \<Longrightarrow> ui_inv k p w \<Longrightarrow> \<exists>w'. setting_line j i m w = Some w' \<and> ui_inv k p w' \<and> pageSelect w' = pageSelect w"
  by (auto simp: setting_line_def setting_show_def put_text_def draw_def intro!: ui_put_text [unfolded put_text_def draw_def])

lemma SettingPage_ok:
  assumes "ui_inv k p w" "cusor pg \<le> 4"
  shows "\<exists>w'. SettingPage pg w = Some w' \<and> ui_inv k p w'"
proof -
  let ?c = "int (unat (cusor pg))"
  have c: "?c \<le> 4" using assms(2) by (simp add: word_le_def)
  have three: "\<exists>w'. (do { w \<leftarrow> setting_line a 0 m0 w; w \<leftarrow> setting_line b 1 m1 w; setting_line c 2 m2 w }) = Some w' \<and> ui_inv k p w'"
    if pre: "ui_inv k p w" "{a, b, c} \<subseteq> {0..3}" for a b c m0 m1 m2 w
  proof -
    obtain w1 where w1: "setting_line a 0 m0 w = Some w1" "ui_inv k p w1"
      using pre setting_line_ok [of a k p w 0 m0] by auto
    obtain w2 where w2: "setting_line b 1 m1 w1 = Some w2" "ui_inv k p w2"
      using pre w1 setting_line_ok [of b k p w1 1 m1] by auto
    obtain w3 where "setting_line c 2 m2 w2 = Some w3" "ui_inv k p w3"
      using pre w2 setting_line_ok [of c k p w2 2 m2] by auto
    with w1 w2 show ?thesis by simp
  qed
  note cl = ui_clear [OF assms(1)]
  show ?thesis
  proof (cases "?c \<le> 3")
    case True
    with three [OF cl, of 0 1 2 "?c = 1" "?c = 2" "?c = 3"] show ?thesis
      by (auto simp: SettingPage_def Let_def bind_eq_Some_conv intro: ui_update)
  next
    case False
    with c have c4: "?c = 4" by linarith
    with three [OF cl, of 1 2 3 False False True] show ?thesis
      by (auto simp: SettingPage_def Let_def bind_eq_Some_conv intro: ui_update)
  qed
qed

lemma ui_oneKeyMatchPage [ui_ok]: "ui_inv k p w \<Longrightarrow> ui_inv k p (oneKeyMatchPage w)"
  unfolding oneKeyMatchPage_def by (intro ui_ok) (simp_all add: event_ok_def)

lemma ui_testPage [ui_ok]: "ui_inv k p w \<Longrightarrow> ui_inv k p (testPage w)"
  unfolding testPage_def Let_def by (intro ui_ok ui_if bare_event_ok) simp_all

lemma ui_learnPage [ui_ok]: "ui_inv k p w \<Longrightarrow> ui_inv k p (learnPage pg w)"
  unfolding learnPage_def Let_def by (intro ui_ok)

lemma ui_learnOnPage [ui_ok]: "ui_inv k p w \<Longrightarrow> ui_inv k p (learnOnPage w)"
  unfolding learnOnPage_def by (intro ui_ok) (simp_all add: event_ok_def)

lemma ui_learnOffPage [ui_ok]: "ui_inv k p w \<Longrightarrow> ui_inv k p (learnOffPage w)"
  unfolding learnOffPage_def by (intro ui_ok) (simp_all add: event_ok_def)

lemma ui_upd_mode [ui_ok]:
  "ui_inv k p w \<Longrightarrow> v = SELECT_MATCH \<or> v = SELECT_LEARN \<Longrightarrow> ui_inv k p (upd_info (mi_select_update (\<lambda>_. v)) w)"
  by (auto simp: ui_inv_def upd_info_def shows_page_def mode_ok_def)

lemma ui_selectModePage_show [ui_ok]: "ui_inv k p w \<Longrightarrow> ui_inv k p (selectModePage_show w)"
  unfolding selectModePage_show_def Let_def by (intro ui_ok)

lemma selectModePage_ok:
  assumes "ui_inv k p w"
  shows "\<exists>q. ui_step p q \<and> ui_inv k q (selectModePage w)"
proof -
  let ?w = "clear_screen w"
  have w: "ui_inv k p ?w" using assms by (rule ui_clear)
  show ?thesis
  proof (cases "select (pageSelect ?w) = YES")
    case True
    then have "ui_inv k (parent p) (selectModePage_choose ?w)"
      using w by (auto simp: selectModePage_choose_def Let_def intro!: ui_ok)
    then show ?thesis unfolding selectModePage_def using ui_back ui_selectModePage_show by blast
  next
    case False
    then have "ui_inv k p (selectModePage_choose ?w)"
      using w by (auto simp: selectModePage_choose_def Let_def intro!: ui_ok)
    then show ?thesis unfolding selectModePage_def using ui_stay ui_selectModePage_show by blast
  qed
qed

lemma menu_enter_ok:
  assumes "ui_inv k p w"
    and "\<And>c pg. target c = Some pg \<Longrightarrow> \<exists>q\<in>children p. push_bit 8 (page_code p) OR ucast pg = page_code q"
  shows "\<exists>q. ui_step p q \<and> ui_inv k q (menu_enter target w)"
proof (cases "select (pageSelect w) = YES \<and> target (cusor (pageSelect w)) \<noteq> None")
  case True
  then obtain pg where pg: "target (cusor (pageSelect w)) = Some pg" by auto
  from assms(2) [OF this] obtain q where q: "q \<in> children p" "push_bit 8 (page_code p) OR ucast pg = page_code q" by auto
  then have "ui_inv k q (push_page pg w)"
    using assms(1) by (simp add: ui_inv_def push_page_def shows_page_def)
  with True pg ui_enter [OF q(1)] show ?thesis by (auto simp: menu_enter_def intro: ui_select)
next
  case False
  then show ?thesis using assms(1) ui_stay [of p] by (auto simp: menu_enter_def intro: ui_select)
qed

lemmas target_defs = home_target_def setting_target_def learn_target_def

lemma page_byte: "(ucast (page_code p AND 0xFF) :: u8) = ucast (page_code p)"
  by (cases p) simp_all

lemma pageProgram_ok:
  assumes "ui_inv k p w"
  shows "\<exists>q w'. pageProgram (ucast (page_code p)) w = Some w' \<and> ui_step p q \<and> ui_inv k q w'"
proof (cases p)
  case Home
  have "\<exists>q. ui_step p q \<and> ui_inv k q (menu_enter home_target (HomePage (pageSelect w) w))"
    using assms Home by (intro menu_enter_ok ui_ok) (auto simp: target_defs split: if_splits)
  with Home show ?thesis by (auto simp: pageProgram_def intro: ui_reflash)
next
  case Setting
  have "cusor (pageSelect w) \<le> 4" using assms by (auto simp: ui_inv_def cursor_ok_def)
  from SettingPage_ok [OF assms this] obtain w1 where w1: "SettingPage (pageSelect w) w = Some w1" "ui_inv k p w1" by blast
  have "\<exists>q. ui_step p q \<and> ui_inv k q (menu_enter setting_target w1)"
    using w1(2) Setting by (intro menu_enter_ok) (auto simp: target_defs split: if_splits)
  with Setting w1(1) show ?thesis by (auto simp: pageProgram_def intro: ui_reflash)
next
  case Mode
  with selectModePage_ok [OF assms] show ?thesis by (auto simp: pageProgram_def intro: ui_reflash)
next
  case Learn
  have "\<exists>q. ui_step p q \<and> ui_inv k q (menu_enter learn_target (learnPage (pageSelect w) w))"
    using assms Learn by (intro menu_enter_ok ui_ok) (auto simp: target_defs split: if_splits)
  with Learn show ?thesis by (auto simp: pageProgram_def intro: ui_reflash)
next
  case Match
  with ui_reflash [OF ui_oneKeyMatchPage [OF assms]] ui_stay [of p] show ?thesis by (auto simp: pageProgram_def)
next
  case Test
  with ui_reflash [OF ui_testPage [OF assms]] ui_stay [of p] show ?thesis by (auto simp: pageProgram_def)
next
  case LearnOn
  with ui_reflash [OF ui_learnOnPage [OF assms]] ui_stay [of p] show ?thesis by (auto simp: pageProgram_def)
next
  case LearnOff
  with ui_reflash [OF ui_learnOffPage [OF assms]] ui_stay [of p] show ?thesis by (auto simp: pageProgram_def)
qed

lemma ui_pageSetting [ui_ok]: "ui_inv k p w \<Longrightarrow> ui_inv k p (pageSetting pg w)"
  by (simp add: ui_inv_def pageSetting_def pageSelectSet_def set_cusor_def shows_page_def cursor_ok_def)

section \<open>Tasks\<close>

lemma oled_page_step_ok:
  assumes "ui_inv k p w"
  shows "\<exists>q t' w'. oled_page_step (t, w) = Some (t', w') \<and> ui_step p q \<and> ui_inv k q w'"
proof -
  have page: "ucast (pageInfor w AND 0xFF) = (ucast (page_code p) :: u8)"
    using assms page_byte by (simp add: ui_inv_def shows_page_def)
  show ?thesis
    using pageProgram_ok [OF assms] pageProgram_ok [OF ui_pageSetting [OF assms], of "ucast (page_code p)"]
      assms ui_stay [of p]
    by (auto simp: oled_page_step_def Let_def page)
qed

lemma OledTaskEntry_loop_ok:
  assumes "ui_inv k p w"
  shows "\<exists>q t' w'. OledTaskEntry_loop (t, w) = Some (t', w') \<and> ui_step p q \<and> ui_inv k q w'"
proof -
  let ?t = "t\<lparr>ot_time1S := fst (TimerTask (ot_time1S t) 20), ot_Timer1sTouch := snd (TimerTask (ot_time1S t) 20),
     ot_time3S := fst (TimerTask (ot_time3S t) 60), ot_Timer3sTouch := snd (TimerTask (ot_time3S t) 60)\<rparr>"
  obtain q t1 w1 where 1: "oled_page_step (?t, w) = Some (t1, w1)" "ui_step p q" "ui_inv k q w1"
    using oled_page_step_ok [OF assms] by blast
  show ?thesis using 1
    by (auto simp: OledTaskEntry_loop_def Let_def split_beta intro!: ui_ok ui_if)
qed

lemma ui_cusor [ui_ok]:
  "ui_inv k p w \<Longrightarrow> cusor_home (pageSelect w) \<le> c \<Longrightarrow> c \<le> cusor_max (pageSelect w) \<Longrightarrow> ui_inv k p (set_cusor c w)"
  by (simp add: ui_inv_def set_cusor_def shows_page_def cursor_ok_def)

lemma EnterBtnCallBack_ok:
  assumes "ui_inv k p w"
  shows "\<exists>q. (q = p \<or> q = parent p) \<and> ui_inv k q (EnterBtnCallBack ty w)"
proof -
  consider (short) "ty = SHORT_PRESS" | (long) "ty = LONG_PRESS" | (none) "ty \<noteq> SHORT_PRESS" "ty \<noteq> LONG_PRESS" by blast
  then show ?thesis
  proof cases
    case short
    then have "ui_inv k p (EnterBtnCallBack ty w)" using assms by (auto simp: EnterBtnCallBack_def intro!: ui_ok)
    then show ?thesis by blast
  next
    case long
    then have "ui_inv k (parent p) (EnterBtnCallBack ty w)"
      using assms unfolding EnterBtnCallBack_def Let_def pageReturn_def [symmetric]
      by (auto intro!: ui_ok ui_if bare_event_ok)
    then show ?thesis by blast
  next
    case none
    then have "EnterBtnCallBack ty w = w" by (simp add: EnterBtnCallBack_def)
    then show ?thesis using assms by metis
  qed
qed

lemma ui_pageSelect: "pageSelect (clear_screen (wakeUpOledBackLight w)) = pageSelect w"
  by (simp add: clear_screen_def wakeUpOledBackLight_def draw_def)

lemma ui_cursorD: "ui_inv k p w \<Longrightarrow> cursor_ok (pageSelect w)"
  by (simp add: ui_inv_def)

lemma word_pred_bounds: "h < c \<Longrightarrow> c \<le> m \<Longrightarrow> h \<le> c - 1 \<and> c - 1 \<le> m" for c :: u8
proof -
  assume a: "h < c" "c \<le> m"
  then have "unat (c - 1) = unat c - 1" by (intro unat_minus_one) auto
  with a show ?thesis by (auto simp: word_le_nat_alt word_less_nat_alt)
qed

lemma word_succ_bounds: "h \<le> c \<Longrightarrow> c < m \<Longrightarrow> h \<le> c + 1 \<and> c + 1 \<le> m" for c :: u8
proof -
  assume a: "h \<le> c" "c < m"
  then have "unat (c + 1) = unat c + 1" using u8_less [of m] by (simp add: unat_plus_if' word_less_nat_alt)
  with a show ?thesis by (auto simp: word_le_nat_alt word_less_nat_alt)
qed

lemma ui_move_cursor:
  assumes "ui_inv k p w" "cusor_home (pageSelect w) \<le> n" "n \<le> cusor_max (pageSelect w)"
  shows "ui_inv k p (reflash YES (set_cusor n (clear_screen (wakeUpOledBackLight w))))"
  using assms by (intro ui_ok) (simp_all add: ui_pageSelect)

lemma ui_UpBtnCallBack [ui_ok]:
  assumes "ui_inv k p w" shows "ui_inv k p (UpBtnCallBack ty w)"
proof (cases "ty = SHORT_PRESS")
  case True
  let ?p = "pageSelect w"
  define n where "n = (if cusor ?p > cusor_home ?p then cusor ?p - 1 else cusor_max ?p)"
  have "cursor_ok ?p" using assms by (rule ui_cursorD)
  then have "cusor_home ?p \<le> n" "n \<le> cusor_max ?p"
    using word_pred_bounds [of "cusor_home ?p" "cusor ?p" "cusor_max ?p"] by (auto simp: cursor_ok_def n_def)
  from ui_move_cursor [OF assms this] True show ?thesis
    by (auto simp: UpBtnCallBack_def Let_def ui_pageSelect n_def split: if_splits)
qed (use assms in \<open>simp add: UpBtnCallBack_def\<close>)

lemma ui_DowmBtnCallBack [ui_ok]:
  assumes "ui_inv k p w" shows "ui_inv k p (DowmBtnCallBack ty w)"
proof (cases "ty = SHORT_PRESS")
  case True
  let ?p = "pageSelect w"
  define n where "n = (if cusor ?p < cusor_max ?p then cusor ?p + 1 else cusor_home ?p)"
  have "cursor_ok ?p" using assms by (rule ui_cursorD)
  then have "cusor_home ?p \<le> n" "n \<le> cusor_max ?p"
    using word_succ_bounds [of "cusor_home ?p" "cusor ?p" "cusor_max ?p"] by (auto simp: cursor_ok_def n_def)
  from ui_move_cursor [OF assms this] True assms show ?thesis
    by (auto simp: DowmBtnCallBack_def Let_def ui_pageSelect n_def intro: ui_reflash ui_clear ui_wakeUp)
qed (use assms in \<open>simp add: DowmBtnCallBack_def\<close>)

section \<open>Event callbacks\<close>

lemma length_itoa_4: "n < 10000 \<Longrightarrow> length (itoa n) \<le> 4"
  by (simp add: itoa.simps)

lemma length_itoa: "10 ^ k \<le> n \<Longrightarrow> n < 10 ^ Suc k \<Longrightarrow> length (itoa n) = Suc k"
proof (induction k arbitrary: n)
  case (Suc k)
  have "10 * 10 ^ k \<le> n" using Suc.prems(1) by simp
  then have "10 ^ k \<le> n div 10" "10 \<le> n" by (auto simp: less_eq_div_iff_mult_less_eq mult.commute intro: order_trans [rotated])
  moreover have "n div 10 < 10 ^ Suc k" using Suc.prems(2) by (simp add: div_less_iff_less_mult mult.commute)
  ultimately show ?case using Suc.IH [of "n div 10"] by (simp add: itoa.simps [of n])
qed (simp add: itoa.simps)

lemma ui_banner [ui_ok]: "ui_inv k p w \<Longrightarrow> ui_inv k p (banner str w)"
  unfolding banner_def by (intro ui_ok)

lemma ui_learnCallBack [ui_ok]: "ui_inv k p w \<Longrightarrow> ui_inv k p (learnCallBack r w)"
  unfolding learnCallBack_def by (intro ui_ok ui_if)

lemma matchCallBack_ok:
  assumes "ui_inv k p w" "r = INFRARED_EVENT_SAVE_OK \<Longrightarrow> unat (snd (snd k)) < 10000"
  shows "\<exists>q w'. matchCallBack r w = Some w' \<and> (q = p \<or> q = parent p) \<and> ui_inv k q w'"
proof (cases "r = INFRARED_EVENT_SAVE_OK")
  case True
  have c: "ui_inv k p (clear_screen w)" using assms(1) by (rule ui_clear)
  then have "mi_brand_code (module_info (clear_screen w)) = snd (snd k)" by (simp add: ui_inv_def)
  then have len: "\<not> length (itoa (unat (mi_brand_code (getModuleInfo (clear_screen w))))) + 1 > 5"
    using assms(2) [OF True] length_itoa_4 by (simp add: getModuleInfo_def not_less)
  have "\<exists>w'. matchCallBack r w = Some w' \<and> ui_inv k (parent p) w'"
    using True len by (simp add: matchCallBack_def Let_def) (intro ui_ok c)
  then show ?thesis by blast
next
  case False
  have "\<exists>w'. matchCallBack r w = Some w' \<and> ui_inv k p w'"
    using False assms(1) by (auto simp: matchCallBack_def intro: ui_banner)
  then show ?thesis by blast
qed

section \<open>Properties\<close>

text \<open>
  C39: the display of a saved brand code needs a code below 10000. The digits are written
  into a five-byte array with their terminating NUL, so for a larger code the callback that
  reports a successful save stores past the array; below 10000 it returns.
\<close>

theorem brand_code_overflow:
  "(matchCallBack INFRARED_EVENT_SAVE_OK w = None) = (10000 \<le> unat (mi_brand_code (module_info w)))"
proof -
  let ?n = "unat (mi_brand_code (module_info w))"
  have "getModuleInfo (clear_screen w) = module_info w"
    by (simp add: getModuleInfo_def clear_screen_def draw_def)
  moreover have "(5 < length (itoa ?n) + 1) = (10000 \<le> ?n)"
    using length_itoa_4 [of ?n] length_itoa [of 4 ?n] u16_less [of "mi_brand_code (module_info w)"]
    by (cases "10000 \<le> ?n") auto
  ultimately show ?thesis by (simp add: matchCallBack_def Let_def)
qed

text \<open>A long press on the matching page leaves it; an enter key that is still noted there opens the mode selection
  page in the next pass.\<close>

lemma match_page_left:
  assumes "ui_inv k Match w" "select (pageSelect w) = YES" "ot_nowPagePre t = ONEKEY_MATCH_PAGE"
  shows "\<exists>t' w'. OledTaskEntry_loop (t, EnterBtnCallBack LONG_PRESS w) = Some (t', w') \<and> shows_page w' Mode"
proof -
  let ?w = "EnterBtnCallBack LONG_PRESS w"
  have pi: "pageInfor w = 0x0102" using assms(1) by (simp add: ui_inv_def shows_page_def)
  have w: "pageInfor ?w = 1" "select (pageSelect ?w) = YES"
    using assms(2) pi by (simp_all add: EnterBtnCallBack_def Let_def cleanLastMatchRes_def setinfraredEvent_def)
  have inv: "ui_inv k Setting ?w"
    using assms(1) w(1)
    by (auto simp: ui_inv_def shows_page_def EnterBtnCallBack_def Let_def cleanLastMatchRes_def
        setinfraredEvent_def bare_event_def event_ok_def)
  let ?s = "pageSetting SETTING_PAGE ?w"
  have s: "ui_inv k Setting ?s" "cusor (pageSelect ?s) = 1" "select (pageSelect ?s) = YES"
    using inv w(2) by (simp_all add: ui_pageSetting) (simp_all add: pageSetting_def pageSelectSet_def)
  obtain w1 where w1: "SettingPage (pageSelect ?s) ?s = Some w1" "ui_inv k Setting w1"
    using SettingPage_ok [OF s(1), of "pageSelect ?s"] s(2) by auto
  have sel: "pageSelect w1 = pageSelect ?s"
    using w1(1) by (auto simp: SettingPage_def Let_def bind_eq_Some_conv setting_line_def put_text_def
        draw_def clear_screen_def update_screen_def split: if_splits)
  have pi1: "pageInfor w1 = 1" using w1(2) by (simp add: ui_inv_def shows_page_def)
  have "pageProgram SETTING_PAGE ?s = Some (reflash NO (set_select NO (push_page SELECT_MODE_PAGE w1)))"
    using w1(1) sel s(2,3) by (simp add: pageProgram_def menu_enter_def setting_target_def)
  then have "oled_page_step (t2, ?w) = Some (t2\<lparr>ot_nowPagePre := 1\<rparr>, reflash NO (set_select NO (push_page SELECT_MODE_PAGE w1)))"
    if "ot_nowPagePre t2 = ONEKEY_MATCH_PAGE" for t2
    using that w(1) by (simp add: oled_page_step_def Let_def)
  then show ?thesis using assms(3) pi1
    by (auto simp: OledTaskEntry_loop_def Let_def split_beta shows_page_def push_page_def set_select_def
        reflash_def monitorBackLight_def draw_def task_mdelay_def out_def)
qed

text \<open>The matching page, redrawn after a short press, shows itself again and keeps the enter key.\<close>

lemma match_page_redrawn:
  assumes "ui_inv k Match w" "ot_nowPagePre t = ONEKEY_MATCH_PAGE"
  shows "\<exists>t1 w1. OledTaskEntry_loop (t, EnterBtnCallBack SHORT_PRESS w) = Some (t1, w1) \<and> ui_inv k Match w1 \<and>
    select (pageSelect w1) = YES \<and> ot_nowPagePre t1 = ONEKEY_MATCH_PAGE"
proof -
  let ?w = "EnterBtnCallBack SHORT_PRESS w"
  have pi: "pageInfor w = 0x0102" using assms(1) by (simp add: ui_inv_def shows_page_def)
  have w: "pageInfor ?w = 0x0102" "select (pageSelect ?w) = YES" "reflash_flag ?w = YES"
    using pi by (simp_all add: EnterBtnCallBack_def reflash_def set_select_def clear_screen_def wakeUpOledBackLight_def draw_def)
  have inv: "ui_inv k Match ?w" using assms(1) by (auto simp: EnterBtnCallBack_def intro!: ui_ok)
  let ?p = "reflash NO (oneKeyMatchPage ?w)"
  have p: "ui_inv k Match ?p" by (intro ui_ok inv)
  have sel: "select (pageSelect ?p) = YES"
    using w(2) by (simp add: oneKeyMatchPage_def setinfraredEvent_def reflash_def update_screen_def put_text_def
        clear_screen_def draw_def)
  have keep: "select (pageSelect (monitorBackLight v)) = select (pageSelect v)"
    "select (pageSelect (task_mdelay n v)) = select (pageSelect v)" "select (pageSelect (reflash f v)) = select (pageSelect v)"
    for v n f by (simp_all add: monitorBackLight_def draw_def task_mdelay_def out_def reflash_def)
  have "oled_page_step (t2, ?w) = Some (t2, ?p)" if "ot_nowPagePre t2 = ONEKEY_MATCH_PAGE" for t2
    using that w by (simp add: oled_page_step_def Let_def pageProgram_def)
  then show ?thesis using assms(2) p sel
    by (auto simp: OledTaskEntry_loop_def Let_def split_beta keep intro!: ui_ok ui_if)
qed

text \<open>
  C40: a short press of the enter key on the matching page leaks into the menu. The next pass of the display task
  draws the matching page again and does not consume the key; when the page is then left with a long press, the
  pass after it opens the mode selection page although no key was pressed on the settings page.
\<close>

theorem match_page_leaks_enter:
  assumes "ui_inv k Match w" "ot_nowPagePre t = ONEKEY_MATCH_PAGE"
  shows "\<exists>t1 w1. OledTaskEntry_loop (t, EnterBtnCallBack SHORT_PRESS w) = Some (t1, w1) \<and> shows_page w1 Match \<and>
    (\<exists>t2 w2. OledTaskEntry_loop (t1, EnterBtnCallBack LONG_PRESS w1) = Some (t2, w2) \<and> shows_page w2 Mode)"
proof -
  obtain t1 w1 where 1: "OledTaskEntry_loop (t, EnterBtnCallBack SHORT_PRESS w) = Some (t1, w1)" "ui_inv k Match w1"
    "select (pageSelect w1) = YES" "ot_nowPagePre t1 = ONEKEY_MATCH_PAGE"
    using match_page_redrawn [OF assms] by blast
  with match_page_left [OF 1(2-4)] show ?thesis by (auto simp: ui_inv_def)
qed

definition match_world :: world where
  "match_world = (reset_world (\<lambda>_. 0xFF) (1, 2, 3) (\<lambda>_ _. 0) (\<lambda>_. 0))
     \<lparr>pageInfor := 0x0102, pageSelect := \<lparr>cusor_home = 1, cusor_max = 4, cusor = 2, select = NO\<rparr>\<rparr>"

theorem match_page_leaks_enter_witness:
  "\<exists>t1 w1. OledTaskEntry_loop (oled_statics\<lparr>ot_nowPagePre := 2\<rparr>, EnterBtnCallBack SHORT_PRESS match_world) = Some (t1, w1) \<and>
     shows_page w1 Match \<and>
     (\<exists>t2 w2. OledTaskEntry_loop (t1, EnterBtnCallBack LONG_PRESS w1) = Some (t2, w2) \<and> shows_page w2 Mode)"
proof -
  have "ui_inv (reset_msg, reset_msg, 0) Match match_world"
    by (simp add: ui_inv_def match_world_def reset_world_def shows_page_def cursor_ok_def lcd_wf_def reset_lcd_def
        event_ok_def mode_ok_def reset_info_def)
  from match_page_leaks_enter [OF this] show ?thesis by simp
qed

end
