(* ===== verification/Button_Task.thy ===== *)
theory Button_Task
  imports Oled_Task
begin

text \<open>
  The key scanner, \<^verbatim>\<open>applications/Button/ButtonTask.c\<close>: every 20 ms each of the three keys is
  sampled, the time it is held is accumulated, and its callback is called with the kind of
  press. The statics of the task are the record \<open>button_task\<close>.
\<close>

section \<open>State\<close>

datatype key_call_back = KB_none | KB_Enter | KB_Up | KB_Dowm

record buttonInfo =
  on_set :: u8
  press_type :: u8
  press_state :: u8
  have_read :: u8
  continue_time :: u16
  bpin :: pin
  b_call_back :: key_call_back

record button_task =
  buttonList :: "buttonInfo list"
  btn_cooling :: "u8 list"
  on_set_pre :: "u8 list"
  add_index :: u8

definition BUTTON_MAX :: nat where [simp]: "BUTTON_MAX = 3"
definition KEY_ON :: u8 where [simp]: "KEY_ON = 0"
definition BAND_TIME :: u16 where [simp]: "BAND_TIME = 40"
definition SHORT_TIME :: u16 where [simp]: "SHORT_TIME = 60"
definition LONG_TIME :: u16 where [simp]: "LONG_TIME = 600"
definition BTN_COOL_TIME :: u8 where [simp]: "BTN_COOL_TIME = 2"
definition BUTTON_TASK_PERIOD :: u8 where [simp]: "BUTTON_TASK_PERIOD = 20"

definition reset_button :: buttonInfo where
  "reset_button = \<lparr>on_set = 0, press_type = 0, press_state = 0, have_read = 0, continue_time = 0,
     bpin = BUTTON_ENTER, b_call_back = KB_none\<rparr>"

definition button_statics :: button_task where
  "button_statics = \<lparr>buttonList = replicate BUTTON_MAX reset_button, btn_cooling = replicate BUTTON_MAX 0,
     on_set_pre = replicate BUTTON_MAX 0, add_index = 0\<rparr>"

section \<open>Registration\<close>

definition ButtonAdd :: "pin \<Rightarrow> u8 \<Rightarrow> key_call_back \<Rightarrow> button_task \<Rightarrow> button_task" where
  "ButtonAdd p on cb t =
     (let i = unat (add_index t) in
      if i < BUTTON_MAX then
        t\<lparr>buttonList := (buttonList t)[i := (buttonList t ! i)
            \<lparr>bpin := p, on_set := on, b_call_back := cb, press_state := NO, have_read := NO\<rparr>],
          add_index := add_index t + 1\<rparr>
      else t)"

definition ButtonRegister :: "button_task \<Rightarrow> button_task" where
  "ButtonRegister t =
     ButtonAdd BUTTON_DOWN KEY_ON KB_Dowm
       (ButtonAdd BUTTON_UP KEY_ON KB_Up (ButtonAdd BUTTON_ENTER KEY_ON KB_Enter t))"

section \<open>Scanning\<close>

text \<open>One pass of the loop body over one key, without the callback: \<open>pressed\<close> is
  \<open>rt_pin_read(pin) == on_set\<close>, \<open>cool\<close> is \<open>btn_cooling[index]\<close>.\<close>

definition button_sample :: "u8 \<Rightarrow> bool \<Rightarrow> buttonInfo \<times> u8 \<Rightarrow> buttonInfo \<times> u8" where
  "button_sample period pressed = (\<lambda>(b, cool).
     if pressed then
       (if cool \<ge> BTN_COOL_TIME
        then (b\<lparr>continue_time := continue_time b + ucast period, press_state := YES\<rparr>, cool)
        else (b, cool))
     else (b\<lparr>press_state := NO\<rparr>, if cool < BTN_COOL_TIME then cool + 1 else cool))"

definition button_classify :: "buttonInfo \<Rightarrow> buttonInfo" where
  "button_classify b =
     (if press_state b = YES then
        (if continue_time b \<ge> LONG_TIME
         then b\<lparr>press_type := (if have_read b = NO then LONG_PRESS else NULL_PRESS), have_read := YES\<rparr>
         else b)
      else
        (let short_max = LONG_TIME - BAND_TIME
         in b\<lparr>press_type := (if continue_time b \<ge> SHORT_TIME \<and> continue_time b < short_max
                            then SHORT_PRESS else NULL_PRESS),
             have_read := NO, continue_time := 0\<rparr>))"

definition button_tick :: "u8 \<Rightarrow> bool \<Rightarrow> buttonInfo \<times> u8 \<Rightarrow> buttonInfo \<times> u8" where
  "button_tick period pressed s = (case button_sample period pressed s of (b, cool) \<Rightarrow> (button_classify b, cool))"

fun key_call :: "key_call_back \<Rightarrow> u8 \<Rightarrow> world \<Rightarrow> world option" where
  "key_call KB_none ty w = None"
| "key_call KB_Enter ty w = Some (EnterBtnCallBack ty w)"
| "key_call KB_Up ty w = Some (UpBtnCallBack ty w)"
| "key_call KB_Dowm ty w = Some (DowmBtnCallBack ty w)"

text \<open>The body of the loop for key \<open>i\<close>; \<open>pins\<close> gives the levels \<open>rt_pin_read\<close> returns.\<close>

definition button_step :: "u8 \<Rightarrow> (pin \<Rightarrow> u8) \<Rightarrow> nat \<Rightarrow> button_task \<times> world \<Rightarrow> (button_task \<times> world) option" where
  "button_step period pins i = (\<lambda>(t, w).
     let b = buttonList t ! i;
         (b, cool) = button_tick period (pins (bpin b) = on_set b) (b, btn_cooling t ! i)
     in map_option (Pair (t\<lparr>buttonList := (buttonList t)[i := b], btn_cooling := (btn_cooling t)[i := cool]\<rparr>))
          (key_call (b_call_back b) (press_type b) w))"

text \<open>The statement before the loop, where \<open>index\<close> is 0.\<close>

definition button_prologue :: "(pin \<Rightarrow> u8) \<Rightarrow> button_task \<Rightarrow> button_task" where
  "button_prologue pins t =
     (let b = buttonList t ! 0
      in if on_set_pre t ! 0 \<noteq> on_set b then
           (let t = t\<lparr>on_set_pre := (on_set_pre t)[0 := on_set b]\<rparr>
            in if pins (bpin b) \<noteq> on_set b then t\<lparr>btn_cooling := (btn_cooling t)[0 := 0]\<rparr> else t)
         else t)"

definition Buttonprogram :: "u8 \<Rightarrow> (pin \<Rightarrow> u8) \<Rightarrow> button_task \<times> world \<Rightarrow> (button_task \<times> world) option" where
  "Buttonprogram period pins = (\<lambda>(t, w). do {
     s \<leftarrow> button_step period pins 0 (button_prologue pins t, w);
     s \<leftarrow> button_step period pins 1 s;
     button_step period pins 2 s
   })"

definition ButtonTaskEntry_loop :: "(pin \<Rightarrow> u8) \<Rightarrow> button_task \<times> world \<Rightarrow> (button_task \<times> world) option" where
  "ButtonTaskEntry_loop pins s =
     map_option (\<lambda>(t, w). (t, task_mdelay (unat BUTTON_TASK_PERIOD) w)) (Buttonprogram BUTTON_TASK_PERIOD pins s)"

section \<open>What a key press reports\<close>

text \<open>The kinds of press passed to the callback while a key goes through the given
  samples.\<close>

fun reports :: "bool list \<Rightarrow> buttonInfo \<times> u8 \<Rightarrow> u8 list" where
  "reports [] s = []"
| "reports (p # ps) s = (let s' = button_tick BUTTON_TASK_PERIOD p s in press_type (fst s') # reports ps s')"

definition presses :: "bool list \<Rightarrow> buttonInfo \<times> u8 \<Rightarrow> u8 list" where
  "presses ps s = filter (\<lambda>ty. ty \<noteq> NULL_PRESS) (reports ps s)"

text \<open>A key at rest: released, nothing pending, past its start-up delay.\<close>

definition at_rest :: "buttonInfo \<times> u8 \<Rightarrow> bool" where
  "at_rest s \<longleftrightarrow> press_type (fst s) = NULL_PRESS \<and> have_read (fst s) = NO \<and>
     continue_time (fst s) = 0 \<and> snd s \<ge> BTN_COOL_TIME"

text \<open>The key after \<open>i\<close> samples of a press.\<close>

definition held :: "nat \<Rightarrow> buttonInfo \<times> u8 \<Rightarrow> buttonInfo \<times> u8" where
  "held i s = ((button_tick BUTTON_TASK_PERIOD True) ^^ i) s"

lemma held_Suc: "held (Suc i) s = button_tick BUTTON_TASK_PERIOD True (held i s)"
  by (simp add: held_def)

lemma reports_append:
  "reports (replicate k True @ ps) s = map (\<lambda>i. press_type (fst (held (Suc i) s))) [0..<k] @ reports ps (held k s)"
proof (induction k arbitrary: ps)
  case (Suc k)
  have "reports (replicate (Suc k) True @ ps) s = reports (replicate k True @ True # ps) s"
    by (simp add: replicate_app_Cons_same)
  also have "\<dots> = map (\<lambda>i. press_type (fst (held (Suc i) s))) [0..<k] @ reports (True # ps) (held k s)"
    by (rule Suc.IH)
  finally show ?case by (simp add: held_Suc Let_def)
qed (simp add: held_def)

lemma held_state:
  assumes "at_rest s" "i \<le> 3276"
  shows "unat (continue_time (fst (held i s))) = 20 * i \<and> snd (held i s) = snd s \<and>
    have_read (fst (held i s)) = (if 30 \<le> i then YES else NO) \<and>
    press_type (fst (held i s)) = (if i = 30 then LONG_PRESS else NULL_PRESS)"
  using assms(2)
proof (induction i)
  case 0
  with assms(1) show ?case by (simp add: held_def at_rest_def)
next
  case (Suc i)
  obtain b c where h: "held i s = (b, c)" by (cases "held i s")
  have IH: "unat (continue_time b) = 20 * i" "c = snd s" "have_read b = (if 30 \<le> i then YES else NO)"
    "press_type b = (if i = 30 then LONG_PRESS else NULL_PRESS)" using Suc h by simp_all
  have cool: "2 \<le> c" using assms(1) IH(2) by (simp add: at_rest_def)
  have time: "unat (continue_time b + 20) = 20 * Suc i"
    using Suc.prems IH(1) by (simp add: unat_plus_if')
  then have "600 \<le> continue_time b + 20 \<longleftrightarrow> 30 \<le> Suc i" by (simp add: word_le_nat_alt)
  then show ?case using h IH cool time
    by (simp add: held_Suc button_tick_def button_sample_def button_classify_def)
qed

lemma released:
  assumes "at_rest s" "k \<le> 3276"
  shows "press_type (fst (button_tick BUTTON_TASK_PERIOD False (held k s))) =
    (if 3 \<le> k \<and> k \<le> 27 then SHORT_PRESS else NULL_PRESS)"
proof -
  obtain b c where h: "held k s = (b, c)" by (cases "held k s")
  have "unat (continue_time b) = 20 * k" using held_state [OF assms] h by simp
  then have "60 \<le> continue_time b \<longleftrightarrow> 3 \<le> k" "continue_time b < 560 \<longleftrightarrow> k \<le> 27"
    by (auto simp: word_le_nat_alt word_less_nat_alt)
  then show ?thesis using h by (simp add: button_tick_def button_sample_def button_classify_def Let_def)
qed

lemma presses_append: "presses (replicate k True @ ps) s =
    filter (\<lambda>ty. ty \<noteq> NULL_PRESS) (map (\<lambda>i. press_type (fst (held (Suc i) s))) [0..<k]) @ presses ps (held k s)"
  by (simp add: presses_def reports_append)

lemma presses_while_held:
  assumes "at_rest s" "k \<le> 3276"
  shows "filter (\<lambda>ty. ty \<noteq> NULL_PRESS) (map (\<lambda>i. press_type (fst (held (Suc i) s))) [0..<k]) =
    (if 30 \<le> k then [LONG_PRESS] else [])"
  using assms(2) by (induction k) (use assms(1) in \<open>auto simp: held_state\<close>)

section \<open>Properties\<close>

text \<open>
  C31: how a press is classified. From rest, a key held for \<open>k\<close> samples and released
  reports one short press if \<open>3 \<le> k \<le> 27\<close> (60 to 540 ms), one long press if \<open>k \<ge> 30\<close>
  (600 ms; reported while held), and nothing otherwise; all other callbacks are
  \<open>NULL_PRESS\<close>. This holds for \<open>k \<le> 3276\<close>, presses of up to 65 s; in longer ones the 16-bit counter wraps.
\<close>

theorem press_classified:
  assumes "at_rest s" "k \<le> 3276"
  shows "presses (replicate k True @ [False]) s =
    (if 3 \<le> k \<and> k \<le> 27 then [SHORT_PRESS] else if 30 \<le> k then [LONG_PRESS] else [])"
  unfolding presses_append presses_while_held [OF assms]
  using released [OF assms] by (auto simp: presses_def Let_def)

theorem press_classified_witness:
  "presses (replicate 10 True @ [False]) (reset_button, 2) = [SHORT_PRESS] \<and>
   at_rest (reset_button, 2)"
  using press_classified [of "(reset_button, 2)" 10] by (simp add: at_rest_def reset_button_def)

lemma held_keeps_type:
  assumes "press_type (fst s) = ty" "continue_time (fst s) = 0" "snd s \<ge> BTN_COOL_TIME" "i \<le> 29"
  shows "unat (continue_time (fst (held i s))) = 20 * i \<and> snd (held i s) = snd s \<and> press_type (fst (held i s)) = ty"
  using assms(4)
proof (induction i)
  case 0
  with assms show ?case by (simp add: held_def)
next
  case (Suc i)
  obtain b c where h: "held i s = (b, c)" by (cases "held i s")
  have IH: "unat (continue_time b) = 20 * i" "c = snd s" "press_type b = ty" using Suc h by simp_all
  have time: "unat (continue_time b + 20) = 20 * Suc i" using Suc.prems IH(1) by (simp add: unat_plus_if')
  then have "\<not> 600 \<le> continue_time b + 20" using Suc.prems by (simp add: word_le_nat_alt)
  then show ?case using h IH assms(3) time
    by (simp add: held_Suc button_tick_def button_sample_def button_classify_def)
qed

text \<open>
  A key that is pressed again on the sample after its release repeats the short press.
  The kind of press stays \<open>SHORT_PRESS\<close> while the new press is shorter than 600 ms, and the
  callback is called with it at every sample: a single short press followed by a release of
  20 ms and \<open>m\<close> held samples is reported \<open>m + 1\<close> times.
\<close>

theorem bounce_repeats_short:
  assumes "at_rest s" "3 \<le> k" "k \<le> 27" "m \<le> 29"
  shows "presses (replicate k True @ False # replicate m True) s = replicate (Suc m) SHORT_PRESS"
proof -
  have k: "k \<le> 3276" using assms(3) by simp
  let ?s = "button_tick BUTTON_TASK_PERIOD False (held k s)"
  have ty: "press_type (fst ?s) = SHORT_PRESS" using released [OF assms(1) k] assms(2,3) by simp
  have cool: "snd (held k s) \<ge> BTN_COOL_TIME" using held_state [OF assms(1) k] assms(1) by (simp add: at_rest_def)
  then have "continue_time (fst ?s) = 0" "snd ?s \<ge> BTN_COOL_TIME"
    by (auto simp: button_tick_def button_sample_def button_classify_def Let_def split: prod.splits)
  note keep = held_keeps_type [OF ty this]
  have "map (\<lambda>i. press_type (fst (held (Suc i) ?s))) [0..<m] = replicate m SHORT_PRESS"
    using keep assms(4) by (intro nth_equalityI) simp_all
  then have "reports (replicate m True) ?s = replicate m SHORT_PRESS"
    using reports_append [of m "[]" ?s] by simp
  then show ?thesis
    using presses_append [of k "False # replicate m True" s] presses_while_held [OF assms(1) k] assms(3) ty
    by (simp add: presses_def Let_def filter_replicate)
qed

theorem bounce_repeats_short_witness:
  "presses (replicate 5 True @ False # replicate 4 True) (reset_button, 2) = replicate 5 SHORT_PRESS"
  using bounce_repeats_short [of "(reset_button, 2)" 5 4] by (simp add: at_rest_def reset_button_def)

text \<open>The 16-bit hold time wraps after 3276 samples.\<close>

lemma held_wrapped:
  assumes "at_rest s" "1 \<le> j" "j \<le> 28"
  shows "unat (continue_time (fst (held (3276 + j) s))) = 20 * j - 16 \<and> snd (held (3276 + j) s) = snd s \<and>
    press_type (fst (held (3276 + j) s)) = NULL_PRESS"
  using assms(2,3)
proof (induction j)
  case (Suc j)
  obtain b c where h: "held (3276 + j) s = (b, c)" by (cases "held (3276 + j) s")
  have IH: "unat (continue_time b) = (if j = 0 then 65520 else 20 * j - 16)" "c = snd s" "press_type b = NULL_PRESS"
    using held_state [OF assms(1), of 3276] Suc h by (cases "j = 0"; simp)+
  have time: "unat (continue_time b + 20) = 20 * Suc j - 16" using Suc.prems IH(1)
    by (cases "j = 0") (simp_all add: unat_plus_if')
  then have "\<not> 600 \<le> continue_time b + 20" using Suc.prems by (simp add: word_le_nat_alt)
  moreover have "2 \<le> c" using assms(1) IH(2) by (simp add: at_rest_def)
  ultimately show ?case unfolding add_Suc_right held_Suc using h IH time
    by (simp add: button_tick_def button_sample_def button_classify_def)
qed simp

text \<open>
  C32: a key held from rest for 3280 to 3304 samples (about 66 s) is reported as a long press and, at its release, also as a
  short press: the 16-bit hold time has wrapped into the range of a short press.
\<close>

theorem long_hold_wraps:
  assumes "at_rest s" "3280 \<le> k" "k \<le> 3304"
  shows "presses (replicate k True @ [False]) s = [LONG_PRESS, SHORT_PRESS]"
proof -
  define j where "j = k - 3276"
  have j: "k = 3276 + j" "4 \<le> j" "j \<le> 28" using assms(2,3) by (simp_all add: j_def)
  obtain b c where h: "held k s = (b, c)" by (cases "held k s")
  have "unat (continue_time b) = 20 * j - 16" using held_wrapped [OF assms(1), of j] j h by simp
  then have "60 \<le> continue_time b" "continue_time b < 560" using j by (simp_all add: word_le_nat_alt word_less_nat_alt)
  then have rel: "press_type (fst (button_tick BUTTON_TASK_PERIOD False (held k s))) = SHORT_PRESS"
    using h by (simp add: button_tick_def button_sample_def button_classify_def Let_def)
  define N :: nat where "N = 3276"
  have N: "N \<le> 3276" "30 \<le> N" "k = N + j" using j(1) by (simp_all add: N_def)
  have "map (\<lambda>i. press_type (fst (held (Suc i) s))) [N..<N + j] = replicate j NULL_PRESS"
    using held_wrapped [OF assms(1), folded N_def] j
    by (intro nth_equalityI) (simp_all flip: add_Suc_right)
  then have "filter (\<lambda>ty. ty \<noteq> NULL_PRESS) (map (\<lambda>i. press_type (fst (held (Suc i) s))) [0..<k]) = [LONG_PRESS]"
    using presses_while_held [OF assms(1) N(1)] N(2) unfolding N(3)
    by (simp add: upt_add_eq_append [of 0 N j, simplified] filter_replicate)
  then show ?thesis unfolding presses_append using rel by (simp add: presses_def Let_def)
qed

theorem long_hold_wraps_witness:
  "presses (replicate 3280 True @ [False]) (reset_button, 2) = [LONG_PRESS, SHORT_PRESS]"
  using long_hold_wraps [of "(reset_button, 2)" 3280] by (simp add: at_rest_def reset_button_def)

end
