(* ===== verification/Uart_Task.thy ===== *)
theory Uart_Task
  imports Button_Task
begin

text \<open>
  The communication task, \<^verbatim>\<open>applications/Uart/Uart.c\<close>: the receive interrupts of the two
  UARTs, the start of the task and its 50 ms loop body, section by section. The task's
  statics and locals are the record \<open>uart_task\<close>. Parameters are the flash controller \<open>hw\<close>,
  the allocator \<open>heap\<close> and the level \<open>io\<close> of the external input.
\<close>

section \<open>Receive interrupts\<close>

text \<open>\<open>size\<close> is what the driver announces, \<open>bs\<close> the bytes \<open>rt_device_read\<close> delivers. Both
  handlers copy them into the 100-byte \<open>data\<close> without a bound; an access past it is
  \<open>None\<close>.\<close>

definition Uart1_input :: "nat \<Rightarrow> bytes \<Rightarrow> world \<Rightarrow> world option" where
  "Uart1_input sz bs w = do {
     d \<leftarrow> put_bytes 0 bs (rx_data (uart1_msg w));
     let w = w\<lparr>uart1_msg := (uart1_msg w)\<lparr>rx_size := sz, rx_data := d\<rparr>\<rparr>;
     if 2 > sz then Some w
     else if \<not> (REGISTER_CODE = d ! 0 \<or> mi_addr (getModuleInfo w) = d ! 0) then Some w
     else if sz > UART_MSG_SIZE then None
     else if mk16 (d ! (sz - 1)) (d ! (sz - 2)) = usModbusRTU_CRC (take (sz - 2) d)
     then Some (w\<lparr>uart1_msg := (uart1_msg w)\<lparr>messageFlag := YES\<rparr>\<rparr>)
     else Some w
   }"

definition Uart2_input :: "nat \<Rightarrow> bytes \<Rightarrow> world \<Rightarrow> world option" where
  "Uart2_input sz bs w = do {
     d \<leftarrow> put_bytes 0 bs (rx_data (uart2_msg w));
     let w = w\<lparr>uart2_msg := (uart2_msg w)\<lparr>rx_size := sz, rx_data := d\<rparr>\<rparr>;
     if sz > 2 \<and> d ! 0 = 0xAA \<and> d ! 1 = 0x55
     then Some (w\<lparr>uart2_msg := (uart2_msg w)\<lparr>messageFlag := YES\<rparr>\<rparr>)
     else Some w
   }"

section \<open>Start\<close>

definition REGISTER_NULL :: u8 where [simp]: "REGISTER_NULL = 0"
definition REGISTER_SUCESS :: u8 where [simp]: "REGISTER_SUCESS = 1"

text \<open>\<open>n\<close> bytes of the memory that a wrong pointer reaches, and filling them with zeros.\<close>

definition stray_bytes :: "stray_object \<Rightarrow> nat \<Rightarrow> world \<Rightarrow> bytes" where
  "stray_bytes r n w = map (stray w r) [0..<n]"

definition stray_clear :: "stray_object \<Rightarrow> nat \<Rightarrow> world \<Rightarrow> world" where
  "stray_clear r n w = w\<lparr>stray := (stray w)(r := \<lambda>i. if i < n then 0 else stray w r i)\<rparr>"

text \<open>\<open>getModuleInfo() + 2\<close> is two whole structures past the record, so the checksum and
  the \<open>rt_memset\<close> of this function cover ten bytes of other memory, and not the record.\<close>

definition initModuleInfo :: "world \<Rightarrow> world" where
  "initModuleInfo w =
     (let crc = usModbusRTU_CRC (stray_bytes Behind_module_info (SIZEOF_INFO - 2) w);
          w = (if crc \<noteq> mi_crc (getModuleInfo w)
               then upd_info (mi_addr_update (\<lambda>_. 0x01)) (stray_clear Behind_module_info (SIZEOF_INFO - 2) w)
               else w);
          w = upd_info (\<lambda>m. m\<lparr>mi_register_state := REGISTER_NULL, mi_type := INFRARED_TYPE\<rparr>) w
      in upd_info (mi_crc_update (\<lambda>_. usModbusRTU_CRC (stray_bytes Behind_module_info (SIZEOF_INFO - 2) w))) w)"

record uart_task =
  ut_Timer100msTouch :: u8
  ut_Timer1sTouch :: u8
  ut_Timer5sTouch :: u8
  ut_Timer10sTouch :: u8
  ut_time100ms :: u16
  ut_time1S :: u16
  ut_time5S :: u16
  ut_time10S :: u16
  ut_event :: infrared_event_t
  ut_master_event :: u8
  modulePre :: module_info
  ctrl_pre :: u16
  find_location_cnt :: u16
  startFlag :: u8
  startCheckIo :: u8
  connect_monitor :: u8
  sendCmdCnt :: u8
  io_Laststate :: u8
  io_continueTime :: u16

definition UartTaskEntry_start :: "world \<Rightarrow> uart_task \<times> world" where
  "UartTaskEntry_start w =
     (let ev = getInfraredEvent w; me = getMasterEvent w;
          w = w\<lparr>module_info := info_of_bytes (getDataFromFlash DATA_BLOCK_START
                (info_bytes (module_info w)) (flash_mem w))\<rparr>;
          w = (if mi_select (getModuleInfo w) \<noteq> SELECT_MATCH \<and> mi_select (getModuleInfo w) \<noteq> SELECT_LEARN
               then upd_info (mi_select_update (\<lambda>_. SELECT_MATCH)) w else w);
          w = initModuleInfo w;
          w = setMasterEvent EVENT_REGISTER w;
          pre = mi_ctrl (getModuleInfo w);
          w = upd_info (\<lambda>m. m\<lparr>mi_find_location := NO, mi_Version := 2\<rparr>) w;
          w = setNowTemp (getTempByCtrl 0x6000) (setSwitchState NO w)
      in (\<lparr>ut_Timer100msTouch = NO, ut_Timer1sTouch = NO, ut_Timer5sTouch = NO, ut_Timer10sTouch = NO,
           ut_time100ms = 0, ut_time1S = 0, ut_time5S = 0, ut_time10S = 0,
           ut_event = ev, ut_master_event = me, modulePre = reset_info, ctrl_pre = pre,
           find_location_cnt = 0, startFlag = NO, startCheckIo = NO, connect_monitor = 0,
           sendCmdCnt = 2, io_Laststate = 1, io_continueTime = 0\<rparr>, w))"

section \<open>The loop body\<close>

subsection \<open>Timers and external input\<close>

definition UART_PERIOD :: u16 where [simp]: "UART_PERIOD = 50"

definition uart_timers :: "uart_task \<Rightarrow> uart_task" where
  "uart_timers t =
     (let (t1, f1) = TimerTask (ut_time1S t) (1000 div UART_PERIOD);
          (t5, f5) = TimerTask (ut_time5S t) (5000 div UART_PERIOD);
          (t10, f10) = TimerTask (ut_time10S t) (10000 div UART_PERIOD);
          (t100, f100) = TimerTask (ut_time100ms t) (100 div UART_PERIOD)
      in t\<lparr>ut_time1S := t1, ut_Timer1sTouch := f1, ut_time5S := t5, ut_Timer5sTouch := f5,
           ut_time10S := t10, ut_Timer10sTouch := f10, ut_time100ms := t100, ut_Timer100msTouch := f100\<rparr>)"

definition CHECK_IO_ON :: u8 where [simp]: "CHECK_IO_ON = 0"
definition CHECK_IO_OFF :: u8 where [simp]: "CHECK_IO_OFF = 1"

definition IoCheckProgram :: "device \<Rightarrow> u16 \<Rightarrow> u8 \<Rightarrow> uart_task \<times> world \<Rightarrow> uart_task \<times> world" where
  "IoCheckProgram dev period state = (\<lambda>(t, w).
     if io_Laststate t \<noteq> state then
       if unat (io_continueTime t) < unat period * 30
       then (t\<lparr>io_continueTime := io_continueTime t + period\<rparr>, w)
       else
         (t\<lparr>io_Laststate := state\<rparr>,
          let sel = mi_select (getModuleInfo w) in
          if state = CHECK_IO_ON then
            if sel = SELECT_MATCH then sendMatchOnTest dev w
            else if sel = SELECT_LEARN then sendlearnOn dev w else w
          else if state = CHECK_IO_OFF then
            if sel = SELECT_MATCH then sendMatchOffTest dev w
            else if sel = SELECT_LEARN then sendlearnOff dev w else w
          else w)
     else (t\<lparr>io_continueTime := 0\<rparr>, w))"

definition uart_io :: "u8 \<Rightarrow> uart_task \<times> world \<Rightarrow> uart_task \<times> world" where
  "uart_io io = (\<lambda>(t, w).
     if mi_register_state (getModuleInfo w) \<noteq> REGISTER_SUCESS
     then IoCheckProgram UART2 UART_PERIOD io (t, w) else (t, w))"

subsection \<open>A message from the hub\<close>

definition uart_registered :: "world \<Rightarrow> world" where
  "uart_registered w = upd_info (mi_register_state_update (\<lambda>_. REGISTER_SUCESS)) w"

definition uart_master :: "(nat \<Rightarrow> nat \<Rightarrow> bytes option) \<Rightarrow> uart_task \<times> world \<Rightarrow> (uart_task \<times> world) option" where
  "uart_master heap = (\<lambda>(t, w).
     let msg = uart1_msg w; d = rx_data msg;
         done = (\<lambda>w. w\<lparr>uart1_msg := (uart1_msg w)\<lparr>messageFlag := NO\<rparr>\<rparr>)
     in if messageFlag msg = YES then
          if d ! 0 = REGISTER_CODE then
            if rx_size msg \<ge> 6 then
              let uuid = push_bit 24 (ucast (d ! 2)) OR push_bit 16 (ucast (d ! 3)) OR
                         push_bit 8 (ucast (d ! 4)) OR (ucast (d ! 5) :: u32);
                  w = (if uuid = ReadUniqueId (chip_id w)
                       then upd_info (mi_addr_update (\<lambda>_. d ! 7)) (uart_registered w) else w)
              in Some (t, done (setMasterEvent EVENT_CLEAN w))
            else Some (t, done w)
          else if d ! 0 = mi_addr (getModuleInfo w) then do {
            (_, w) \<leftarrow> analyzeMasterData heap d (rx_size msg) w;
            Some (t\<lparr>connect_monitor := 0\<rparr>, done (setMasterEvent EVENT_CLEAN (uart_registered w)))
          }
          else Some (t, done w)
        else Some (t, w))"

subsection \<open>An answer of the code library\<close>

definition set_event :: "u8 \<Rightarrow> uart_task \<Rightarrow> uart_task" where
  "set_event e t = t\<lparr>ut_event := (ut_event t)\<lparr>event := e\<rparr>\<rparr>"

text \<open>\<open>sizeof(type_codedata_recv)\<close> and \<open>sizeof(type_recv_match)\<close> are both 7. The result of
  \<open>codeDataRecvResult\<close>, computed from the seven bytes at the address of its parameter, is not used.\<close>

definition learn_answer :: "u8 \<Rightarrow> uart_task \<times> world \<Rightarrow> (uart_task \<times> world) option" where
  "learn_answer cb = (\<lambda>(t, w).
     let state_code = rx_data (uart2_msg w) ! 5
     in if state_code = 1 then do {
          w \<leftarrow> run_call_back (ev_call_back (ut_event t)) cb w;
          Some (t, setinfraredEvent (ut_event t) w)
        }
        else if state_code = 3 then
          let t = set_event EVENT_NULL t in Some (t, pageReturn (setinfraredEvent (ut_event t) w))
        else Some (t, w))"

definition ac_answer :: "uart_task \<times> world \<Rightarrow> (uart_task \<times> world) option" where
  "ac_answer = (\<lambda>(t, w).
     let msg = uart2_msg w; d = rx_data msg; ev = event (ut_event t)
     in if rx_size msg \<noteq> 7 then Some (t, w)
        else if ev = EVENT_SEND_MATCH then
          let _ = codeDataRecvResult (stray_bytes At_recv_parameter 7 w) in
          if mk16 (d ! 0) (d ! 1) \<noteq> 0 \<and> d ! 3 = 0x41 then
            let w = upd_info (mi_brand_code_update (\<lambda>_. mk16 (d ! 4) (d ! 5))) w;
                t = set_event EVENT_SEND_SAVE t
            in do {
              w \<leftarrow> run_call_back (ev_call_back (ut_event t)) INFRARED_EVENT_MATCH_OK w;
              Some (t, setinfraredEvent (ut_event t) w)
            }
          else Some (t, w)
        else if ev = EVENT_SEND_SAVE then
          let _ = codeDataRecvResult (stray_bytes At_recv_parameter 7 w);
              t = set_event EVENT_NULL t
          in do {
            w \<leftarrow> run_call_back (ev_call_back (ut_event t)) INFRARED_EVENT_SAVE_OK w;
            Some (t, setinfraredEvent (ut_event t) w)
          }
        else if ev = EVENT_SEND_LEARN_MODE_ON then learn_answer CB_IN_LEARN_ON (t, w)
        else if ev = EVENT_SEND_LEARN_MODE_OFF then learn_answer CB_IN_LEARN_OFF (t, w)
        else Some (t, w))"

definition uart_ac :: "uart_task \<times> world \<Rightarrow> (uart_task \<times> world) option" where
  "uart_ac = (\<lambda>(t, w).
     if messageFlag (uart2_msg w) = YES
     then map_option (\<lambda>(t, w). (t, w\<lparr>uart2_msg := (uart2_msg w)\<lparr>messageFlag := NO\<rparr>\<rparr>)) (ac_answer (t, w))
     else Some (t, w))"

subsection \<open>Saving the module record\<close>

definition uart_persist :: "flash_hw \<Rightarrow> uart_task \<times> world \<Rightarrow> (uart_task \<times> world) option" where
  "uart_persist hw = (\<lambda>(t, w).
     let m = getModuleInfo w
     in if mi_brand_code (modulePre t) \<noteq> mi_brand_code m \<or> mi_addr (modulePre t) \<noteq> mi_addr m \<or>
           mi_select (modulePre t) \<noteq> mi_select m
        then do {
          fl \<leftarrow> setDataToFlah hw DATA_BLOCK_START (info_bytes m) (flash_mem w);
          Some (t\<lparr>modulePre := m\<rparr>, w\<lparr>flash_mem := fl\<rparr>)
        }
        else Some (t, w))"

subsection \<open>Periodic work\<close>

definition uart_100ms :: "uart_task \<times> world \<Rightarrow> uart_task \<times> world" where
  "uart_100ms = (\<lambda>(t, w).
     if ut_Timer100msTouch t = YES \<and> mi_find_location (getModuleInfo w) = YES then
       if find_location_cnt t < 600 then (t\<lparr>find_location_cnt := find_location_cnt t + 1\<rparr>, LED_TEST w)
       else (t\<lparr>find_location_cnt := 0\<rparr>, upd_info (mi_find_location_update (\<lambda>_. NO)) w)
     else (t, w))"

text \<open>Sending the pending command to the code library.\<close>

definition uart_1s_ac :: "uart_task \<times> world \<Rightarrow> uart_task \<times> world" where
  "uart_1s_ac = (\<lambda>(t, w).
     let ev = event (ut_event t); sel = mi_select (getModuleInfo w);
         finish = (\<lambda>w. let t = set_event EVENT_NULL t in (t, setinfraredEvent (ut_event t) w))
     in if ev = EVENT_SEND_MATCH then (t, sendMatchDataToCodeData UART2 w)
        else if ev = EVENT_SEND_SAVE then (t, sendSaveCommandToCodeData UART2 w)
        else if ev = EVENT_SEND_ON_TEST then
          finish (if sel = SELECT_MATCH then sendMatchOnTest UART2 w
                  else if sel = SELECT_LEARN then sendlearnOn UART2 w else w)
        else if ev = EVENT_SEND_OFF_TEST then
          finish (if sel = SELECT_MATCH then sendMatchOffTest UART2 w else sendlearnOff UART2 w)
        else if ev = EVENT_SEND_LEARN_MODE_ON then (t, sendInLearnOnMode UART2 w)
        else if ev = EVENT_SEND_LEARN_MODE_OFF then (t, sendInLearnOffMode UART2 w)
        else if ev = EVENT_SEND_MATCH_OVER then finish (sendMatchOver UART2 w)
        else if ev = EVENT_SEND_LEARN_ON_OVER then finish (sendLearnOnOver UART2 w)
        else if ev = EVENT_SEND_LEARN_OFF_OVER then finish (sendLearnOffOver UART2 w)
        else (t, w))"

definition uart_1s_led :: "world \<Rightarrow> world" where
  "uart_1s_led w =
     (if mi_find_location (getModuleInfo w) = NO then
        if drop_bit 15 (mi_ctrl (getModuleInfo w)) \<noteq> 0 then LED_ON w else LED_TEST w
      else w)"

definition uart_1s_hub :: "uart_task \<times> world \<Rightarrow> uart_task \<times> world" where
  "uart_1s_hub = (\<lambda>(t, w).
     let (t, w) = (if startFlag t = NO then (t\<lparr>startFlag := YES\<rparr>, sendRegisterToMaster w) else (t, w))
     in if connect_monitor t < 30 then (t\<lparr>connect_monitor := connect_monitor t + 1\<rparr>, w)
        else (t, setMasterEvent EVENT_REGISTER w))"

text \<open>A changed control word is sent at once and twice more.\<close>

definition uart_1s_ctrl :: "uart_task \<times> world \<Rightarrow> uart_task \<times> world" where
  "uart_1s_ctrl = (\<lambda>(t, w).
     if ctrl_pre t \<noteq> mi_ctrl (getModuleInfo w)
     then (t\<lparr>ctrl_pre := mi_ctrl (getModuleInfo w), sendCmdCnt := 0\<rparr>, sendCtrlCommandToCodeData UART2 w)
     else if sendCmdCnt t < 2
     then (t\<lparr>sendCmdCnt := sendCmdCnt t + 1\<rparr>, sendCtrlCommandToCodeData UART2 w)
     else (t, w))"

definition uart_1s :: "uart_task \<times> world \<Rightarrow> uart_task \<times> world" where
  "uart_1s = (\<lambda>(t, w).
     if ut_Timer1sTouch t = YES then
       let t = t\<lparr>ut_event := getInfraredEvent w, ut_master_event := getMasterEvent w\<rparr>;
           (t, w) = uart_1s_ac (t, w);
           (t, w) = uart_1s_hub (t, uart_1s_led w)
       in uart_1s_ctrl (t, w)
     else (t, w))"

definition uart_5s :: "uart_task \<times> world \<Rightarrow> uart_task \<times> world" where
  "uart_5s = (\<lambda>(t, w).
     if ut_Timer5sTouch t = YES \<and> mi_register_state (getModuleInfo w) \<noteq> REGISTER_SUCESS
     then (t, setMasterEvent EVENT_REGISTER w) else (t, w))"

definition uart_10s :: "uart_task \<times> world \<Rightarrow> uart_task \<times> world" where
  "uart_10s = (\<lambda>(t, w).
     if ut_Timer10sTouch t = YES
     then (t\<lparr>startCheckIo := YES\<rparr>, if ut_master_event t = EVENT_REGISTER then sendRegisterToMaster w else w)
     else (t, w))"

definition uart_periodic :: "uart_task \<times> world \<Rightarrow> uart_task \<times> world" where
  "uart_periodic s = (case uart_10s (uart_5s (uart_1s (uart_100ms s))) of
     (t, w) \<Rightarrow> (t, task_mdelay (unat UART_PERIOD) w))"

definition UartTaskEntry_loop ::
  "flash_hw \<Rightarrow> (nat \<Rightarrow> nat \<Rightarrow> bytes option) \<Rightarrow> u8 \<Rightarrow> uart_task \<times> world \<Rightarrow> (uart_task \<times> world) option" where
  "UartTaskEntry_loop hw heap io = (\<lambda>(t, w). do {
     s \<leftarrow> uart_master heap (uart_io io (uart_timers t, w));
     s \<leftarrow> uart_ac s;
     s \<leftarrow> uart_persist hw s;
     Some (uart_periodic s)
   })"

end
