(* ===== verification/Uart_Props.thy ===== *)
theory Uart_Props
  imports Uart_Task
begin

text \<open>
  Properties of the communication task: which frames the receive interrupt accepts, the
  registration handshake, how often a command is sent, what survives a reset, and how the
  external input is debounced.
\<close>

section \<open>Receiving\<close>

definition msg_ok :: "rx_msg \<Rightarrow> bool" where
  "msg_ok m \<longleftrightarrow> length (rx_data m) = UART_MSG_SIZE"

lemma crc_residue_take:
  assumes "2 \<le> length bs"
  shows "mk16 (bs ! (length bs - 1)) (bs ! (length bs - 2)) = usModbusRTU_CRC (take (length bs - 2) bs)
    \<longleftrightarrow> usModbusRTU_CRC bs = 0"
proof -
  let ?n = "length bs - 2"
  have "bs = take ?n bs @ [bs ! ?n, bs ! Suc ?n]"
    using assms id_take_nth_drop [of ?n bs] by (simp add: Cons_nth_drop_Suc [symmetric] numeral_2_eq_2)
  then have "usModbusRTU_CRC bs = fold usModbusRTU_byte [bs ! ?n, bs ! Suc ?n] (usModbusRTU_CRC (take ?n bs))"
    by (metis fold_append comp_apply usModbusRTU_CRC_def)
  moreover have "length bs - 1 = Suc ?n" using assms by simp
  ultimately show ?thesis by (simp only: modbus_state_of_frame) auto
qed

text \<open>What the interrupt does with a frame that fits the buffer.\<close>

lemma Uart1_input_effect:
  assumes "msg_ok (uart1_msg w)" "length bs \<le> 100"
  shows "Uart1_input (length bs) bs w = Some (w\<lparr>uart1_msg :=
    \<lparr>rx_size = length bs,
     messageFlag = (if 2 \<le> length bs \<and> (bs ! 0 = REGISTER_CODE \<or> bs ! 0 = mi_addr (module_info w)) \<and> usModbusRTU_CRC bs = 0
       then YES else messageFlag (uart1_msg w)),
     rx_data = bs @ drop (length bs) (rx_data (uart1_msg w))\<rparr>\<rparr>)"
proof -
  let ?d = "bs @ drop (length bs) (rx_data (uart1_msg w))"
  have put: "put_bytes 0 bs (rx_data (uart1_msg w)) = Some ?d" using assms by (simp add: msg_ok_def)
  show ?thesis
  proof (cases "2 \<le> length bs")
    case True
    then have "0 < length bs" "length bs - 1 < length bs" "length bs - 2 < length bs" by linarith+
    then have d: "?d ! 0 = bs ! 0" "?d ! (length bs - 1) = bs ! (length bs - 1)"
      "?d ! (length bs - 2) = bs ! (length bs - 2)" "take (length bs - 2) ?d = take (length bs - 2) bs"
      by (simp_all add: nth_append)
    have small: "(2 > length bs) = False" "(length bs > UART_MSG_SIZE) = False" using True assms(2) by simp_all
    obtain sz f dd where m: "uart1_msg w = \<lparr>rx_size = sz, messageFlag = f, rx_data = dd\<rparr>" by (cases "uart1_msg w")
    show ?thesis
      unfolding Uart1_input_def put Let_def bind.bind_lunit small if_False
      by (simp only: rx_msg.simps world.simps d crc_residue_take [OF True]) (use True in \<open>auto simp: m fw_defs\<close>)
  next
    case False
    then show ?thesis unfolding Uart1_input_def put by (cases "uart1_msg w") (simp add: Let_def)
  qed
qed

text \<open>
  C10: while no message is pending, the receive interrupt of the hub line stores a frame of 1 to 100 bytes at the start of
  the message buffer and raises the message flag exactly if the frame has at least two bytes, starts with the module's
  address or with the registration code, and its CRC is right. In particular the broadcast address 0, which the
  requirements document wants answered as well, is not accepted by a module with another address.
\<close>

theorem Uart1_input_accepts:
  assumes "msg_ok (uart1_msg w)" "1 \<le> length bs" "length bs \<le> 100" "messageFlag (uart1_msg w) = NO"
  shows "\<exists>w'. Uart1_input (length bs) bs w = Some w' \<and> take (length bs) (rx_data (uart1_msg w')) = bs \<and>
    (messageFlag (uart1_msg w') = YES \<longleftrightarrow>
       2 \<le> length bs \<and> (bs ! 0 = REGISTER_CODE \<or> bs ! 0 = mi_addr (module_info w)) \<and> usModbusRTU_CRC bs = 0)"
  using Uart1_input_effect [OF assms(1,3)] assms(4) by simp

definition test_world :: world where
  "test_world = (reset_world (\<lambda>_. 0xFF) (1, 2, 3) (\<lambda>_ _. 0) (\<lambda>_. 0))
     \<lparr>module_info := reset_info\<lparr>mi_addr := 1\<rparr>\<rparr>"

lemma test_world_msg:
  "msg_ok (uart1_msg test_world)" "messageFlag (uart1_msg test_world) = NO"
  "mi_addr (module_info test_world) = 1"
  by (simp_all add: test_world_def reset_world_def reset_msg_def msg_ok_def)

theorem Uart1_input_accepts_witness:
  "\<exists>w'. Uart1_input 8 (seal [1, 6, 1, 0, 0xE0, 0]) test_world = Some w' \<and> messageFlag (uart1_msg w') = YES"
proof -
  have len: "length (seal [1, 6, 1, 0, 0xE0, 0]) = 8" and first: "seal [1, 6, 1, 0, 0xE0, 0] ! 0 = 1"
    by (simp_all add: seal_def)
  show ?thesis
    using Uart1_input_accepts [of test_world "seal [1, 6, 1, 0, 0xE0, 0]", unfolded len first]
      seal_residue [of "[1, 6, 1, 0, 0xE0, 0]"] test_world_msg by auto
qed

lemma info_replyDataToMaster:
  "replyDataToMaster malloc rw dat reg len w = Some w' \<Longrightarrow> module_info w' = module_info w"
  by (auto simp: replyDataToMaster_def Let_def bind_eq_Some_conv split: if_splits option.splits)

lemma analyze_write_ctrl:
  assumes "rt_heap heap" "d ! 1 = 6" "d ! 2 = 1" "d ! 3 = 0"
  shows "\<exists>r w'. analyzeMasterData heap d 8 w = Some (r, w') \<and> mi_ctrl (module_info w') = mk16 (d ! 4) (d ! 5)"
proof -
  let ?w = "setRegister REGISTER_CTRL (mk16 (d ! 4) (d ! 5)) w"
  obtain r w' where ok: "analyzeMasterData heap d 8 w = Some (r, w')"
    using analyzeMasterData_ok [OF assms(1)] by blast
  have reg: "mk16 1 0 = REGISTER_CTRL" by (simp add: mk16_def)
  have get: "getRegister REGISTER_CTRL ?w = (fst (getRegister REGISTER_CTRL ?w), ?w)"
    using getRegister_writable [of REGISTER_CTRL ?w] by (metis prod.collapse)
  have "module_info w' = module_info ?w"
  proof (cases "heap 0 2")
    case None
    with ok assms reg show ?thesis by (auto simp: analyzeMasterData_def Let_def)
  next
    case (Some b)
    with ok assms(2-4) have "\<exists>blk. replyDataToMaster (heap 1) WRITE_SINGLE blk REGISTER_CTRL 2 ?w = Some w'"
      unfolding analyzeMasterData_def Let_def reg [folded assms(3,4)]
      by (subst (asm) get) (auto simp: bind_eq_Some_conv)
    then show ?thesis using info_replyDataToMaster by blast
  qed
  then have "mi_ctrl (module_info w') = mk16 (d ! 4) (d ! 5)"
    by (simp add: setRegister_def upd_info_def)
  with ok show ?thesis by blast
qed

text \<open>
  C37: a pending message is not protected. If another frame arrives before the task has
  handled a flagged one, its bytes replace the message while the flag stays set, whatever
  its CRC: the task then executes a write to the control register whose CRC was never right.
\<close>

theorem unchecked_frame_executed:
  fixes h l x y :: u8
  assumes "msg_ok (uart1_msg w)" "messageFlag (uart1_msg w) = YES" "rt_heap heap"
    and "mi_addr (module_info w) \<noteq> REGISTER_CODE"
  defines "bs \<equiv> [mi_addr (module_info w), 6, 1, 0, h, l, x, y]"
  shows "\<exists>w1 t2 w2. Uart1_input 8 bs w = Some w1 \<and> uart_master heap (t, w1) = Some (t2, w2) \<and>
           mi_ctrl (module_info w2) = mk16 h l"
proof -
  let ?d = "bs @ drop 8 (rx_data (uart1_msg w))"
  have len: "length bs = 8" by (simp add: bs_def)
  have put: "put_bytes 0 bs (rx_data (uart1_msg w)) = Some ?d"
    using assms(1) len by (simp add: msg_ok_def)
  let ?w1 = "w\<lparr>uart1_msg := \<lparr>rx_size = 8, messageFlag = YES, rx_data = ?d\<rparr>\<rparr>"
  have in1: "Uart1_input 8 bs w = Some ?w1"
    unfolding Uart1_input_def put using assms(2) by (simp add: Let_def)
  have d: "?d ! 0 = mi_addr (module_info w)" "?d ! 1 = 6" "?d ! 2 = 1" "?d ! 3 = 0" "?d ! 4 = h" "?d ! 5 = l"
    by (simp_all add: bs_def)
  obtain r w' where a: "analyzeMasterData heap ?d 8 ?w1 = Some (r, w')" "mi_ctrl (module_info w') = mk16 h l"
    using analyze_write_ctrl [OF assms(3), of ?d ?w1] d by auto
  show ?thesis
    using in1 a d(1) assms(4) by (auto simp: uart_master_def Let_def fw_defs uart_registered_def upd_info_def)
qed

theorem unchecked_frame_executed_witness:
  "\<exists>w1 t2 w2. Uart1_input 8 [1, 6, 1, 0, 0xE0, 0, 0, 0]
       (test_world\<lparr>uart1_msg := reset_msg\<lparr>messageFlag := YES\<rparr>\<rparr>) = Some w1 \<and>
     uart_master ref_heap (fst (UartTaskEntry_start test_world), w1) = Some (t2, w2) \<and>
     mi_ctrl (module_info w2) = mk16 0xE0 0"
  using unchecked_frame_executed [of "test_world\<lparr>uart1_msg := reset_msg\<lparr>messageFlag := YES\<rparr>\<rparr>" ref_heap
      "0xE0" 0 0 0 "fst (UartTaskEntry_start test_world)"] rt_heap_ref test_world_msg
  by (simp add: msg_ok_def reset_msg_def)

section \<open>Registration\<close>

text \<open>The identifier of a registration reply, big-endian.\<close>

definition reply_uuid :: "bytes \<Rightarrow> u32" where
  "reply_uuid d = of_le32 [d ! 5, d ! 4, d ! 3, d ! 2]"

text \<open>
  C33: the registration handshake. A flagged registration message of at least 6 bytes
  registers the module under the address in its eighth byte exactly if it carries the
  identifier of this chip; otherwise the module record stays as it was. Either way the
  message is consumed and the pending registration event is cleared.
\<close>

theorem registration_handshake:
  assumes "messageFlag (uart1_msg w) = YES" "rx_data (uart1_msg w) ! 0 = REGISTER_CODE" "6 \<le> rx_size (uart1_msg w)"
  shows "\<exists>w'. uart_master heap (t, w) = Some (t, w') \<and>
     messageFlag (uart1_msg w') = NO \<and> mater_envent w' = EVENT_CLEAN \<and> trace w' = trace w \<and>
     module_info w' =
       (if reply_uuid (rx_data (uart1_msg w)) = ReadUniqueId (chip_id w)
        then (module_info w)\<lparr>mi_register_state := REGISTER_SUCESS, mi_addr := rx_data (uart1_msg w) ! 7\<rparr>
        else module_info w)"
proof -
  let ?d = "rx_data (uart1_msg w)"
  have "push_bit 24 (ucast (?d ! 2)) OR push_bit 16 (ucast (?d ! 3)) OR push_bit 8 (ucast (?d ! 4)) OR ucast (?d ! 5)
      = reply_uuid ?d"
    by (simp add: reply_uuid_def of_le32_def or.assoc or.commute or.left_commute)
  then show ?thesis using assms
    by (simp add: uart_master_def Let_def fw_defs uart_registered_def upd_info_def)
qed

definition reply_world :: world where
  "reply_world = test_world\<lparr>uart1_msg := \<lparr>rx_size = 10, messageFlag = YES,
     rx_data = [0xFA, 0] @ rev (le32 (ReadUniqueId (1, 2, 3))) @ [0, 9] @ replicate 92 0\<rparr>\<rparr>"

lemma reply_world_uuid: "reply_uuid (rx_data (uart1_msg reply_world)) = ReadUniqueId (chip_id reply_world)"
proof -
  let ?id = "ReadUniqueId (1, 2, 3)"
  have "reply_uuid (rx_data (uart1_msg reply_world)) = of_le32 (le32 ?id)"
    by (simp add: reply_world_def reply_uuid_def le32_def)
  then show ?thesis by (simp add: reply_world_def test_world_def reset_world_def)
qed

theorem registration_handshake_witness:
  "\<exists>w'. uart_master ref_heap (fst (UartTaskEntry_start test_world), reply_world) =
       Some (fst (UartTaskEntry_start test_world), w') \<and>
     mi_register_state (module_info w') = REGISTER_SUCESS \<and> mi_addr (module_info w') = 9"
proof -
  have "messageFlag (uart1_msg reply_world) = YES" "rx_data (uart1_msg reply_world) ! 0 = REGISTER_CODE"
    "6 \<le> rx_size (uart1_msg reply_world)" "rx_data (uart1_msg reply_world) ! 7 = 9"
    by (simp_all add: reply_world_def le32_def)
  with registration_handshake [of reply_world ref_heap "fst (UartTaskEntry_start test_world)"] reply_world_uuid
  show ?thesis by auto
qed

section \<open>Sending the control word\<close>

text \<open>The frame that carries a control word in match mode.\<close>

definition ctrl_frame :: "module_info \<Rightarrow> bytes" where
  "ctrl_frame m = (let dat = [0xAA, 0x55, 0x09, 0x00, 0x00, hi8 (mi_brand_code m), lo8 (mi_brand_code m),
     hi8 (mi_ctrl m), lo8 (mi_ctrl m), 0x00, 0x00] in dat @ [checkResult dat])"

text \<open>The frames of the learn mode, and the control word they leave behind.\<close>

definition learn_frame :: "bool \<Rightarrow> bytes" where
  "learn_frame on = (let dat = [0xAA, 0x55, 0x07, 0x84, 0x00, 0x00, 0x00, if on then 0x00 else 0x01, 0x01]
     in dat @ [checkResult dat])"

definition learn_ctrl :: "bool \<Rightarrow> u16" where
  "learn_ctrl on = (if on then 0xE000 else 0x6000)"

text \<open>A state in which sending the control word writes the frame \<open>F\<close> and does not change
  what is to be sent.\<close>

locale steady_command =
  fixes P :: "world \<Rightarrow> bool" and c :: u16 and F :: bytes
  assumes ctrl: "P w \<Longrightarrow> mi_ctrl (module_info w) = c"
    and sends: "P w \<Longrightarrow> trace (sendCtrlCommandToCodeData UART2 w) = trace w @ [Dev_write UART2 F]"
    and keeps: "P w \<Longrightarrow> P (sendCtrlCommandToCodeData UART2 w)"
begin

lemma resend:
  assumes "P w" "ctrl_pre t = c" "sendCmdCnt t = of_nat k" "k \<le> 2"
  shows "trace (snd ((uart_1s_ctrl ^^ n) (t, w))) = trace w @ replicate (min n (2 - k)) (Dev_write UART2 F)"
  using assms
proof (induction n arbitrary: t w k)
  case (Suc n)
  note c = ctrl [OF Suc.prems(1)]
  show ?case
  proof (cases "k = 2")
    case True
    with Suc.prems c have "uart_1s_ctrl (t, w) = (t, w)" by (simp add: uart_1s_ctrl_def fw_defs)
    with Suc.IH [OF Suc.prems(1-3)] True show ?thesis by (simp add: funpow_Suc_right del: funpow.simps)
  next
    case False
    let ?t = "t\<lparr>sendCmdCnt := sendCmdCnt t + 1\<rparr>" let ?w = "sendCtrlCommandToCodeData UART2 w"
    from False Suc.prems(4) have k: "k = 0 \<or> k = 1" by linarith
    with Suc.prems c have "uart_1s_ctrl (t, w) = (?t, ?w)" by (auto simp: uart_1s_ctrl_def fw_defs)
    moreover have "trace (snd ((uart_1s_ctrl ^^ n) (?t, ?w))) = trace ?w @ replicate (min n (2 - Suc k)) (Dev_write UART2 F)"
      using Suc.prems k keeps [OF Suc.prems(1)] by (intro Suc.IH) auto
    moreover have "replicate (min (Suc n) (2 - k)) z = z # replicate (min n (2 - Suc k)) z" for z :: effect
      using k by (auto simp: min_def numeral_2_eq_2)
    ultimately show ?thesis
      using sends [OF Suc.prems(1)] by (simp add: funpow_Suc_right del: funpow.simps)
  qed
qed simp

lemma after_change:
  assumes "P w" "ctrl_pre t \<noteq> c"
  shows "trace (snd ((uart_1s_ctrl ^^ n) (t, w))) = trace w @ replicate (min n 3) (Dev_write UART2 F)"
proof (cases n)
  case (Suc m)
  let ?t = "t\<lparr>ctrl_pre := c, sendCmdCnt := 0\<rparr>" let ?w = "sendCtrlCommandToCodeData UART2 w"
  have "uart_1s_ctrl (t, w) = (?t, ?w)" using assms ctrl by (simp add: uart_1s_ctrl_def fw_defs)
  moreover have "trace (snd ((uart_1s_ctrl ^^ m) (?t, ?w))) = trace ?w @ replicate (min m (2 - 0)) (Dev_write UART2 F)"
    using keeps [OF assms(1)] by (intro resend) simp_all
  moreover have "replicate (min (Suc m) 3) z = z # replicate (min m 2) z" for z :: effect
    by (simp add: min_def numeral_eq_Suc)
  ultimately show ?thesis
    using Suc sends [OF assms(1)] by (simp add: funpow_Suc_right del: funpow.simps)
qed simp

end

interpretation match_command: steady_command
  "\<lambda>w. module_info w = m \<and> mi_select m = SELECT_MATCH" "mi_ctrl m" "ctrl_frame m" for m
  by unfold_locales (simp_all add: sendCtrlCommandToCodeData_def Let_def ctrl_frame_def fw_defs io_defs)

lemma learn_send:
  assumes "mi_select (module_info w) = SELECT_LEARN"
  defines "on \<equiv> bit (mi_ctrl (module_info w)) 15"
  shows "trace (sendCtrlCommandToCodeData UART2 w) = trace w @ [Dev_write UART2 (learn_frame on)]"
    and "mi_select (module_info (sendCtrlCommandToCodeData UART2 w)) = SELECT_LEARN"
    and "mi_ctrl (module_info (sendCtrlCommandToCodeData UART2 w)) = learn_ctrl on"
  using assms(1) unfolding on_def
  by (simp_all add: sendCtrlCommandToCodeData_def Let_def bit15 learn_frame_def learn_ctrl_def fw_defs io_defs
      sendlearnOn_def sendlearnOff_def set_ac_def del: checkResult_Cons)

lemma bit15_learn_ctrl [simp]: "bit (learn_ctrl on) 15 = on"
  by (simp add: learn_ctrl_def)

interpretation learn_command: steady_command
  "\<lambda>w. mi_select (module_info w) = SELECT_LEARN \<and> mi_ctrl (module_info w) = learn_ctrl on" "learn_ctrl on" "learn_frame on" for on
  by unfold_locales (use learn_send in \<open>force+\<close>)

text \<open>
  In match mode a new control word is sent three times. After \<open>n\<close> one-second rounds
  from a change, with no other change, exactly \<open>min n 3\<close> copies of its frame have been
  written to the code library and nothing else.
\<close>

theorem ctrl_sent_three_times:
  assumes "mi_select (module_info w) = SELECT_MATCH" "ctrl_pre t \<noteq> mi_ctrl (module_info w)"
  shows "trace (snd ((uart_1s_ctrl ^^ n) (t, w))) =
    trace w @ replicate (min n 3) (Dev_write UART2 (ctrl_frame (module_info w)))"
  using assms by (intro match_command.after_change) simp_all

definition test_task :: uart_task where
  "test_task = (fst (UartTaskEntry_start test_world))\<lparr>ctrl_pre := 0\<rparr>"

theorem ctrl_sent_three_times_witness:
  "trace (snd ((uart_1s_ctrl ^^ 5) (test_task, test_world\<lparr>module_info := reset_info\<lparr>mi_ctrl := 0xE000\<rparr>\<rparr>))) =
     replicate 3 (Dev_write UART2 (ctrl_frame (reset_info\<lparr>mi_ctrl := 0xE000\<rparr>)))"
  using ctrl_sent_three_times [of "test_world\<lparr>module_info := reset_info\<lparr>mi_ctrl := 0xE000\<rparr>\<rparr>" test_task 5]
  by (simp add: test_task_def test_world_def reset_world_def reset_info_def)

text \<open>
  In learn mode a control word other than \<open>E000\<close> and \<open>6000\<close> is sent four times, not
  three: the learn command replaces the word, and the replaced word counts as a new change.
\<close>

theorem learn_ctrl_sent_four_times:
  assumes "mi_select (module_info w) = SELECT_LEARN" "ctrl_pre t \<noteq> mi_ctrl (module_info w)"
    and "mi_ctrl (module_info w) \<noteq> 0xE000" "mi_ctrl (module_info w) \<noteq> 0x6000"
  shows "trace (snd ((uart_1s_ctrl ^^ n) (t, w))) =
    trace w @ replicate (min n 4) (Dev_write UART2 (learn_frame (bit (mi_ctrl (module_info w)) 15)))"
proof (cases n)
  case (Suc m)
  let ?c = "mi_ctrl (module_info w)"
  let ?t = "t\<lparr>ctrl_pre := ?c, sendCmdCnt := 0\<rparr>" let ?w = "sendCtrlCommandToCodeData UART2 w"
  have "uart_1s_ctrl (t, w) = (?t, ?w)" using assms(2) by (simp add: uart_1s_ctrl_def fw_defs)
  moreover have "trace (snd ((uart_1s_ctrl ^^ m) (?t, ?w))) =
      trace ?w @ replicate (min m 3) (Dev_write UART2 (learn_frame (bit ?c 15)))"
    using learn_send [OF assms(1)] assms(3,4) by (intro learn_command.after_change) (auto simp: learn_ctrl_def)
  moreover have "replicate (min (Suc m) 4) z = z # replicate (min m 3) z" for z :: effect
    by (simp add: min_def numeral_eq_Suc)
  ultimately show ?thesis
    using Suc learn_send(1) [OF assms(1)] by (simp add: funpow_Suc_right del: funpow.simps)
qed simp

theorem learn_ctrl_sent_four_times_witness:
  "trace (snd ((uart_1s_ctrl ^^ 9) (test_task, test_world\<lparr>module_info := reset_info\<lparr>mi_ctrl := 0xE500, mi_select := 1\<rparr>\<rparr>))) =
     replicate 4 (Dev_write UART2 (learn_frame True))"
  using learn_ctrl_sent_four_times [of "test_world\<lparr>module_info := reset_info\<lparr>mi_ctrl := 0xE500, mi_select := 1\<rparr>\<rparr>" test_task 9]
  by (simp add: test_task_def test_world_def reset_world_def reset_info_def)

section \<open>What survives a reset\<close>

lemma save_and_load:
  assumes "nor_flash hw" "length buf = 12"
  shows "\<exists>fl'. setDataToFlah hw DATA_BLOCK_START (info_bytes m) fl = Some fl' \<and>
           getDataFromFlash DATA_BLOCK_START buf fl' = info_bytes m"
proof -
  have page: "GetPage DATA_BLOCK_START = DATA_BLOCK_START" "unat DATA_BLOCK_START + 12 \<le> 0x08020000"
    by (simp_all add: GetPage_def FLASH_PAGE_SIZE_def DATA_BLOCK_START_def)
  have "setDataToFlah hw DATA_BLOCK_START (info_bytes m) fl =
      Some (store_at DATA_BLOCK_START (info_bytes m) (erased_page DATA_BLOCK_START fl))"
    using assms(1) page by (intro setDataToFlah_stores [where k = 3]) simp_all
  moreover have "getDataFromFlash DATA_BLOCK_START buf
      (store_at DATA_BLOCK_START (info_bytes m) (erased_page DATA_BLOCK_START fl)) = info_bytes m"
    using assms(2) page by (intro read_stored) simp_all
  ultimately show ?thesis by blast
qed

text \<open>What the module keeps over a reset, and what the flash holds of it.\<close>

definition settings :: "module_info \<Rightarrow> u16 \<times> u8 \<times> u8" where
  "settings m = (mi_brand_code m, mi_addr m, mi_select m)"

definition stored_info :: "flash \<Rightarrow> module_info" where
  "stored_info fl = info_of_bytes (getDataFromFlash DATA_BLOCK_START (info_bytes reset_info) fl)"

text \<open>The start of the task after a reset: the address is the stored one only if the stored checksum happens to be the one
  of the ten bytes behind the record.\<close>

lemma start_settings:
  "settings (module_info (snd (UartTaskEntry_start (reset_world fl ids beyond after)))) =
     (mi_brand_code (stored_info fl),
      if mi_crc (stored_info fl) = usModbusRTU_CRC (map (beyond Behind_module_info) [0..<10]) then mi_addr (stored_info fl) else 1,
      if mi_select (stored_info fl) = SELECT_LEARN then SELECT_LEARN else SELECT_MATCH)"
  by (simp add: UartTaskEntry_start_def Let_def initModuleInfo_def fw_defs upd_info_def settings_def stored_info_def
      reset_world_def stray_bytes_def stray_clear_def SIZEOF_INFO_def)

lemma persist_settings:
  assumes "nor_flash hw" "uart_persist hw (t, w) = Some (t', w')" "settings (modulePre t) \<noteq> settings (module_info w)"
  shows "stored_info (flash_mem w') = module_info w" "module_info w' = module_info w" "modulePre t' = module_info w"
proof -
  obtain fl where fl: "setDataToFlah hw DATA_BLOCK_START (info_bytes (module_info w)) (flash_mem w) = Some fl"
    "getDataFromFlash DATA_BLOCK_START (info_bytes reset_info) fl = info_bytes (module_info w)"
    using save_and_load [OF assms(1), of "info_bytes reset_info"] by auto
  have "uart_persist hw (t, w) = Some (t\<lparr>modulePre := module_info w\<rparr>, w\<lparr>flash_mem := fl\<rparr>)"
    using assms(3) fl(1) by (auto simp: uart_persist_def Let_def fw_defs settings_def)
  with assms(2) fl(2) show "stored_info (flash_mem w') = module_info w" "module_info w' = module_info w" "modulePre t' = module_info w"
    by (auto simp: stored_info_def)
qed

text \<open>The periodic work changes neither the settings nor the flash.\<close>

definition keeps_settings :: "world \<Rightarrow> world \<Rightarrow> bool" where
  "keeps_settings w v \<longleftrightarrow> flash_mem v = flash_mem w \<and> settings (module_info v) = settings (module_info w)"

lemma keeps_refl [simp]: "keeps_settings w w"
  by (simp add: keeps_settings_def)

lemma keeps_sends:
  "keeps_settings w v \<Longrightarrow> keeps_settings w (sendMatchDataToCodeData d v)" "keeps_settings w v \<Longrightarrow> keeps_settings w (sendSaveCommandToCodeData d v)"
  "keeps_settings w v \<Longrightarrow> keeps_settings w (sendMatchOnTest d v)" "keeps_settings w v \<Longrightarrow> keeps_settings w (sendMatchOffTest d v)"
  "keeps_settings w v \<Longrightarrow> keeps_settings w (sendlearnOn d v)" "keeps_settings w v \<Longrightarrow> keeps_settings w (sendlearnOff d v)"
  "keeps_settings w v \<Longrightarrow> keeps_settings w (sendInLearnOnMode d v)" "keeps_settings w v \<Longrightarrow> keeps_settings w (sendInLearnOffMode d v)"
  "keeps_settings w v \<Longrightarrow> keeps_settings w (sendMatchOver d v)" "keeps_settings w v \<Longrightarrow> keeps_settings w (sendLearnOnOver d v)"
  "keeps_settings w v \<Longrightarrow> keeps_settings w (sendLearnOffOver d v)" "keeps_settings w v \<Longrightarrow> keeps_settings w (setinfraredEvent e v)"
  "keeps_settings w v \<Longrightarrow> keeps_settings w (setMasterEvent me v)" "keeps_settings w v \<Longrightarrow> keeps_settings w (LED_ON v)"
  "keeps_settings w v \<Longrightarrow> keeps_settings w (LED_TEST v)" "keeps_settings w v \<Longrightarrow> keeps_settings w (sendRegisterToMaster v)"
  "keeps_settings w v \<Longrightarrow> keeps_settings w (task_mdelay n v)"
  by (simp_all add: keeps_settings_def send_defs Let_def set_ac_def fw_defs io_defs settings_def upd_info_def LED_ON_def LED_TEST_def
      sendRegisterToMaster_def sendMessageToMaster_def task_mdelay_def setinfraredEvent_def setMasterEvent_def)

lemma keeps_ctrl: "keeps_settings w v \<Longrightarrow> keeps_settings w (sendCtrlCommandToCodeData d v)"
  by (auto simp: sendCtrlCommandToCodeData_def Let_def keeps_sends) (auto simp: keeps_settings_def fw_defs io_defs)

lemma periodic_sections_keep:
  "keeps_settings w v \<Longrightarrow> keeps_settings w (snd (uart_100ms (t, v))) \<and> modulePre (fst (uart_100ms (t, v))) = modulePre t"
  "keeps_settings w v \<Longrightarrow> keeps_settings w (snd (uart_1s_ac (t, v))) \<and> modulePre (fst (uart_1s_ac (t, v))) = modulePre t"
  "keeps_settings w v \<Longrightarrow> keeps_settings w (uart_1s_led v)"
  "keeps_settings w v \<Longrightarrow> keeps_settings w (snd (uart_1s_hub (t, v))) \<and> modulePre (fst (uart_1s_hub (t, v))) = modulePre t"
  "keeps_settings w v \<Longrightarrow> keeps_settings w (snd (uart_1s_ctrl (t, v))) \<and> modulePre (fst (uart_1s_ctrl (t, v))) = modulePre t"
  "keeps_settings w v \<Longrightarrow> keeps_settings w (snd (uart_5s (t, v))) \<and> modulePre (fst (uart_5s (t, v))) = modulePre t"
  "keeps_settings w v \<Longrightarrow> keeps_settings w (snd (uart_10s (t, v))) \<and> modulePre (fst (uart_10s (t, v))) = modulePre t"
proof -
  assume k: "keeps_settings w v"
  have "keeps_settings w (upd_info (mi_find_location_update (\<lambda>_. NO)) v)"
    using k by (simp add: keeps_settings_def settings_def upd_info_def)
  with k show "keeps_settings w (snd (uart_100ms (t, v))) \<and> modulePre (fst (uart_100ms (t, v))) = modulePre t"
    by (simp add: uart_100ms_def keeps_sends)
  show "keeps_settings w (snd (uart_1s_ac (t, v))) \<and> modulePre (fst (uart_1s_ac (t, v))) = modulePre t"
    using k by (simp add: uart_1s_ac_def Let_def keeps_sends set_event_def)
  show "keeps_settings w (uart_1s_led v)" using k by (simp add: uart_1s_led_def keeps_sends)
  show "keeps_settings w (snd (uart_1s_hub (t, v))) \<and> modulePre (fst (uart_1s_hub (t, v))) = modulePre t"
    using k by (simp add: uart_1s_hub_def Let_def keeps_sends)
  show "keeps_settings w (snd (uart_1s_ctrl (t, v))) \<and> modulePre (fst (uart_1s_ctrl (t, v))) = modulePre t"
    using k by (simp add: uart_1s_ctrl_def keeps_ctrl)
  show "keeps_settings w (snd (uart_5s (t, v))) \<and> modulePre (fst (uart_5s (t, v))) = modulePre t"
    using k by (simp add: uart_5s_def keeps_sends)
  show "keeps_settings w (snd (uart_10s (t, v))) \<and> modulePre (fst (uart_10s (t, v))) = modulePre t"
    using k by (simp add: uart_10s_def keeps_sends)
qed

lemma uart_1s_keeps:
  "keeps_settings w v \<Longrightarrow> keeps_settings w (snd (uart_1s (t, v))) \<and> modulePre (fst (uart_1s (t, v))) = modulePre t"
proof (cases "ut_Timer1sTouch t = YES")
  case True
  assume k: "keeps_settings w v"
  let ?t = "t\<lparr>ut_event := getInfraredEvent v, ut_master_event := getMasterEvent v\<rparr>"
  obtain t1 v1 where 1: "uart_1s_ac (?t, v) = (t1, v1)" by (cases "uart_1s_ac (?t, v)")
  obtain t2 v2 where 2: "uart_1s_hub (t1, uart_1s_led v1) = (t2, v2)" by (cases "uart_1s_hub (t1, uart_1s_led v1)")
  from k periodic_sections_keep(2) [of w v ?t] have k1: "keeps_settings w v1" "modulePre t1 = modulePre t" by (simp_all add: 1)
  from k1 periodic_sections_keep(4) [of w "uart_1s_led v1" t1] periodic_sections_keep(3) [of w v1]
  have "keeps_settings w v2" "modulePre t2 = modulePre t" by (simp_all add: 2)
  with periodic_sections_keep(5) [of w v2 t2] True 1 2 show ?thesis by (simp add: uart_1s_def Let_def)
qed (simp add: uart_1s_def)

lemma periodic_keeps: "uart_periodic (t, w) = (t', w') \<Longrightarrow> keeps_settings w w' \<and> modulePre t' = modulePre t"
proof -
  assume p: "uart_periodic (t, w) = (t', w')"
  obtain t1 v1 where 1: "uart_100ms (t, w) = (t1, v1)" by (cases "uart_100ms (t, w)")
  obtain t2 v2 where 2: "uart_1s (t1, v1) = (t2, v2)" by (cases "uart_1s (t1, v1)")
  obtain t3 v3 where 3: "uart_5s (t2, v2) = (t3, v3)" by (cases "uart_5s (t2, v2)")
  obtain t4 v4 where 4: "uart_10s (t3, v3) = (t4, v4)" by (cases "uart_10s (t3, v3)")
  have "keeps_settings w v1 \<and> modulePre t1 = modulePre t" using periodic_sections_keep(1) [of w w t] by (simp add: 1)
  then have "keeps_settings w v2 \<and> modulePre t2 = modulePre t" using uart_1s_keeps [of w v1 t1] by (simp add: 2)
  then have "keeps_settings w v3 \<and> modulePre t3 = modulePre t" using periodic_sections_keep(6) [of w v2 t2] by (simp add: 3)
  then have "keeps_settings w v4 \<and> modulePre t4 = modulePre t" using periodic_sections_keep(7) [of w v3 t3] by (simp add: 4)
  with p show ?thesis by (auto simp: uart_periodic_def 1 2 3 4 intro: keeps_sends)
qed

text \<open>Until the record is saved, a pass leaves the last saved copy alone.\<close>

lemma modulePre_kept:
  "modulePre (fst (uart_io io (uart_timers t, w))) = modulePre t"
  "uart_master heap (t, w) = Some (t', w') \<Longrightarrow> modulePre t' = modulePre t"
  "uart_ac (t, w) = Some (t', w') \<Longrightarrow> modulePre t' = modulePre t"
proof -
  show "modulePre (fst (uart_io io (uart_timers t, w))) = modulePre t"
    by (simp add: uart_io_def IoCheckProgram_def uart_timers_def Let_def split_beta)
  show "modulePre t' = modulePre t" if "uart_master heap (t, w) = Some (t', w')"
    using that by (auto simp: uart_master_def Let_def bind_eq_Some_conv split: if_splits)
  show "modulePre t' = modulePre t" if "uart_ac (t, w) = Some (t', w')"
    using that by (auto simp: uart_ac_def ac_answer_def learn_answer_def set_event_def Let_def bind_eq_Some_conv split: if_splits)
qed

text \<open>
  C13: what survives a reset. Whenever a pass of the communication task ends with a brand code, an address or a mode
  that differs from the last saved copy, that pass has written the record to flash, and the next start of the
  firmware has the same brand code and mode. It has the same address exactly if the checksum field of the saved
  record is the checksum of the ten bytes that then lie two structures behind the record (the check is made on the
  wrong memory), or the address is 1, which is what it is set to otherwise.
\<close>

theorem settings_survive_reset:
  assumes "nor_flash hw" "UartTaskEntry_loop hw heap io (t, w) = Some (t', w')"
    and "settings (modulePre t) \<noteq> settings (module_info w')"
    and "mi_select (module_info w') = SELECT_MATCH \<or> mi_select (module_info w') = SELECT_LEARN"
  shows "settings (stored_info (flash_mem w')) = settings (module_info w') \<and> modulePre t' = stored_info (flash_mem w') \<and>
    (let m' = module_info (snd (UartTaskEntry_start (reset_world (flash_mem w') ids beyond after)))
     in mi_brand_code m' = mi_brand_code (module_info w') \<and> mi_select m' = mi_select (module_info w') \<and>
        mi_addr m' =
          (if mi_crc (stored_info (flash_mem w')) = usModbusRTU_CRC (map (beyond Behind_module_info) [0..<10])
           then mi_addr (module_info w') else 1))"
proof -
  obtain t0 w0 where 0: "uart_io io (uart_timers t, w) = (t0, w0)" by (cases "uart_io io (uart_timers t, w)")
  obtain t1 w1 t2 w2 t3 w3 where l: "uart_master heap (t0, w0) = Some (t1, w1)" "uart_ac (t1, w1) = Some (t2, w2)"
    "uart_persist hw (t2, w2) = Some (t3, w3)" "uart_periodic (t3, w3) = (t', w')"
    using assms(2) by (auto simp: UartTaskEntry_loop_def 0 bind_eq_Some_conv)
  have pre: "modulePre t2 = modulePre t"
    using modulePre_kept(1) [of io t w] modulePre_kept(2) [OF l(1)] modulePre_kept(3) [OF l(2)] by (simp add: 0)
  note k = periodic_keeps [OF l(4)]
  have "module_info w3 = module_info w2" using l(3) by (auto simp: uart_persist_def Let_def bind_eq_Some_conv split: if_splits)
  then have "settings (modulePre t2) \<noteq> settings (module_info w2)" using assms(3) k pre by (simp add: keeps_settings_def)
  note p = persist_settings [OF assms(1) l(3) this]
  have st: "settings (stored_info (flash_mem w')) = settings (module_info w')" using k p by (simp add: keeps_settings_def)
  moreover have "modulePre t' = stored_info (flash_mem w')" using k p by (simp add: keeps_settings_def)
  moreover have "settings (module_info (snd (UartTaskEntry_start (reset_world (flash_mem w') ids beyond after)))) = (mi_brand_code (module_info w'),
      if mi_crc (stored_info (flash_mem w')) = usModbusRTU_CRC (map (beyond Behind_module_info) [0..<10])
      then mi_addr (module_info w') else 1, mi_select (module_info w'))"
    unfolding start_settings using st assms(4) by (auto simp: settings_def)
  ultimately show ?thesis by (simp add: settings_def Let_def)
qed

theorem settings_survive_reset_witness:
  "\<exists>t' w'. UartTaskEntry_loop ref_hw ref_heap 1 (test_task, test_world\<lparr>module_info := reset_info\<lparr>mi_brand_code := 40, mi_addr := 7\<rparr>\<rparr>) =
     Some (t', w') \<and>
   mi_brand_code (module_info (snd (UartTaskEntry_start (reset_world (flash_mem w') (1, 2, 3) (\<lambda>_ _. 0) (\<lambda>_. 0))))) = 40"
proof -
  let ?w = "test_world\<lparr>module_info := reset_info\<lparr>mi_brand_code := 40, mi_addr := 7\<rparr>\<rparr>"
  have f: "messageFlag (uart1_msg ?w) = NO" "messageFlag (uart2_msg ?w) = NO" "modulePre test_task = reset_info"
    by (simp_all add: test_world_def reset_world_def reset_msg_def test_task_def UartTaskEntry_start_def Let_def)
  have io: "uart_io 1 (uart_timers test_task, ?w) = ((uart_timers test_task)\<lparr>io_continueTime := 0\<rparr>, ?w)"
    by (simp add: uart_io_def IoCheckProgram_def fw_defs reset_info_def test_task_def UartTaskEntry_start_def Let_def uart_timers_def split_beta)
  let ?t = "(uart_timers test_task)\<lparr>io_continueTime := 0\<rparr>"
  have pre: "modulePre ?t = reset_info" using f(3) by (simp add: uart_timers_def Let_def split_beta)
  obtain fl where "setDataToFlah ref_hw DATA_BLOCK_START (info_bytes (module_info ?w)) (flash_mem ?w) = Some fl"
    using save_and_load [OF nor_flash_ref, of "info_bytes reset_info"] by auto
  then obtain t3 w3 where 3: "uart_persist ref_hw (?t, ?w) = Some (t3, w3)" "module_info w3 = module_info ?w"
    using pre by (auto simp: uart_persist_def Let_def fw_defs reset_info_def)
  obtain t' w' where 4: "uart_periodic (t3, w3) = (t', w')" by (cases "uart_periodic (t3, w3)")
  have l: "UartTaskEntry_loop ref_hw ref_heap 1 (test_task, ?w) = Some (t', w')"
    using f(1,2) 3(1) 4 by (simp add: UartTaskEntry_loop_def io uart_master_def uart_ac_def Let_def)
  have "settings (module_info w') = (40, 7, 0)"
    using periodic_keeps [OF 4] 3(2) by (simp add: keeps_settings_def settings_def reset_info_def)
  with settings_survive_reset [OF nor_flash_ref l, of "(1, 2, 3)" "\<lambda>_ _. 0" "\<lambda>_. 0"] f(3) l show ?thesis
    by (auto simp: settings_def reset_info_def Let_def)
qed

text \<open>The start-up check does not look at the record: whether the stored address is kept depends
  only on the checksum field and on the foreign memory, so a corrupted record is kept.\<close>

lemma initModuleInfo_ignores_record:
  assumes "mi_crc m' = usModbusRTU_CRC (stray_bytes Behind_module_info (SIZEOF_INFO - 2) w)"
  shows "module_info (initModuleInfo (w\<lparr>module_info := m'\<rparr>)) =
    m'\<lparr>mi_register_state := REGISTER_NULL, mi_type := INFRARED_TYPE\<rparr>"
  using assms by (simp add: initModuleInfo_def Let_def fw_defs upd_info_def stray_bytes_def)

section \<open>The external input\<close>

lemma io_settling:
  assumes "io_continueTime t = 0" "io_Laststate t \<noteq> s" "k \<le> 30"
  shows "(IoCheckProgram UART2 50 s ^^ k) (t, w) = (t\<lparr>io_continueTime := of_nat (50 * k)\<rparr>, w)"
  using assms(3)
proof (induction k)
  case 0
  show ?case using assms(1) by simp
next
  case (Suc k)
  have "unat (of_nat (50 * k) :: u16) = 50 * k" using Suc.prems by (simp add: unat_of_nat del: of_nat_mult)
  with Suc assms(2) show ?case by (simp add: IoCheckProgram_def del: of_nat_mult)
qed

text \<open>
  C34: the external input is debounced. From a settled state, up to 30 samples of the other
  level do nothing but count; the 31st makes that level the settled one and sends exactly
  one well-formed command, after which the switch state is the level (low is on).
\<close>

theorem io_debounced:
  assumes "io_continueTime t = 0" "io_Laststate t \<noteq> s" "n \<le> 30" "s = CHECK_IO_ON \<or> s = CHECK_IO_OFF"
    and "mi_select (module_info w) = SELECT_MATCH \<or> mi_select (module_info w) = SELECT_LEARN"
  shows "snd ((IoCheckProgram UART2 50 s ^^ n) (t, w)) = w \<and>
    (let (t', w') = (IoCheckProgram UART2 50 s ^^ 31) (t, w)
     in io_Laststate t' = s \<and> (\<exists>fr. trace w' = trace w @ [Dev_write UART2 fr] \<and> wf_frame fr) \<and>
        switchState w' = (if s = CHECK_IO_ON then YES else NO))"
proof -
  have "(IoCheckProgram UART2 50 s ^^ 31) (t, w) = IoCheckProgram UART2 50 s ((IoCheckProgram UART2 50 s ^^ 30) (t, w))"
    by (simp add: numeral_eq_Suc)
  also have "\<dots> = IoCheckProgram UART2 50 s (t\<lparr>io_continueTime := of_nat (50 * 30)\<rparr>, w)"
    using io_settling [OF assms(1,2), of 30] by simp
  finally have "(IoCheckProgram UART2 50 s ^^ 31) (t, w) = IoCheckProgram UART2 50 s (t\<lparr>io_continueTime := of_nat (50 * 30)\<rparr>, w)" .
  then show ?thesis using io_settling [OF assms(1-3)] assms(2,4,5) ac_frames ac_switch
    by (auto simp: IoCheckProgram_def Let_def fw_defs emits_frame_def)
qed

theorem io_debounced_witness:
  "snd ((IoCheckProgram UART2 50 0 ^^ 7) (test_task, test_world)) = test_world \<and>
   io_Laststate (fst ((IoCheckProgram UART2 50 0 ^^ 31) (test_task, test_world))) = 0"
proof -
  have "io_continueTime test_task = 0" "io_Laststate test_task = 1"
    by (simp_all add: test_task_def UartTaskEntry_start_def Let_def)
  moreover have "mi_select (module_info test_world) = 0"
    by (simp add: test_world_def reset_info_def)
  ultimately show ?thesis
    using io_debounced [of test_task 0 7 test_world] by (auto simp: split_beta)
qed

end
