(* ===== verification/Reactive.thy ===== *)
theory Reactive
  imports Main "HOL-Library.Monad_Syntax"
begin

text \<open>
  Interfaces of a system that takes one input at a time. They are interpreted on the firmware, on the
  whole board and on the kernel.
\<close>

section \<open>Contracts of a reactive system\<close>

text \<open>A system that takes one input at a time: its run over a list of inputs is the composition
  of its steps.\<close>

locale reactive =
  fixes step :: "'i \<Rightarrow> 's \<Rightarrow> 's option" and run :: "'i list \<Rightarrow> 's \<Rightarrow> 's option"
  assumes run_Nil: "run [] s = Some s"
    and run_Cons: "run (i # is) s = Option.bind (step i s) (run is)"
begin

lemma run_append: "run (is @ js) s = Option.bind (run is s) (run js)"
proof (induction "is" arbitrary: s)
  case (Cons i "is")
  then show ?case by (cases "step i s") (simp_all add: run_Cons)
qed (simp add: run_Nil)

end

text \<open>Safety: an invariant under which every admissible input has a defined step that keeps
  it.\<close>

locale safe_system = reactive step run
  for step :: "'i \<Rightarrow> 's \<Rightarrow> 's option" and run :: "'i list \<Rightarrow> 's \<Rightarrow> 's option" +
  fixes adm :: "'i \<Rightarrow> bool" and inv :: "'s \<Rightarrow> bool"
  assumes step_ok: "inv s \<Longrightarrow> adm i \<Longrightarrow> \<exists>s'. step i s = Some s' \<and> inv s'"
begin

lemma run_ok: "inv s \<Longrightarrow> \<forall>i\<in>set is. adm i \<Longrightarrow> \<exists>s'. run is s = Some s' \<and> inv s'"
proof (induction "is" arbitrary: s)
  case (Cons i "is")
  with step_ok [of s i] obtain s1 where "step i s = Some s1" "inv s1" by auto
  with Cons show ?case by (simp add: run_Cons)
qed (simp add: run_Nil)

end

text \<open>Refinement: every step is matched by a step of an abstract transition relation.\<close>

locale refined_system = reactive step run
  for step :: "'i \<Rightarrow> 's \<Rightarrow> 's option" and run :: "'i list \<Rightarrow> 's \<Rightarrow> 's option" +
  fixes adm :: "'i \<Rightarrow> bool" and rep :: "'a \<Rightarrow> 's \<Rightarrow> bool" and move :: "'a \<Rightarrow> 'a \<Rightarrow> bool"
  assumes step_sim: "rep a s \<Longrightarrow> adm i \<Longrightarrow> \<exists>b s'. step i s = Some s' \<and> move a b \<and> rep b s'"
begin

lemma run_sim:
  "rep a s \<Longrightarrow> \<forall>i\<in>set is. adm i \<Longrightarrow> \<exists>b s'. run is s = Some s' \<and> move\<^sup>*\<^sup>* a b \<and> rep b s'"
proof (induction "is" arbitrary: a s)
  case (Cons i "is")
  with step_sim [of a s i] obtain b s1 where "step i s = Some s1" "move a b" "rep b s1" by auto
  with Cons.IH [of b s1] Cons.prems show ?case
    by (auto simp: run_Cons intro: converse_rtranclp_into_rtranclp)
qed (auto simp: run_Nil)

end

sublocale refined_system \<subseteq> safe_system step run adm "\<lambda>s. \<exists>a. rep a s"
  by unfold_locales (use step_sim in blast)

end
