(* ===== verification/System.thy ===== *)
theory System
  imports Navigation Uart_Props Reactive
begin

text \<open>
  The whole firmware: the shared state, the three tasks and the two receive interrupts, run
  in any order. A step is the start of a task, one pass of a task's loop, or one interrupt
  (interleaving is at the granularity of loop passes). It is an instance of the
  contracts of a reactive system, \<open>safe_system\<close> and \<open>refined_system\<close>.
\<close>

section \<open>The system\<close>

record system =
  sys_world :: world
  sys_uart :: "uart_task option"
  sys_oled :: "oled_task option"
  sys_button :: "button_task option"

text \<open>What can happen next: bytes arrive on a UART, or a task is scheduled (with the heap and
  the pin levels it then sees).\<close>

datatype input =
    Rx1 bytes
  | Rx2 bytes
  | Uart_pass "nat \<Rightarrow> nat \<Rightarrow> bytes option" u8
  | Oled_pass
  | Button_pass "pin \<Rightarrow> u8"

text \<open>After reset \<open>main\<close> has set up the pins and created the tasks; none has run.\<close>

definition sys_boot :: "flash \<Rightarrow> u32 \<times> u32 \<times> u32 \<Rightarrow> (stray_object \<Rightarrow> nat \<Rightarrow> u8) \<Rightarrow> (nat \<Rightarrow> u8) \<Rightarrow> system" where
  "sys_boot fl ids beyond after =
     \<lparr>sys_world = GpioInit (reset_world fl ids beyond after), sys_uart = None, sys_oled = None, sys_button = None\<rparr>"

text \<open>The receive handlers are installed by the start of the UART task. That task has the
  highest priority of the three, so the others have not run before it.\<close>

fun sys_step :: "flash_hw \<Rightarrow> input \<Rightarrow> system \<Rightarrow> system option" where
  "sys_step hw (Rx1 bs) s =
     (if sys_uart s = None then Some s
      else map_option (\<lambda>w. s\<lparr>sys_world := w\<rparr>) (Uart1_input (length bs) bs (sys_world s)))"
| "sys_step hw (Rx2 bs) s =
     (if sys_uart s = None then Some s
      else map_option (\<lambda>w. s\<lparr>sys_world := w\<rparr>) (Uart2_input (length bs) bs (sys_world s)))"
| "sys_step hw (Uart_pass heap io) s =
     (case sys_uart s of
        None \<Rightarrow> (case UartTaskEntry_start (sys_world s) of (t, w) \<Rightarrow> Some (s\<lparr>sys_world := w, sys_uart := Some t\<rparr>))
      | Some t \<Rightarrow> map_option (\<lambda>(t, w). s\<lparr>sys_world := w, sys_uart := Some t\<rparr>)
                   (UartTaskEntry_loop hw heap io (t, sys_world s)))"
| "sys_step hw Oled_pass s =
     (if sys_uart s = None then Some s
      else case sys_oled s of
        None \<Rightarrow> Some (s\<lparr>sys_world := OledTaskEntry_start (sys_world s), sys_oled := Some oled_statics\<rparr>)
      | Some t \<Rightarrow> map_option (\<lambda>(t, w). s\<lparr>sys_world := w, sys_oled := Some t\<rparr>)
                   (OledTaskEntry_loop (t, sys_world s)))"
| "sys_step hw (Button_pass pins) s =
     (if sys_uart s = None then Some s
      else case sys_button s of
        None \<Rightarrow> Some (s\<lparr>sys_button := Some (ButtonRegister button_statics)\<rparr>)
      | Some t \<Rightarrow> map_option (\<lambda>(t, w). s\<lparr>sys_world := w, sys_button := Some t\<rparr>)
                   (ButtonTaskEntry_loop pins (t, sys_world s)))"

fun sys_run :: "flash_hw \<Rightarrow> input list \<Rightarrow> system \<Rightarrow> system option" where
  "sys_run hw [] s = Some s"
| "sys_run hw (i # is) s = do { s \<leftarrow> sys_step hw i s; sys_run hw is s }"

text \<open>The environment: frames fit the message buffers; a match answer of the code library (seven bytes, command
  0x41) has a brand code below 10000 (the requirements document gives the codes as 0 to 9999); and the heap keeps the contract of RT-Thread's. Longer
  frames and larger codes make the program store past an array (see \<open>rx_overrun\<close> in \<open>Flows\<close>, and the
  properties of \<open>Navigation\<close>).\<close>

fun admissible :: "input \<Rightarrow> bool" where
  "admissible (Rx1 bs) = (length bs \<le> UART_MSG_SIZE)"
| "admissible (Rx2 bs) = (length bs \<le> UART_MSG_SIZE \<and> (length bs = 7 \<longrightarrow> bs ! 3 = 0x41 \<longrightarrow> unat (mk16 (bs ! 4) (bs ! 5)) < 10000))"
| "admissible (Uart_pass heap io) = rt_heap heap"
| "admissible _ = True"

section \<open>The invariant\<close>

definition io_inv :: "rx_msg \<times> rx_msg \<times> u16 \<Rightarrow> bool" where
  "io_inv k \<longleftrightarrow> (case k of (m1, m2, code) \<Rightarrow> msg_ok m1 \<and> msg_ok m2 \<and>
     (rx_size m2 = 7 \<longrightarrow> rx_data m2 ! 3 = 0x41 \<longrightarrow> unat (mk16 (rx_data m2 ! 4) (rx_data m2 ! 5)) < 10000))"

definition button_inv :: "button_task \<Rightarrow> bool" where
  "button_inv t \<longleftrightarrow> length (btn_cooling t) = 3 \<and>
     map b_call_back (buttonList t) = [KB_Enter, KB_Up, KB_Dowm]"

definition uart_inv :: "rx_msg \<times> rx_msg \<times> u16 \<Rightarrow> ui_page \<Rightarrow> uart_task \<times> world \<Rightarrow> bool" where
  "uart_inv k p = (\<lambda>(t, w). ui_inv k p w \<and> io_inv k \<and> event_ok (ut_event t) (snd (snd k)))"

section \<open>The UART task\<close>

lemmas send_all_defs = send_defs sendCtrlCommandToCodeData_def LED_ON_def LED_TEST_def
  sendRegisterToMaster_def sendMessageToMaster_def set_ac_def

lemma ui_upd_info [ui_ok]:
  "ui_inv k p w \<Longrightarrow> (\<And>m. mi_brand_code (f m) = mi_brand_code m) \<Longrightarrow> (\<And>m. mi_select (f m) = mi_select m) \<Longrightarrow>
   ui_inv k p (upd_info f w)"
  by (simp add: ui_inv_def upd_info_def shows_page_def mode_ok_def)

lemma ui_accessors [ui_ok]:
  "ui_inv k p w \<Longrightarrow> ui_inv k p (setSwitchState v w)" "ui_inv k p w \<Longrightarrow> ui_inv k p (setNowTemp v w)"
  "ui_inv k p w \<Longrightarrow> ui_inv k p (setMasterEvent v w)" "ui_inv k p w \<Longrightarrow> ui_inv k p (rt_pin_write pn v w)"
  "ui_inv k p w \<Longrightarrow> ui_inv k p (rt_device_write d bs w)" "ui_inv k p w \<Longrightarrow> ui_inv k p (w\<lparr>led_state := n\<rparr>)"
  "ui_inv k p w \<Longrightarrow> ui_inv k p (w\<lparr>flash_mem := fl\<rparr>)"
  by (simp_all add: ui_inv_def fw_defs io_defs shows_page_def)

lemma ui_set_ac [ui_ok]: "ui_inv k p w \<Longrightarrow> ui_inv k p (set_ac on ctr w)"
  unfolding set_ac_def by (intro ui_ok) simp_all

lemma ui_sends [ui_ok]:
  assumes "ui_inv k p w"
  shows "ui_inv k p (sendMatchDataToCodeData d w)" "ui_inv k p (sendSaveCommandToCodeData d w)"
    "ui_inv k p (sendMatchOnTest d w)" "ui_inv k p (sendMatchOffTest d w)"
    "ui_inv k p (sendlearnOn d w)" "ui_inv k p (sendlearnOff d w)"
    "ui_inv k p (sendInLearnOnMode d w)" "ui_inv k p (sendInLearnOffMode d w)"
    "ui_inv k p (sendMatchOver d w)" "ui_inv k p (sendLearnOnOver d w)" "ui_inv k p (sendLearnOffOver d w)"
  using assms unfolding send_defs Let_def by (intro ui_ok; assumption)+

lemma ui_sends' [ui_ok]:
  assumes "ui_inv k p w"
  shows "ui_inv k p (sendCtrlCommandToCodeData d w)" "ui_inv k p (sendRegisterToMaster w)"
    "ui_inv k p (LED_ON w)" "ui_inv k p (LED_TEST w)"
  using assms unfolding sendCtrlCommandToCodeData_def sendRegisterToMaster_def sendMessageToMaster_def
    LED_ON_def LED_TEST_def Let_def by (intro ui_ok ui_if; assumption)+

lemma uart_io_ok: "uart_inv k p s \<Longrightarrow> uart_inv k p (uart_io io s)"
  by (cases s) (auto simp: uart_io_def IoCheckProgram_def uart_inv_def Let_def intro!: ui_ok ui_if)

lemma ui_hub_frame: "ui_inv k p w \<Longrightarrow> hub_frame w w' \<Longrightarrow> ui_inv k p w'"
proof -
  assume a: "ui_inv k p w" and "hub_frame w w'"
  then have r: "hub_rest w' = hub_rest w" and m: "mi_brand_code (module_info w') = mi_brand_code (module_info w)"
    "mi_select (module_info w') = mi_select (module_info w)" by (simp_all add: hub_frame_def)
  have "uart1_msg w' = uart1_msg w" "uart2_msg w' = uart2_msg w" "pageInfor w' = pageInfor w"
    "pageSelect w' = pageSelect w" "disp w' = disp w" "infrared_event w' = infrared_event w"
    using arg_cong [OF r, of uart1_msg] arg_cong [OF r, of uart2_msg] arg_cong [OF r, of pageInfor]
      arg_cong [OF r, of pageSelect] arg_cong [OF r, of disp] arg_cong [OF r, of infrared_event]
    by (simp_all add: hub_rest_def)
  with a m show ?thesis by (simp add: ui_inv_def shows_page_def mode_ok_def)
qed

lemma ui_msg1: "ui_inv (m1, m2, c) p w \<Longrightarrow> ui_inv (m1', m2, c) p (w\<lparr>uart1_msg := m1'\<rparr>)"
  by (simp add: ui_inv_def shows_page_def)

lemma ui_msg2: "ui_inv (m1, m2, c) p w \<Longrightarrow> ui_inv (m1, m2', c) p (w\<lparr>uart2_msg := m2'\<rparr>)"
  by (simp add: ui_inv_def shows_page_def)

lemma uart_done1:
  assumes "ui_inv k p w" "io_inv k" "event_ok (ut_event t) (snd (snd k))"
  shows "\<exists>k'. uart_inv k' p (t, w\<lparr>uart1_msg := (uart1_msg w)\<lparr>messageFlag := f\<rparr>\<rparr>)"
proof -
  obtain m1 m2 c where k: "k = (m1, m2, c)" by (cases k)
  have "m1 = uart1_msg w" using assms(1) k by (simp add: ui_inv_def)
  then have "uart_inv (m1\<lparr>messageFlag := f\<rparr>, m2, c) p (t, w\<lparr>uart1_msg := (uart1_msg w)\<lparr>messageFlag := f\<rparr>\<rparr>)"
    using assms k ui_msg1 [of m1 m2 c p w "m1\<lparr>messageFlag := f\<rparr>"]
    by (simp add: uart_inv_def io_inv_def msg_ok_def)
  then show ?thesis by blast
qed

lemma uart_registered_ok [ui_ok]: "ui_inv k p w \<Longrightarrow> ui_inv k p (uart_registered w)"
  unfolding uart_registered_def by (intro ui_ok) simp_all

lemma uart_master_ok:
  assumes "uart_inv k p (t, w)" "rt_heap heap"
  shows "\<exists>k' s'. uart_master heap (t, w) = Some s' \<and> uart_inv k' p s'"
proof -
  have inv: "ui_inv k p w" "io_inv k" "event_ok (ut_event t) (snd (snd k))" using assms(1) by (simp_all add: uart_inv_def)
  let ?d = "rx_data (uart1_msg w)"
  have fin: "\<exists>k'. uart_inv k' p (t', w'\<lparr>uart1_msg := (uart1_msg w')\<lparr>messageFlag := 0\<rparr>\<rparr>)"
    if "ui_inv k p w'" "ut_event t' = ut_event t" for t' w'
    using uart_done1 [OF that(1) inv(2), of t' 0] that(2) inv(3) by simp
  obtain r w1 where a: "analyzeMasterData heap ?d (rx_size (uart1_msg w)) w = Some (r, w1)" "ui_inv k p w1"
    using analyzeMasterData_ok [OF assms(2), of ?d "rx_size (uart1_msg w)" w] ui_hub_frame [OF inv(1)] by blast
  consider "messageFlag (uart1_msg w) \<noteq> YES"
    | (reg) "messageFlag (uart1_msg w) = YES" "?d ! 0 = REGISTER_CODE"
    | (adr) "messageFlag (uart1_msg w) = YES" "?d ! 0 \<noteq> REGISTER_CODE" "?d ! 0 = mi_addr (module_info w)"
    | (oth) "messageFlag (uart1_msg w) = YES" "?d ! 0 \<noteq> REGISTER_CODE" "?d ! 0 \<noteq> mi_addr (module_info w)" by blast
  then show ?thesis
  proof cases
    case 1
    then have "uart_master heap (t, w) = Some (t, w)" by (simp add: uart_master_def Let_def)
    then show ?thesis using assms(1) by blast
  next
    case reg
    then show ?thesis using fin inv(1)
      by (auto simp: uart_master_def Let_def simp del: split_paired_Ex intro!: fin ui_ok)
  next
    case adr
    then show ?thesis using a
      by (auto simp: uart_master_def Let_def getModuleInfo_def simp del: split_paired_Ex intro!: fin ui_ok)
  next
    case oth
    then show ?thesis using inv(1) by (auto simp: uart_master_def Let_def getModuleInfo_def simp del: split_paired_Ex intro!: fin)
  qed
qed

lemma run_call_back_ok:
  assumes "ui_inv k p w" "cb \<noteq> CB_invalid"
    and "cb = CB_matchCallBack \<Longrightarrow> r = INFRARED_EVENT_SAVE_OK \<Longrightarrow> unat (snd (snd k)) < 10000"
  shows "\<exists>q w'. run_call_back cb r w = Some w' \<and> (q = p \<or> q = parent p) \<and> ui_inv k q w'"
  using assms matchCallBack_ok [OF assms(1), of r] ui_learnCallBack [OF assms(1), of r]
  by (cases cb) auto

lemma event_ok_null: "event_ok (e\<lparr>event := EVENT_NULL\<rparr>) c"
  by (simp add: event_ok_def)

lemma learn_answer_ok:
  assumes "uart_inv k p (t, w)" "ev_call_back (ut_event t) = CB_learnCallBack"
  shows "\<exists>q s'. learn_answer cb (t, w) = Some s' \<and> (q = p \<or> q = parent p) \<and> uart_inv k q s'"
proof -
  have inv: "ui_inv k p w" "io_inv k" "event_ok (ut_event t) (snd (snd k))" using assms(1) by (simp_all add: uart_inv_def)
  have code: "ui_inv k q v \<Longrightarrow> mi_brand_code (module_info v) = snd (snd k)" for q v by (simp add: ui_inv_def)
  consider (one) "rx_data (uart2_msg w) ! 5 = 1" | (three) "rx_data (uart2_msg w) ! 5 = 3"
    | (oth) "rx_data (uart2_msg w) ! 5 \<noteq> 1" "rx_data (uart2_msg w) ! 5 \<noteq> 3" by blast
  then show ?thesis
  proof cases
    case one
    let ?w = "setinfraredEvent (ut_event t) (learnCallBack cb w)"
    have l: "ui_inv k p (learnCallBack cb w)" using inv(1) by (rule ui_learnCallBack)
    then have "ui_inv k p ?w" using inv(3) code [OF l] by (intro ui_set_event) simp_all
    moreover have "learn_answer cb (t, w) = Some (t, ?w)" using one assms(2) by (simp add: learn_answer_def Let_def)
    ultimately show ?thesis using inv by (auto simp: uart_inv_def)
  next
    case three
    let ?t = "set_event EVENT_NULL t"
    have "ui_inv k (parent p) (pageReturn (setinfraredEvent (ut_event ?t) w))"
      using inv(1) event_ok_null by (intro ui_ok) (simp_all add: set_event_def)
    moreover have "learn_answer cb (t, w) = Some (?t, pageReturn (setinfraredEvent (ut_event ?t) w))"
      using three by (simp add: learn_answer_def Let_def)
    ultimately show ?thesis using inv(2) event_ok_null by (auto simp: uart_inv_def set_event_def)
  next
    case oth
    then show ?thesis using assms(1) by (auto simp: learn_answer_def Let_def)
  qed
qed

lemma ui_brand:
  assumes "ui_inv (m1, m2, c) p w" "unat c' < 10000"
  shows "ui_inv (m1, m2, c') p (upd_info (mi_brand_code_update (\<lambda>_. c')) w)"
  using assms by (auto simp: ui_inv_def upd_info_def shows_page_def event_ok_def mode_ok_def)

lemma ac_answer_ok:
  assumes "uart_inv k p (t, w)"
  shows "\<exists>k' q s'. ac_answer (t, w) = Some s' \<and> (q = p \<or> q = parent p) \<and> uart_inv k' q s'"
proof -
  obtain m1 m2 c where k: "k = (m1, m2, c)" by (cases k)
  have inv: "ui_inv k p w" "io_inv k" "event_ok (ut_event t) c" and m2: "m2 = uart2_msg w"
    using assms k by (auto simp: uart_inv_def ui_inv_def)
  let ?d = "rx_data (uart2_msg w)" let ?ev = "event (ut_event t)" let ?cb = "ev_call_back (ut_event t)"
  consider (size) "rx_size m2 \<noteq> 7"
    | (match) "rx_size m2 = 7" "?ev = EVENT_SEND_MATCH" "mk16 (?d ! 0) (?d ! 1) \<noteq> 0 \<and> ?d ! 3 = 0x41"
    | (nomatch) "rx_size m2 = 7" "?ev = EVENT_SEND_MATCH" "\<not> (mk16 (?d ! 0) (?d ! 1) \<noteq> 0 \<and> ?d ! 3 = 0x41)"
    | (save) "rx_size m2 = 7" "?ev = EVENT_SEND_SAVE"
    | (on) "rx_size m2 = 7" "?ev = EVENT_SEND_LEARN_MODE_ON"
    | (off) "rx_size m2 = 7" "?ev = EVENT_SEND_LEARN_MODE_OFF"
    | (oth) "rx_size m2 = 7" "?ev \<noteq> EVENT_SEND_MATCH" "?ev \<noteq> EVENT_SEND_SAVE" "?ev \<noteq> EVENT_SEND_LEARN_MODE_ON"
        "?ev \<noteq> EVENT_SEND_LEARN_MODE_OFF" by blast
  then show ?thesis
  proof cases
    case size
    then have "ac_answer (t, w) = Some (t, w)" using m2 by (simp add: ac_answer_def Let_def)
    then show ?thesis using assms by blast
  next
    case nomatch
    then have "ac_answer (t, w) = Some (t, w)" using m2 by (auto simp: ac_answer_def Let_def)
    then show ?thesis using assms by blast
  next
    case oth
    then have "ac_answer (t, w) = Some (t, w)" using m2 by (simp add: ac_answer_def Let_def)
    then show ?thesis using assms by blast
  next
    case on
    then have "ac_answer (t, w) = learn_answer CB_IN_LEARN_ON (t, w)" "?cb = CB_learnCallBack"
      using m2 inv(3) by (simp_all add: ac_answer_def Let_def event_ok_def)
    then show ?thesis using learn_answer_ok [OF assms, of CB_IN_LEARN_ON] by metis
  next
    case off
    then have "ac_answer (t, w) = learn_answer CB_IN_LEARN_OFF (t, w)" "?cb = CB_learnCallBack"
      using m2 inv(3) by (simp_all add: ac_answer_def Let_def event_ok_def)
    then show ?thesis using learn_answer_ok [OF assms, of CB_IN_LEARN_OFF] by metis
  next
    case match
    let ?c = "mk16 (?d ! 4) (?d ! 5)" let ?t = "set_event EVENT_SEND_SAVE t"
    let ?w = "upd_info (mi_brand_code_update (\<lambda>_. ?c)) w"
    have cb: "?cb = CB_matchCallBack" using inv(3) match(2) by (simp add: event_ok_def)
    have c: "unat ?c < 10000" using inv(2) k match(1,3) m2 by (simp add: io_inv_def)
    have w: "ui_inv (m1, m2, ?c) p ?w" using inv(1) k ui_brand c by simp
    obtain q w1 where w1: "matchCallBack INFRARED_EVENT_MATCH_OK ?w = Some w1" "q = p \<or> q = parent p" "ui_inv (m1, m2, ?c) q w1"
      using matchCallBack_ok [OF w, of INFRARED_EVENT_MATCH_OK] by auto
    have ev: "event_ok (ut_event ?t) ?c" using cb c by (simp add: event_ok_def set_event_def)
    have "ui_inv (m1, m2, ?c) q (setinfraredEvent (ut_event ?t) w1)"
      using w1(3) ev by (intro ui_set_event) (simp_all add: ui_inv_def)
    moreover have "ac_answer (t, w) = Some (?t, setinfraredEvent (ut_event ?t) w1)"
      using match w1(1) cb m2 by (simp add: ac_answer_def Let_def set_event_def)
    moreover have "io_inv (m1, m2, ?c)" using inv(2) k by (simp add: io_inv_def)
    ultimately show ?thesis using w1(2) ev by (intro exI [of _ "(m1, m2, ?c)"]) (auto simp: uart_inv_def)
  next
    case save
    let ?t = "set_event EVENT_NULL t"
    have cb: "?cb = CB_matchCallBack" and c: "unat c < 10000" using inv(3) save(2) by (simp_all add: event_ok_def)
    obtain q w1 where w1: "matchCallBack INFRARED_EVENT_SAVE_OK w = Some w1" "q = p \<or> q = parent p" "ui_inv k q w1"
      using matchCallBack_ok [OF inv(1), of INFRARED_EVENT_SAVE_OK] c k by auto
    have "ui_inv k q (setinfraredEvent (ut_event ?t) w1)"
      using w1(3) event_ok_null by (intro ui_set_event) (simp_all add: set_event_def)
    moreover have "ac_answer (t, w) = Some (?t, setinfraredEvent (ut_event ?t) w1)"
      using save w1(1) cb m2 by (simp add: ac_answer_def Let_def set_event_def)
    ultimately show ?thesis using w1(2) inv(2) event_ok_null
      by (intro exI [of _ k]) (auto simp: uart_inv_def set_event_def)
  qed
qed

lemma uart_done2:
  assumes "uart_inv k p (t, w)"
  shows "\<exists>k'. uart_inv k' p (t, w\<lparr>uart2_msg := (uart2_msg w)\<lparr>messageFlag := f\<rparr>\<rparr>)"
proof -
  obtain m1 m2 c where k: "k = (m1, m2, c)" by (cases k)
  have "m2 = uart2_msg w" using assms k by (simp add: uart_inv_def ui_inv_def)
  then have "uart_inv (m1, m2\<lparr>messageFlag := f\<rparr>, c) p (t, w\<lparr>uart2_msg := (uart2_msg w)\<lparr>messageFlag := f\<rparr>\<rparr>)"
    using assms k ui_msg2 [of m1 m2 c p w "m2\<lparr>messageFlag := f\<rparr>"]
    by (simp add: uart_inv_def io_inv_def msg_ok_def)
  then show ?thesis by blast
qed

lemma uart_ac_ok:
  assumes "uart_inv k p (t, w)"
  shows "\<exists>k' q s'. uart_ac (t, w) = Some s' \<and> (q = p \<or> q = parent p) \<and> uart_inv k' q s'"
proof (cases "messageFlag (uart2_msg w) = YES")
  case True
  obtain k1 q t1 w1 where 1: "ac_answer (t, w) = Some (t1, w1)" "q = p \<or> q = parent p" "uart_inv k1 q (t1, w1)"
    using ac_answer_ok [OF assms] by fast
  obtain k2 where "uart_inv k2 q (t1, w1\<lparr>uart2_msg := (uart2_msg w1)\<lparr>messageFlag := 0\<rparr>\<rparr>)"
    using uart_done2 [OF 1(3)] by blast
  with True 1 show ?thesis by (auto simp: uart_ac_def simp del: split_paired_Ex)
next
  case False
  then have "uart_ac (t, w) = Some (t, w)" by (simp add: uart_ac_def)
  then show ?thesis using assms by blast
qed

lemma write_words_total:
  "length bs = 4 * n \<Longrightarrow> unat e \<le> unat a + 4 * n \<Longrightarrow> unat a + 4 * n < 2 ^ 32 \<Longrightarrow> write_words hw a e bs m \<noteq> None"
proof (induction n arbitrary: a bs m)
  case 0
  then show ?case by (simp add: write_words.simps word_less_nat_alt)
next
  case (Suc n)
  from Suc.prems(1) obtain b0 b1 b2 b3 rest where bs: "bs = b0 # b1 # b2 # b3 # rest" "length rest = 4 * n"
    by (auto simp: length_Suc_conv numeral_eq_Suc)
  have "unat (a + 4) = unat a + 4" using Suc.prems(3) by (simp add: unat_plus_if')
  then have "write_words hw (a + 4) e rest m' \<noteq> None" for m'
    using Suc.IH [OF bs(2), of "a + 4" m'] Suc.prems by simp
  then show ?case using bs by (subst write_words.simps) (auto simp: Let_def split: prod.split bool.split)
qed

lemma setDataToFlah_total: "length bs = 12 \<Longrightarrow> \<exists>fl. setDataToFlah hw DATA_BLOCK_START bs m = Some fl"
  using write_words_total [of bs 3 "DATA_BLOCK_START + 12" DATA_BLOCK_START hw "snd (stm32_flash_erase hw DATA_BLOCK_START 12 m)"]
  by (auto simp: setDataToFlah_def stm32_flash_write_def Let_def DATA_BLOCK_START_def)

lemma uart_persist_ok:
  assumes "uart_inv k p (t, w)"
  shows "\<exists>s'. uart_persist hw (t, w) = Some s' \<and> uart_inv k p s'"
proof -
  obtain fl where "setDataToFlah hw DATA_BLOCK_START (info_bytes (module_info w)) (flash_mem w) = Some fl"
    using setDataToFlah_total by (metis length_info_bytes)
  then show ?thesis using assms
    by (auto simp: uart_persist_def uart_inv_def getModuleInfo_def Let_def intro!: ui_ok)
qed

subsection \<open>Periodic work\<close>

lemma uart_100ms_ok: "uart_inv k p s \<Longrightarrow> uart_inv k p (uart_100ms s)"
  by (cases s) (auto simp: uart_100ms_def uart_inv_def intro!: ui_ok)

lemma uart_1s_ac_ok:
  assumes "uart_inv k p (t, w)" shows "uart_inv k p (uart_1s_ac (t, w))"
proof -
  have inv: "ui_inv k p w" "io_inv k" "event_ok (ut_event t) (snd (snd k))"
    using assms by (simp_all add: uart_inv_def)
  have fin: "uart_inv k p (set_event EVENT_NULL t, setinfraredEvent (ut_event (set_event EVENT_NULL t)) v)"
    if "ui_inv k p v" for v
    using that inv(2) event_ok_null by (auto simp: uart_inv_def set_event_def intro!: ui_ok)
  have keep: "uart_inv k p (t, v)" if "ui_inv k p v" for v using that inv by (simp add: uart_inv_def)
  show ?thesis
    unfolding uart_1s_ac_def Let_def split using inv(1)
    by (auto intro!: fin [simplified] keep ui_ok)
qed

lemma ui_1s_led [ui_ok]: "ui_inv k p w \<Longrightarrow> ui_inv k p (uart_1s_led w)"
  unfolding uart_1s_led_def by (intro ui_ok ui_if)

lemma uart_1s_hub_ok: "uart_inv k p s \<Longrightarrow> uart_inv k p (uart_1s_hub s)"
  by (cases s) (auto simp: uart_1s_hub_def uart_inv_def Let_def intro!: ui_ok)

lemma uart_1s_ctrl_ok: "uart_inv k p s \<Longrightarrow> uart_inv k p (uart_1s_ctrl s)"
  by (cases s) (auto simp: uart_1s_ctrl_def uart_inv_def intro!: ui_ok)

lemma uart_1s_ok:
  assumes "uart_inv k p s" shows "uart_inv k p (uart_1s s)"
proof -
  obtain t w where s: "s = (t, w)" by (cases s)
  let ?t = "t\<lparr>ut_event := getInfraredEvent w, ut_master_event := getMasterEvent w\<rparr>"
  have "uart_inv k p (?t, w)"
    using assms s by (auto simp: uart_inv_def ui_inv_def getInfraredEvent_def)
  then have "uart_inv k p (uart_1s_ac (?t, w))" by (rule uart_1s_ac_ok)
  moreover obtain t1 w1 where 1: "uart_1s_ac (?t, w) = (t1, w1)" by fastforce
  ultimately have "uart_inv k p (t1, uart_1s_led w1)" by (auto simp: uart_inv_def intro: ui_1s_led)
  then have "uart_inv k p (uart_1s_ctrl (uart_1s_hub (t1, uart_1s_led w1)))"
    by (intro uart_1s_ctrl_ok uart_1s_hub_ok)
  with 1 s assms show ?thesis by (simp add: uart_1s_def Let_def split_beta)
qed

lemma uart_5s_ok: "uart_inv k p s \<Longrightarrow> uart_inv k p (uart_5s s)"
  by (cases s) (auto simp: uart_5s_def uart_inv_def intro!: ui_ok)

lemma uart_10s_ok: "uart_inv k p s \<Longrightarrow> uart_inv k p (uart_10s s)"
  by (cases s) (auto simp: uart_10s_def uart_inv_def intro!: ui_ok)

lemma uart_periodic_ok:
  assumes "uart_inv k p s" shows "uart_inv k p (uart_periodic s)"
proof -
  have "uart_inv k p (uart_10s (uart_5s (uart_1s (uart_100ms s))))"
    by (intro uart_10s_ok uart_5s_ok uart_1s_ok uart_100ms_ok assms)
  then show ?thesis by (auto simp: uart_periodic_def uart_inv_def split: prod.split intro: ui_delay)
qed

subsection \<open>A pass of the loop\<close>

lemma UartTaskEntry_loop_ok:
  assumes "uart_inv k p (t, w)" "rt_heap heap"
  shows "\<exists>k' q s'. UartTaskEntry_loop hw heap io (t, w) = Some s' \<and> (q = p \<or> q = parent p) \<and> uart_inv k' q s'"
proof -
  have "uart_inv k p (uart_timers t, w)"
    using assms(1) by (simp add: uart_inv_def uart_timers_def split_beta)
  then have "uart_inv k p (uart_io io (uart_timers t, w))" by (rule uart_io_ok)
  moreover obtain t0 w0 where 0: "uart_io io (uart_timers t, w) = (t0, w0)" by fastforce
  ultimately obtain k1 t1 w1 where 1: "uart_master heap (t0, w0) = Some (t1, w1)" "uart_inv k1 p (t1, w1)"
    using uart_master_ok [OF _ assms(2)] by (metis surj_pair)
  obtain k2 q t2 w2 where 2: "uart_ac (t1, w1) = Some (t2, w2)" "q = p \<or> q = parent p" "uart_inv k2 q (t2, w2)"
    using uart_ac_ok [OF 1(2)] by fast
  obtain s3 where 3: "uart_persist hw (t2, w2) = Some s3" "uart_inv k2 q s3"
    using uart_persist_ok [OF 2(3)] by blast
  have "UartTaskEntry_loop hw heap io (t, w) = Some (uart_periodic s3)"
    using 0 1(1) 2(1) 3(1) by (simp add: UartTaskEntry_loop_def)
  then show ?thesis using 2(2) uart_periodic_ok [OF 3(2)] by blast
qed

lemma ui_initModuleInfo [ui_ok]: "ui_inv k p w \<Longrightarrow> ui_inv k p (initModuleInfo w)"
proof -
  assume w: "ui_inv k p w"
  then have "ui_inv k p (stray_clear r n w)" for r n by (simp add: ui_inv_def shows_page_def stray_clear_def)
  with w show ?thesis unfolding initModuleInfo_def Let_def by (intro ui_ok ui_if) simp_all
qed

text \<open>The record read from the flash, with an unknown mode replaced.\<close>

lemma ui_load_info:
  assumes "ui_inv (m1, m2, c) p w" "event (infrared_event w) = EVENT_NULL"
  shows "ui_inv (m1, m2, mi_brand_code m) p
    (let w = w\<lparr>module_info := m\<rparr>
     in if mi_select (getModuleInfo w) \<noteq> SELECT_MATCH \<and> mi_select (getModuleInfo w) \<noteq> SELECT_LEARN
        then upd_info (mi_select_update (\<lambda>_. SELECT_MATCH)) w else w)"
  using assms by (simp add: ui_inv_def shows_page_def event_ok_def mode_ok_def upd_info_def getModuleInfo_def Let_def)

lemma UartTaskEntry_start_ok:
  assumes "ui_inv k p w" "io_inv k" "event (infrared_event w) = EVENT_NULL" "UartTaskEntry_start w = (t, w')"
  shows "\<exists>k'. uart_inv k' p (t, w')"
proof -
  obtain m1 m2 c where k: "k = (m1, m2, c)" by (cases k)
  define m where "m = info_of_bytes (getDataFromFlash DATA_BLOCK_START (info_bytes (module_info w)) (flash_mem w))"
  note load = ui_load_info [OF assms(1) [unfolded k] assms(3), of m, unfolded Let_def]
  have "t = fst (UartTaskEntry_start w)" "w' = snd (UartTaskEntry_start w)" using assms(4) by simp_all
  then have "ut_event t = infrared_event w" "ui_inv (m1, m2, mi_brand_code m) p w'"
    unfolding UartTaskEntry_start_def m_def [symmetric] Let_def fst_conv snd_conv
    by (simp_all only: uart_task.select_convs getInfraredEvent_def) (intro ui_ok load, simp_all)
  then have "uart_inv (m1, m2, mi_brand_code m) p (t, w')"
    using assms(2,3) k by (simp add: uart_inv_def io_inv_def event_ok_def)
  then show ?thesis by blast
qed

section \<open>The interrupts\<close>

lemma Uart1_input_ok:
  assumes "uart_inv k p (t, w)" "length bs \<le> UART_MSG_SIZE"
  shows "\<exists>k' w'. Uart1_input (length bs) bs w = Some w' \<and> uart_inv k' p (t, w')"
proof -
  obtain m1 m2 c where k: "k = (m1, m2, c)" by (cases k)
  have m: "uart1_msg w = m1" "length (rx_data m1) = UART_MSG_SIZE"
    using assms(1) k by (auto simp: uart_inv_def ui_inv_def io_inv_def msg_ok_def)
  then obtain d where d: "put_bytes 0 bs (rx_data m1) = Some d" "length d = UART_MSG_SIZE"
    using assms(2) by (auto simp: put_bytes_def)
  have "\<exists>m'. Uart1_input (length bs) bs w = Some (w\<lparr>uart1_msg := m'\<rparr>) \<and> msg_ok m'"
    using d m assms(2) by (auto simp: Uart1_input_def Let_def msg_ok_def)
  then obtain m' where m': "Uart1_input (length bs) bs w = Some (w\<lparr>uart1_msg := m'\<rparr>)" "msg_ok m'" by blast
  moreover have "uart_inv (m', m2, c) p (t, w\<lparr>uart1_msg := m'\<rparr>)"
    using assms(1) k m' ui_msg1 [of m1 m2 c p w m'] by (simp add: uart_inv_def io_inv_def)
  ultimately show ?thesis by blast
qed

lemma Uart2_input_ok:
  assumes "uart_inv k p (t, w)" "admissible (Rx2 bs)"
  shows "\<exists>k' w'. Uart2_input (length bs) bs w = Some w' \<and> uart_inv k' p (t, w')"
proof -
  obtain m1 m2 c where k: "k = (m1, m2, c)" by (cases k)
  have m: "uart2_msg w = m2" "length (rx_data m2) = UART_MSG_SIZE"
    using assms(1) k by (auto simp: uart_inv_def ui_inv_def io_inv_def msg_ok_def)
  then obtain d where d: "put_bytes 0 bs (rx_data m2) = Some d" "length d = UART_MSG_SIZE"
    "length bs = 7 \<longrightarrow> d ! 3 = bs ! 3 \<and> d ! 4 = bs ! 4 \<and> d ! 5 = bs ! 5"
    using assms(2) by (auto simp: put_bytes_def nth_append)
  have "\<exists>m'. Uart2_input (length bs) bs w = Some (w\<lparr>uart2_msg := m'\<rparr>) \<and> msg_ok m' \<and> rx_size m' = length bs \<and> rx_data m' = d"
    using d m assms(2) by (auto simp: Uart2_input_def Let_def msg_ok_def)
  then obtain m' where m': "Uart2_input (length bs) bs w = Some (w\<lparr>uart2_msg := m'\<rparr>)" "msg_ok m'"
    "rx_size m' = length bs" "rx_data m' = d" by blast
  moreover have "uart_inv (m1, m', c) p (t, w\<lparr>uart2_msg := m'\<rparr>)"
    using assms k m' d(3) ui_msg2 [of m1 m2 c p w m'] by (auto simp: uart_inv_def io_inv_def)
  ultimately show ?thesis by blast
qed

section \<open>The key scanner\<close>

lemma button_call_back: "b_call_back (fst (button_tick period pr (b, c))) = b_call_back b"
  by (simp add: button_tick_def button_sample_def button_classify_def Let_def)

lemma button_step_eq:
  assumes "button_inv t" "i < 3"
  shows "\<exists>t' ty. button_inv t' \<and> button_step period pins i (t, w) =
    map_option (Pair t') (key_call ([KB_Enter, KB_Up, KB_Dowm] ! i) ty w)"
proof -
  let ?r = "button_tick period (pins (bpin (buttonList t ! i)) = on_set (buttonList t ! i)) (buttonList t ! i, btn_cooling t ! i)"
  have len: "length (buttonList t) = 3" and cb: "b_call_back (buttonList t ! i) = [KB_Enter, KB_Up, KB_Dowm] ! i"
    using assms arg_cong [of "map b_call_back (buttonList t)" _ length] nth_map [of i "buttonList t" b_call_back]
    by (auto simp: button_inv_def dest: arg_cong [of _ _ length])
  have r: "b_call_back (fst ?r) = [KB_Enter, KB_Up, KB_Dowm] ! i" using cb button_call_back by simp
  let ?t = "t\<lparr>buttonList := (buttonList t)[i := fst ?r], btn_cooling := (btn_cooling t)[i := snd ?r]\<rparr>"
  have "(map b_call_back (buttonList t))[i := [KB_Enter, KB_Up, KB_Dowm] ! i] = [KB_Enter, KB_Up, KB_Dowm]"
    using assms by (simp add: button_inv_def)
  then have "button_inv ?t" using assms(1) r by (simp add: button_inv_def map_update)
  moreover have "button_step period pins i (t, w) = map_option (Pair ?t) (key_call ([KB_Enter, KB_Up, KB_Dowm] ! i) (press_type (fst ?r)) w)"
    using r by (simp add: button_step_def Let_def split_beta)
  ultimately show ?thesis by blast
qed

lemma ButtonTaskEntry_loop_ok:
  assumes "button_inv t" "ui_inv k p w"
  shows "\<exists>q t' w'. ButtonTaskEntry_loop pins (t, w) = Some (t', w') \<and> (q = p \<or> q = parent p) \<and>
    button_inv t' \<and> ui_inv k q w'"
proof -
  have t: "button_inv (button_prologue pins t)" using assms(1) by (simp add: button_inv_def button_prologue_def Let_def)
  let ?P = BUTTON_TASK_PERIOD
  obtain t1 e where 1: "button_inv t1" "button_step ?P pins 0 (button_prologue pins t, w) = Some (t1, EnterBtnCallBack e w)"
    using button_step_eq [OF t, of 0 ?P pins w] by auto
  obtain q where q: "q = p \<or> q = parent p" "ui_inv k q (EnterBtnCallBack e w)" using EnterBtnCallBack_ok [OF assms(2)] by blast
  obtain t2 u where 2: "button_inv t2" "button_step ?P pins 1 (t1, EnterBtnCallBack e w) = Some (t2, UpBtnCallBack u (EnterBtnCallBack e w))"
    using button_step_eq [OF 1(1), of 1 ?P pins] by fastforce
  obtain t3 d where 3: "button_inv t3" "button_step ?P pins 2 (t2, UpBtnCallBack u (EnterBtnCallBack e w)) =
      Some (t3, DowmBtnCallBack d (UpBtnCallBack u (EnterBtnCallBack e w)))"
    using button_step_eq [OF 2(1), of 2 ?P pins] by fastforce
  have "ui_inv k q (task_mdelay 20 (DowmBtnCallBack d (UpBtnCallBack u (EnterBtnCallBack e w))))"
    using q(2) by (intro ui_ok)
  moreover have "ButtonTaskEntry_loop pins (t, w) = Some (t3, task_mdelay 20 (DowmBtnCallBack d (UpBtnCallBack u (EnterBtnCallBack e w))))"
    using 1(2) 2(2) 3(2) by (simp add: ButtonTaskEntry_loop_def Buttonprogram_def)
  ultimately show ?thesis using q(1) 3(1) by blast
qed

lemma button_inv_start: "button_inv (ButtonRegister button_statics)"
proof -
  have three: "replicate 3 x = [x, x, x]" for x :: 'a by (simp add: numeral_eq_Suc)
  show ?thesis
    by (simp add: button_inv_def ButtonRegister_def ButtonAdd_def button_statics_def Let_def reset_button_def three)
qed

section \<open>The whole system\<close>

text \<open>The system shows page \<open>p\<close> and is in good order.\<close>

definition sys_at :: "ui_page \<Rightarrow> system \<Rightarrow> bool" where
  "sys_at p s \<longleftrightarrow> (\<exists>k. ui_inv k p (sys_world s) \<and> io_inv k \<and>
     (case sys_uart s of
        None \<Rightarrow> event (infrared_event (sys_world s)) = EVENT_NULL \<and> sys_oled s = None \<and> sys_button s = None
      | Some t \<Rightarrow> event_ok (ut_event t) (snd (snd k)))) \<and>
     (sys_oled s = None \<longrightarrow> p = Home) \<and> pred_option button_inv (sys_button s)"

lemma sys_at_uart: "sys_uart s = Some t \<Longrightarrow> sys_at p s \<longleftrightarrow>
    (\<exists>k. uart_inv k p (t, sys_world s)) \<and> (sys_oled s = None \<longrightarrow> p = Home) \<and> pred_option button_inv (sys_button s)"
  by (auto simp: sys_at_def uart_inv_def)

lemma ui_start: "ui_inv k Home w \<Longrightarrow> ui_inv k Home (OledTaskEntry_start w)"
proof -
  assume "ui_inv k Home w"
  then have "ui_inv k Home (st7567Init w)"
    unfolding st7567Init_def by (intro ui_ok lcd_ok)
  then have "ui_inv k Home (push_page HOME_PAGE (st7567Init w))"
    by (simp add: ui_inv_def push_page_def shows_page_def)
  then show ?thesis unfolding OledTaskEntry_start_def by (rule ui_wakeUp)
qed

lemma ui_step_back: "q = p \<or> q = parent p \<Longrightarrow> ui_step p q"
  using ui_stay ui_back by auto

lemma sys_step_uart:
  assumes "sys_at p s" "rt_heap heap"
  shows "\<exists>q s'. sys_step hw (Uart_pass heap io) s = Some s' \<and> ui_step p q \<and> sys_at q s'"
proof (cases "sys_uart s")
  case None
  obtain t w where st: "UartTaskEntry_start (sys_world s) = (t, w)" by fastforce
  then obtain k where "uart_inv k p (t, w)"
    using assms(1) None UartTaskEntry_start_ok by (fastforce simp: sys_at_def simp del: split_paired_Ex)
  then have "sys_at p (s\<lparr>sys_world := w, sys_uart := Some t\<rparr>)"
    using assms(1) by (auto simp: sys_at_def uart_inv_def simp del: split_paired_Ex)
  then show ?thesis using None st ui_stay by auto
next
  case (Some t)
  then obtain k where "uart_inv k p (t, sys_world s)" using assms(1) sys_at_uart by blast
  from UartTaskEntry_loop_ok [OF this assms(2), of hw io] obtain k' q t' w' where
    1: "UartTaskEntry_loop hw heap io (t, sys_world s) = Some (t', w')" "q = p \<or> q = parent p" "uart_inv k' q (t', w')"
    by fast
  then have "sys_at q (s\<lparr>sys_world := w', sys_uart := Some t'\<rparr>)"
    using assms(1) by (auto simp: sys_at_def uart_inv_def simp del: split_paired_Ex)
  then show ?thesis using Some 1(1) ui_step_back [OF 1(2)] by auto
qed

lemma sys_step_rx:
  assumes "sys_at p s" "admissible i" "i = Rx1 bs \<or> i = Rx2 bs"
  shows "\<exists>s'. sys_step hw i s = Some s' \<and> sys_at p s'"
proof (cases "sys_uart s")
  case None
  then show ?thesis using assms by auto
next
  case (Some t)
  then obtain k where k: "uart_inv k p (t, sys_world s)" using assms(1) sys_at_uart by blast
  from assms(3) show ?thesis
  proof
    assume i: "i = Rx1 bs"
    then obtain k' w' where "Uart1_input (length bs) bs (sys_world s) = Some w'" "uart_inv k' p (t, w')"
      using Uart1_input_ok [OF k, of bs] assms(2) by auto
    then show ?thesis using i Some assms(1) by (auto simp: sys_at_uart simp del: split_paired_Ex)
  next
    assume i: "i = Rx2 bs"
    then obtain k' w' where "Uart2_input (length bs) bs (sys_world s) = Some w'" "uart_inv k' p (t, w')"
      using Uart2_input_ok [OF k, of bs] assms(2) by blast
    then show ?thesis using i Some assms(1) by (auto simp: sys_at_uart simp del: split_paired_Ex)
  qed
qed

lemma sys_at_ui:
  assumes "sys_at p s" "sys_uart s = Some t"
  obtains k where "ui_inv k p (sys_world s)"
    "\<And>q w ot b. ui_inv k q w \<Longrightarrow> (ot = None \<longrightarrow> q = Home) \<Longrightarrow> pred_option button_inv b \<Longrightarrow>
       sys_at q (s\<lparr>sys_world := w, sys_oled := ot, sys_button := b\<rparr>)"
proof -
  obtain k where "uart_inv k p (t, sys_world s)" using assms sys_at_uart by blast
  then show thesis using assms(2) by (intro that [of k]) (auto simp: sys_at_uart uart_inv_def simp del: split_paired_Ex)
qed

lemma sys_step_oled:
  assumes "sys_at p s"
  shows "\<exists>q s'. sys_step hw Oled_pass s = Some s' \<and> ui_step p q \<and> sys_at q s'"
proof (cases "sys_uart s")
  case None
  then show ?thesis using assms ui_stay by auto
next
  case uart: (Some t)
  from assms uart obtain k where k: "ui_inv k p (sys_world s)" and
    at: "\<And>q w ot b. ui_inv k q w \<Longrightarrow> (ot = None \<longrightarrow> q = Home) \<Longrightarrow> pred_option button_inv b \<Longrightarrow>
       sys_at q (s\<lparr>sys_world := w, sys_oled := ot, sys_button := b\<rparr>)" by (rule sys_at_ui) blast
  have b: "pred_option button_inv (sys_button s)" using assms by (simp add: sys_at_def)
  show ?thesis
  proof (cases "sys_oled s")
    case None
    then have "p = Home" using assms by (simp add: sys_at_def)
    then have "sys_at p (s\<lparr>sys_world := OledTaskEntry_start (sys_world s), sys_oled := Some oled_statics, sys_button := sys_button s\<rparr>)"
      using k b by (intro at) (auto intro: ui_start)
    then show ?thesis using None uart ui_stay by auto
  next
    case (Some o1)
    obtain q o2 w where 1: "OledTaskEntry_loop (o1, sys_world s) = Some (o2, w)" "ui_step p q" "ui_inv k q w"
      using OledTaskEntry_loop_ok [OF k] by blast
    have "sys_at q (s\<lparr>sys_world := w, sys_oled := Some o2, sys_button := sys_button s\<rparr>)"
      using 1(3) b by (intro at) auto
    then show ?thesis using Some uart 1 by auto
  qed
qed

lemma sys_step_button:
  assumes "sys_at p s"
  shows "\<exists>q s'. sys_step hw (Button_pass pins) s = Some s' \<and> ui_step p q \<and> sys_at q s'"
proof (cases "sys_uart s")
  case None
  then show ?thesis using assms ui_stay by auto
next
  case uart: (Some t)
  from assms uart obtain k where k: "ui_inv k p (sys_world s)" and
    at: "\<And>q w ot b. ui_inv k q w \<Longrightarrow> (ot = None \<longrightarrow> q = Home) \<Longrightarrow> pred_option button_inv b \<Longrightarrow>
       sys_at q (s\<lparr>sys_world := w, sys_oled := ot, sys_button := b\<rparr>)" by (rule sys_at_ui) blast
  have home: "sys_oled s = None \<Longrightarrow> p = Home" using assms by (simp add: sys_at_def)
  show ?thesis
  proof (cases "sys_button s")
    case None
    have "sys_at p (s\<lparr>sys_world := sys_world s, sys_oled := sys_oled s, sys_button := Some (ButtonRegister button_statics)\<rparr>)"
      using k home button_inv_start by (intro at) auto
    then show ?thesis using None uart ui_stay by auto
  next
    case (Some b1)
    then have "button_inv b1" using assms by (simp add: sys_at_def)
    then obtain q b2 w where 1: "ButtonTaskEntry_loop pins (b1, sys_world s) = Some (b2, w)" "q = p \<or> q = parent p"
      "button_inv b2" "ui_inv k q w" using ButtonTaskEntry_loop_ok [OF _ k] by blast
    have "sys_at q (s\<lparr>sys_world := w, sys_oled := sys_oled s, sys_button := Some b2\<rparr>)"
      using 1 home by (intro at) auto
    then show ?thesis using Some uart 1(1) ui_step_back [OF 1(2)] by auto
  qed
qed

lemma sys_step_sim:
  assumes "sys_at p s" "admissible i"
  shows "\<exists>q s'. sys_step hw i s = Some s' \<and> ui_step p q \<and> sys_at q s'"
proof (cases i)
  case (Rx1 bs)
  with sys_step_rx [OF assms] ui_stay show ?thesis by blast
next
  case (Rx2 bs)
  with sys_step_rx [OF assms] ui_stay show ?thesis by blast
next
  case (Uart_pass heap io)
  with assms(2) have "rt_heap heap" by simp
  with Uart_pass show ?thesis using sys_step_uart [OF assms(1)] by blast
next
  case Oled_pass
  with sys_step_oled [OF assms(1)] show ?thesis by blast
next
  case (Button_pass pins)
  with sys_step_button [OF assms(1)] show ?thesis by blast
qed

interpretation firmware: refined_system "sys_step hw" "sys_run hw" admissible sys_at ui_step
  for hw
  by unfold_locales (simp_all add: sys_step_sim Option.bind_def)

lemma sys_at_boot: "sys_at Home (sys_boot fl ids beyond after)"
proof -
  have "ui_inv (reset_msg, reset_msg, 0) Home (GpioInit (reset_world fl ids beyond after))"
    by (simp add: GpioInit_def ui_inv_def reset_world_def shows_page_def cursor_ok_def lcd_wf_def reset_lcd_def
        event_ok_def mode_ok_def reset_info_def io_defs)
  moreover have "io_inv (reset_msg, reset_msg, 0)" by (simp add: io_inv_def msg_ok_def reset_msg_def)
  moreover have "infrared_event (GpioInit (reset_world fl ids beyond after)) = \<lparr>event = 0, ev_call_back = CB_invalid\<rparr>"
    by (simp add: GpioInit_def reset_world_def io_defs)
  ultimately show ?thesis by (auto simp: sys_at_def sys_boot_def simp del: split_paired_Ex)
qed

end
