(* ===== verification/Flows.thy ===== *)
theory Flows
  imports System
begin

text \<open>
  Flows that run through several passes or components: a matching session with the code
  library, a learning session, the locate blinking, and the limit of the receive buffers.
\<close>

section \<open>Matching\<close>

text \<open>A flagged answer of the code library of the expected length.\<close>

definition answer_ready :: "rx_msg \<Rightarrow> bool" where
  "answer_ready m \<longleftrightarrow> messageFlag m = YES \<and> rx_size m = 7"

lemma banner_keeps:
  "pageInfor (banner str w) = pageInfor w" "module_info (banner str w) = module_info w" "uart2_msg (banner str w) = uart2_msg w"
  by (simp_all add: banner_def update_screen_def put_text_def clear_screen_def draw_def)

lemma saved_keeps:
  assumes "matchCallBack INFRARED_EVENT_SAVE_OK w = Some w'"
  shows "pageInfor w' = drop_bit 8 (pageInfor w)" "module_info w' = module_info w" "uart2_msg w' = uart2_msg w"
  using assms
  by (auto simp: matchCallBack_def Let_def pageReturn_def task_mdelay_def out_def update_screen_def put_text_def
      clear_screen_def draw_def split: if_splits)

lemma match_found:
  assumes "answer_ready (uart2_msg w)" "ut_event t = \<lparr>event = EVENT_SEND_MATCH, ev_call_back = CB_matchCallBack\<rparr>"
    and "mk16 (rx_data (uart2_msg w) ! 0) (rx_data (uart2_msg w) ! 1) \<noteq> 0" "rx_data (uart2_msg w) ! 3 = 0x41"
  defines "saving \<equiv> \<lparr>event = EVENT_SEND_SAVE, ev_call_back = CB_matchCallBack\<rparr>"
  shows "\<exists>w1. uart_ac (t, w) = Some (t\<lparr>ut_event := saving\<rparr>, w1) \<and> infrared_event w1 = saving \<and>
    pageInfor w1 = pageInfor w \<and> messageFlag (uart2_msg w1) = NO \<and>
    mi_brand_code (module_info w1) = mk16 (rx_data (uart2_msg w) ! 4) (rx_data (uart2_msg w) ! 5)"
  using assms(1-4) unfolding saving_def
  by (simp add: uart_ac_def ac_answer_def Let_def answer_ready_def matchCallBack_def set_event_def
      setinfraredEvent_def banner_keeps upd_info_def)

lemma match_saved:
  assumes "answer_ready (uart2_msg w)" "ut_event t = \<lparr>event = EVENT_SEND_SAVE, ev_call_back = CB_matchCallBack\<rparr>"
    and "unat (mi_brand_code (module_info w)) < 10000"
  shows "\<exists>w1. uart_ac (t, w) = Some (t\<lparr>ut_event := \<lparr>event = EVENT_NULL, ev_call_back = CB_matchCallBack\<rparr>\<rparr>, w1) \<and>
    event (infrared_event w1) = EVENT_NULL \<and> pageInfor w1 = drop_bit 8 (pageInfor w) \<and>
    mi_brand_code (module_info w1) = mi_brand_code (module_info w)"
proof -
  obtain w' where w': "matchCallBack INFRARED_EVENT_SAVE_OK w = Some w'"
    using length_itoa_4 [OF assms(3)]
    by (simp add: matchCallBack_def Let_def clear_screen_def draw_def getModuleInfo_def)
  show ?thesis using assms(1,2) w' saved_keeps [OF w']
    by (simp add: uart_ac_def ac_answer_def Let_def answer_ready_def set_event_def setinfraredEvent_def)
qed

text \<open>
  C29: a matching session. While the matching page waits, an answer of the code library with a
  non-zero start code, command \<open>41\<close> and a brand code below 10000 makes its brand code the module's brand code, keeps
  the page and asks for a save; the next answer ends the session: the pending event is
  cleared, the brand code is kept and the display is back on the settings page. For larger brand codes that second
  answer makes the program store past an array (\<open>matchCallBack\<close> then has no result).
\<close>

theorem match_session:
  assumes "shows_page w Match" "answer_ready (uart2_msg w)"
    and "ut_event t = \<lparr>event = EVENT_SEND_MATCH, ev_call_back = CB_matchCallBack\<rparr>"
    and "mk16 (rx_data (uart2_msg w) ! 0) (rx_data (uart2_msg w) ! 1) \<noteq> 0" "rx_data (uart2_msg w) ! 3 = 0x41"
    and "unat (mk16 (rx_data (uart2_msg w) ! 4) (rx_data (uart2_msg w) ! 5)) < 10000" "answer_ready m"
  defines "code \<equiv> mk16 (rx_data (uart2_msg w) ! 4) (rx_data (uart2_msg w) ! 5)"
  shows "\<exists>t1 w1. uart_ac (t, w) = Some (t1, w1) \<and> shows_page w1 Match \<and> event (infrared_event w1) = EVENT_SEND_SAVE \<and>
    mi_brand_code (module_info w1) = code \<and>
    (\<exists>t2 w2. uart_ac (t1, w1\<lparr>uart2_msg := m\<rparr>) = Some (t2, w2) \<and> shows_page w2 Setting \<and>
       event (infrared_event w2) = EVENT_NULL \<and> mi_brand_code (module_info w2) = code)"
proof -
  let ?e = "\<lparr>event = EVENT_SEND_SAVE, ev_call_back = CB_matchCallBack\<rparr>"
  obtain w1 where 1: "uart_ac (t, w) = Some (t\<lparr>ut_event := ?e\<rparr>, w1)" "infrared_event w1 = ?e" "pageInfor w1 = pageInfor w"
    "mi_brand_code (module_info w1) = code"
    using match_found [OF assms(2-5)] unfolding code_def by blast
  obtain w2 where 2: "uart_ac (t\<lparr>ut_event := ?e\<rparr>, w1\<lparr>uart2_msg := m\<rparr>) =
      Some (t\<lparr>ut_event := \<lparr>event = EVENT_NULL, ev_call_back = CB_matchCallBack\<rparr>\<rparr>, w2)"
    "event (infrared_event w2) = EVENT_NULL" "pageInfor w2 = drop_bit 8 (pageInfor w1)" "mi_brand_code (module_info w2) = code"
    using match_saved [of "w1\<lparr>uart2_msg := m\<rparr>" "t\<lparr>ut_event := ?e\<rparr>"] assms(6,7) 1(4) unfolding code_def by auto
  show ?thesis using assms(1) 1 2 by (auto simp: shows_page_def)
qed

definition match_answer :: rx_msg where
  "match_answer = \<lparr>rx_size = 7, messageFlag = YES, rx_data = [0xAA, 0x55, 4, 0x41, 0x01, 0x2C, 0x71] @ replicate 93 0\<rparr>"

theorem match_session_witness:
  "\<exists>t1 w1. uart_ac (test_task\<lparr>ut_event := \<lparr>event = 1, ev_call_back = CB_matchCallBack\<rparr>\<rparr>,
       match_world\<lparr>uart2_msg := match_answer\<rparr>) = Some (t1, w1) \<and>
     (\<exists>t2 w2. uart_ac (t1, w1\<lparr>uart2_msg := match_answer\<rparr>) = Some (t2, w2) \<and> shows_page w2 Setting \<and>
        mi_brand_code (module_info w2) = 300)"
proof -
  have code: "mk16 0x01 0x2C = 300" "mk16 0xAA 0x55 \<noteq> 0" by (simp_all add: mk16_def)
  show ?thesis
    using match_session [of "match_world\<lparr>uart2_msg := match_answer\<rparr>"
        "test_task\<lparr>ut_event := \<lparr>event = 1, ev_call_back = CB_matchCallBack\<rparr>\<rparr>" match_answer] code
    by (auto simp: match_answer_def answer_ready_def match_world_def shows_page_def)
qed

section \<open>Learning\<close>

text \<open>
  C30: a learning session. With a learning command pending on its learning page, an answer of seven bytes with state 3 (the key was
  learnt) clears the command and returns from the learning page to the learn menu; with state
  1 (ready) it asks for the key and keeps the command pending, so that it is sent again; any
  other state is ignored. The answer is consumed in every case.
\<close>

theorem learn_session:
  assumes "shows_page w p" "answer_ready (uart2_msg w)" "ev_call_back (ut_event t) = CB_learnCallBack"
    and "event (ut_event t) = EVENT_SEND_LEARN_MODE_ON \<and> p = LearnOn \<or> event (ut_event t) = EVENT_SEND_LEARN_MODE_OFF \<and> p = LearnOff"
  defines "st \<equiv> rx_data (uart2_msg w) ! 5"
  shows "\<exists>t' w'. uart_ac (t, w) = Some (t', w') \<and> messageFlag (uart2_msg w') = NO \<and>
    shows_page w' (if st = 3 then Learn else p) \<and>
    event (ut_event t') = (if st = 3 then EVENT_NULL else event (ut_event t)) \<and>
    infrared_event w' = (if st = 1 \<or> st = 3 then ut_event t' else infrared_event w)"
proof -
  have keep: "pageInfor (learnCallBack r w) = pageInfor w" for r
    by (simp add: learnCallBack_def update_screen_def put_text_def clear_screen_def draw_def)
  have "p = LearnOn \<or> p = LearnOff" using assms(4) by auto
  then have par: "drop_bit 8 (page_code p) = page_code Learn" by (auto simp: page_code_parent)
  consider (one) "st = 1" | (three) "st = 3" | (oth) "st \<noteq> 1" "st \<noteq> 3" by blast
  then show ?thesis
  proof cases
    case one
    then show ?thesis using assms keep
      by (auto simp: uart_ac_def ac_answer_def Let_def answer_ready_def learn_answer_def setinfraredEvent_def shows_page_def)
  next
    case three
    then show ?thesis using assms par
      by (auto simp: uart_ac_def ac_answer_def Let_def answer_ready_def learn_answer_def setinfraredEvent_def
          shows_page_def set_event_def pageReturn_def)
  next
    case oth
    then show ?thesis using assms
      by (auto simp: uart_ac_def ac_answer_def Let_def answer_ready_def learn_answer_def shows_page_def)
  qed
qed

definition learn_world :: world where
  "learn_world = match_world\<lparr>pageInfor := 0x010405,
     uart2_msg := match_answer\<lparr>rx_data := [0xAA, 0x55, 4, 0x84, 0, 3, 0] @ replicate 93 0\<rparr>\<rparr>"

theorem learn_session_witness:
  "\<exists>t' w'. uart_ac (test_task\<lparr>ut_event := \<lparr>event = 6, ev_call_back = CB_learnCallBack\<rparr>\<rparr>, learn_world) = Some (t', w') \<and>
     shows_page w' Learn \<and> event (infrared_event w') = EVENT_NULL"
proof -
  have "shows_page learn_world LearnOn" "answer_ready (uart2_msg learn_world)" "rx_data (uart2_msg learn_world) ! 5 = 3"
    by (simp_all add: learn_world_def match_answer_def answer_ready_def shows_page_def)
  with learn_session [of learn_world LearnOn "test_task\<lparr>ut_event := \<lparr>event = 6, ev_call_back = CB_learnCallBack\<rparr>\<rparr>"]
  show ?thesis by auto
qed

section \<open>Locating the module\<close>

text \<open>The LED writes of \<open>n\<close> calls of \<open>LED_TEST\<close>.\<close>

definition blinks :: "world \<Rightarrow> nat \<Rightarrow> effect list" where
  "blinks w n = map (\<lambda>i. Pin_write LED_STATE (if odd (unat (led_state w) + i) then YES else NO)) [0..<n]"

lemma mod2_u8: "(x mod 2 \<noteq> 0) = odd (unat x)" for x :: u8
proof -
  have "unat (x mod 2) = unat x mod 2" by (simp add: unat_mod)
  then show ?thesis by (metis odd_iff_mod_2_eq_one parity_cases unat_eq_zero zero_neq_one)
qed

lemma odd_of_nat_u8: "odd (unat (x + of_nat n)) = odd (unat x + n)" for x :: u8
  by (simp add: unat_word_ariths unat_of_nat dvd_mod_iff)

lemma LED_TEST_trace: "trace (LED_TEST w) = trace w @ [Pin_write LED_STATE (if odd (unat (led_state w)) then YES else NO)]"
  using mod2_u8 [of "led_state w"] by (simp add: LED_TEST_def rt_pin_write_def out_def)

lemma locate_running:
  assumes "ut_Timer100msTouch t = YES" "mi_find_location (module_info w) = YES" "find_location_cnt t = 0" "n \<le> 600"
  shows "\<exists>w'. (uart_100ms ^^ n) (t, w) = (t\<lparr>find_location_cnt := of_nat n\<rparr>, w') \<and> module_info w' = module_info w \<and>
    led_state w' = led_state w + of_nat n \<and> trace w' = trace w @ blinks w n"
  using assms(4)
proof (induction n)
  case 0
  then show ?case using assms(3) by (simp add: blinks_def)
next
  case (Suc n)
  then obtain w' where IH: "(uart_100ms ^^ n) (t, w) = (t\<lparr>find_location_cnt := of_nat n\<rparr>, w')" "module_info w' = module_info w"
    "led_state w' = led_state w + of_nat n" "trace w' = trace w @ blinks w n" by auto
  have "(of_nat n :: u16) < 600" using Suc.prems by (simp add: word_less_nat_alt unat_of_nat)
  then have "(uart_100ms ^^ Suc n) (t, w) = (t\<lparr>find_location_cnt := of_nat (Suc n)\<rparr>, LED_TEST w')"
    using IH(1,2) assms(1,2) by (simp add: uart_100ms_def getModuleInfo_def)
  moreover have "module_info (LED_TEST w') = module_info w" "led_state (LED_TEST w') = led_state w + of_nat (Suc n)"
    using IH(2,3) by (simp_all add: LED_TEST_def rt_pin_write_def out_def)
  moreover have "trace (LED_TEST w') = trace w @ blinks w (Suc n)"
    using IH(3,4) odd_of_nat_u8 [of "led_state w" n] by (simp add: LED_TEST_trace blinks_def)
  ultimately show ?case by blast
qed

text \<open>
  Locating the module. Once the hub has asked for the locate register the LED changes level on
  each of the next 600 rounds of the 100 ms timer, and the round after them clears the
  register and changes nothing else. (That timer fires every third pass of the 50 ms loop, so
  the blinking lasts 90 s, not the minute of the source comment.)
\<close>

theorem locate_blinks_600:
  assumes "ut_Timer100msTouch t = YES" "mi_find_location (module_info w) = YES" "find_location_cnt t = 0"
  shows "(\<forall>n\<le>600. trace (snd ((uart_100ms ^^ n) (t, w))) = trace w @ blinks w n \<and>
            mi_find_location (module_info (snd ((uart_100ms ^^ n) (t, w)))) = YES) \<and>
    trace (snd ((uart_100ms ^^ 601) (t, w))) = trace w @ blinks w 600 \<and>
    module_info (snd ((uart_100ms ^^ 601) (t, w))) = (module_info w)\<lparr>mi_find_location := NO\<rparr> \<and>
    find_location_cnt (fst ((uart_100ms ^^ 601) (t, w))) = 0"
proof -
  obtain w' where w': "(uart_100ms ^^ 600) (t, w) = (t\<lparr>find_location_cnt := of_nat 600\<rparr>, w')" "module_info w' = module_info w"
    "trace w' = trace w @ blinks w 600" using locate_running [OF assms, of 600] by auto
  have "(uart_100ms ^^ 601) (t, w) = uart_100ms ((uart_100ms ^^ 600) (t, w))"
    using funpow.simps(2) [of 600 uart_100ms] by simp
  then have "(uart_100ms ^^ 601) (t, w) = (t\<lparr>find_location_cnt := 0\<rparr>, upd_info (mi_find_location_update (\<lambda>_. NO)) w')"
    using w'(1,2) assms(1,2) by (simp add: uart_100ms_def getModuleInfo_def)
  moreover have "\<forall>n\<le>600. trace (snd ((uart_100ms ^^ n) (t, w))) = trace w @ blinks w n \<and>
      mi_find_location (module_info (snd ((uart_100ms ^^ n) (t, w)))) = YES"
    using locate_running [OF assms] assms(2) by (metis snd_conv)
  ultimately show ?thesis using w' by (simp add: upd_info_def)
qed

theorem locate_blinks_600_witness:
  "trace (snd ((uart_100ms ^^ 2) (test_task\<lparr>ut_Timer100msTouch := 1\<rparr>, test_world\<lparr>module_info := reset_info\<lparr>mi_find_location := 1\<rparr>\<rparr>))) =
     [Pin_write LED_STATE 0, Pin_write LED_STATE 1] \<and>
   mi_find_location (module_info (snd ((uart_100ms ^^ 601)
     (test_task\<lparr>ut_Timer100msTouch := 1\<rparr>, test_world\<lparr>module_info := reset_info\<lparr>mi_find_location := 1\<rparr>\<rparr>)))) = 0"
proof -
  let ?t = "test_task\<lparr>ut_Timer100msTouch := 1\<rparr>" let ?w = "test_world\<lparr>module_info := reset_info\<lparr>mi_find_location := 1\<rparr>\<rparr>"
  have pre: "ut_Timer100msTouch ?t = YES" "mi_find_location (module_info ?w) = YES" "find_location_cnt ?t = 0"
    by (simp_all add: test_task_def UartTaskEntry_start_def Let_def)
  have "trace ?w = []" "blinks ?w 2 = [Pin_write LED_STATE 0, Pin_write LED_STATE 1]"
    by (simp_all add: test_world_def reset_world_def blinks_def numeral_eq_Suc)
  with locate_blinks_600 [OF pre] show ?thesis by auto
qed

section \<open>The receive buffers\<close>

text \<open>
  The receive interrupts store past their buffers exactly for frames of more than 100
  bytes. Nothing bounds the copy, and the serial driver below delivers up to 255 bytes at
  once.
\<close>

theorem rx_overrun:
  assumes "msg_ok (uart1_msg w)" "msg_ok (uart2_msg w)"
  shows "(Uart1_input (length bs) bs w = None) = (100 < length bs) \<and>
    (Uart2_input (length bs) bs w = None) = (100 < length bs)"
  using assms by (auto simp: Uart1_input_def Uart2_input_def Let_def put_bytes_def msg_ok_def)

theorem rx_overrun_witness: "Uart1_input 101 (replicate 101 0) test_world = None"
proof -
  have "msg_ok (uart2_msg test_world)" by (simp add: test_world_def reset_world_def reset_msg_def msg_ok_def)
  with rx_overrun [of test_world "replicate 101 0"] test_world_msg(1) show ?thesis by simp
qed

end
