(* ===== verification/Rt_Mem.thy ===== *)
theory Rt_Mem
  imports Base
begin

text \<open>
  The memory allocator below the hub protocol: RT-Thread's small-memory manager,
  \<^verbatim>\<open>rt-thread/src/mem.c\<close>. The heap is one region of memory, tiled by blocks; each block
  starts with a header of 12 bytes that holds a magic number, a used flag and the offsets of
  the next and the previous block.

  Pointers are offsets from \<open>heap_ptr\<close>, sizes are natural numbers with the 32-bit wrap-around
  of \<open>rt_size_t\<close> written out. The headers (\<open>heap_hdr\<close>) and the user bytes (\<open>heap_data\<close>) are two
  maps over the offsets; that no header lies inside a block is what \<open>heap_repr\<close> says. A failed
  \<open>RT_ASSERT\<close> and an endless search are both \<open>None\<close>: neither returns. The semaphore makes the
  operations atomic and is left out.
\<close>

section \<open>State\<close>

definition HEAP_MAGIC :: u16 where "HEAP_MAGIC = 0x1ea0"
definition MIN_SIZE_ALIGNED :: nat where [simp]: "MIN_SIZE_ALIGNED = 12"
definition SIZEOF_STRUCT_MEM :: nat where [simp]: "SIZEOF_STRUCT_MEM = 12"

record heap_mem =
  hm_magic :: u16
  hm_used :: u16
  hm_next :: nat
  hm_prev :: nat

record heap_state =
  heap_hdr :: "nat \<Rightarrow> heap_mem"
  heap_data :: "nat \<Rightarrow> u8"
  heap_end :: nat
  lfree :: nat
  mem_size_aligned :: nat
  used_mem :: nat
  max_mem :: nat

text \<open>Arithmetic of \<open>rt_size_t\<close>.\<close>

definition add32 :: "nat \<Rightarrow> nat \<Rightarrow> nat" where "add32 a b = (a + b) mod 2 ^ 32"
definition sub32 :: "nat \<Rightarrow> nat \<Rightarrow> nat" where "sub32 a b = (a + 2 ^ 32 - b) mod 2 ^ 32"

definition RT_ALIGN :: "nat \<Rightarrow> nat" where "RT_ALIGN n = add32 n 3 div 4 * 4"
definition RT_ALIGN_DOWN :: "nat \<Rightarrow> nat" where "RT_ALIGN_DOWN n = n div 4 * 4"

definition set_next :: "nat \<Rightarrow> nat \<Rightarrow> heap_state \<Rightarrow> heap_state" where
  "set_next p v h = h\<lparr>heap_hdr := (heap_hdr h)(p := (heap_hdr h p)\<lparr>hm_next := v\<rparr>)\<rparr>"

definition set_prev :: "nat \<Rightarrow> nat \<Rightarrow> heap_state \<Rightarrow> heap_state" where
  "set_prev p v h = h\<lparr>heap_hdr := (heap_hdr h)(p := (heap_hdr h p)\<lparr>hm_prev := v\<rparr>)\<rparr>"

definition set_hdr :: "nat \<Rightarrow> heap_mem \<Rightarrow> heap_state \<Rightarrow> heap_state" where
  "set_hdr p m h = h\<lparr>heap_hdr := (heap_hdr h)(p := m)\<rparr>"

section \<open>Operations\<close>

text \<open>\<open>raw\<close> and \<open>bytes\<close> are what the region holds before; a region that is too small is refused
  (\<open>None\<close>).\<close>

definition rt_system_heap_init :: "nat \<Rightarrow> nat \<Rightarrow> (nat \<Rightarrow> heap_mem) \<Rightarrow> (nat \<Rightarrow> u8) \<Rightarrow> heap_state option" where
  "rt_system_heap_init begin_addr end_addr raw bytes =
     (let begin_align = RT_ALIGN begin_addr; end_align = RT_ALIGN_DOWN end_addr
      in if end_align > 2 * SIZEOF_STRUCT_MEM \<and> sub32 end_align (2 * SIZEOF_STRUCT_MEM) \<ge> begin_align then
           let n = sub32 (sub32 end_align begin_align) (2 * SIZEOF_STRUCT_MEM);
               e = add32 n SIZEOF_STRUCT_MEM
           in Some \<lparr>heap_hdr = raw
                  (0 := \<lparr>hm_magic = HEAP_MAGIC, hm_used = 0, hm_next = e, hm_prev = 0\<rparr>,
                   e := \<lparr>hm_magic = HEAP_MAGIC, hm_used = 1, hm_next = e, hm_prev = e\<rparr>),
                heap_data = bytes, heap_end = e, lfree = 0, mem_size_aligned = n, used_mem = 0, max_mem = 0\<rparr>
         else None)"

text \<open>The two halves of \<open>plug_holes\<close>: join the free block \<open>mem\<close> with a free successor, then
  with a free predecessor.\<close>

definition plug_forward :: "nat \<Rightarrow> heap_state \<Rightarrow> heap_state" where
  "plug_forward mem h =
     (let nmem = hm_next (heap_hdr h mem)
      in if mem \<noteq> nmem \<and> hm_used (heap_hdr h nmem) = 0 \<and> nmem \<noteq> heap_end h then
           let h = (if lfree h = nmem then h\<lparr>lfree := mem\<rparr> else h);
               h = set_next mem (hm_next (heap_hdr h nmem)) h
           in set_prev (hm_next (heap_hdr h nmem)) mem h
         else h)"

definition plug_backward :: "nat \<Rightarrow> heap_state \<Rightarrow> heap_state" where
  "plug_backward mem h =
     (let pmem = hm_prev (heap_hdr h mem)
      in if pmem \<noteq> mem \<and> hm_used (heap_hdr h pmem) = 0 then
           let h = (if lfree h = mem then h\<lparr>lfree := pmem\<rparr> else h);
               h = set_next pmem (hm_next (heap_hdr h mem)) h
           in set_prev (hm_next (heap_hdr h mem)) pmem h
         else h)"

definition plug_holes :: "nat \<Rightarrow> heap_state \<Rightarrow> heap_state option" where
  "plug_holes mem h =
     (if mem < heap_end h \<and> hm_used (heap_hdr h mem) = 0
      then Some (plug_backward mem (plug_forward mem h)) else None)"

text \<open>The search of \<open>rt_malloc\<close>: \<open>Some None\<close> when the end of the heap is reached.\<close>

partial_function (option) malloc_search :: "nat \<Rightarrow> nat \<Rightarrow> heap_state \<Rightarrow> nat option option" where
  "malloc_search sz ptr h =
     (if ptr < sub32 (mem_size_aligned h) sz then
        let mem = heap_hdr h ptr
        in if hm_used mem = 0 \<and> sub32 (hm_next mem) (ptr + SIZEOF_STRUCT_MEM) \<ge> sz then Some (Some ptr)
           else malloc_search sz (hm_next mem) h
      else Some None)"

text \<open>\<open>while (lfree->used && lfree != heap_end) lfree = lfree->next\<close>.\<close>

partial_function (option) lfree_advance :: "nat \<Rightarrow> heap_state \<Rightarrow> nat option" where
  "lfree_advance p h =
     (if hm_used (heap_hdr h p) \<noteq> 0 \<and> p \<noteq> heap_end h then lfree_advance (hm_next (heap_hdr h p)) h else Some p)"

definition count_used :: "nat \<Rightarrow> heap_state \<Rightarrow> heap_state" where
  "count_used n h = (let u = add32 (used_mem h) n in h\<lparr>used_mem := u, max_mem := max (max_mem h) u\<rparr>)"

text \<open>Taking \<open>size\<close> bytes from the free block at \<open>ptr\<close>: split it if a header and
  \<open>MIN_SIZE_ALIGNED\<close> bytes are left.\<close>

definition malloc_take :: "nat \<Rightarrow> nat \<Rightarrow> heap_state \<Rightarrow> heap_state" where
  "malloc_take sz ptr h =
     (let mem = heap_hdr h ptr in
      if sub32 (hm_next mem) (ptr + SIZEOF_STRUCT_MEM) \<ge> sz + SIZEOF_STRUCT_MEM + MIN_SIZE_ALIGNED then
        let ptr2 = ptr + SIZEOF_STRUCT_MEM + sz;
            h = set_hdr ptr2 \<lparr>hm_magic = HEAP_MAGIC, hm_used = 0, hm_next = hm_next mem, hm_prev = ptr\<rparr> h;
            h = set_hdr ptr (mem\<lparr>hm_next := ptr2, hm_used := 1\<rparr>) h;
            h = (if hm_next mem \<noteq> mem_size_aligned h + SIZEOF_STRUCT_MEM then set_prev (hm_next mem) ptr2 h else h)
        in count_used (sz + SIZEOF_STRUCT_MEM) h
      else count_used (sub32 (hm_next mem) ptr) (set_hdr ptr (mem\<lparr>hm_used := 1\<rparr>) h))"

text \<open>The block at \<open>ptr\<close> is taken and \<open>lfree\<close> moved on if it was the lowest free block.\<close>

definition malloc_block :: "nat \<Rightarrow> nat \<Rightarrow> heap_state \<Rightarrow> (nat option \<times> heap_state) option" where
  "malloc_block sz ptr h = do {
     let h = malloc_take sz ptr h;
     let h = set_hdr ptr ((heap_hdr h ptr)\<lparr>hm_magic := HEAP_MAGIC\<rparr>) h;
     h \<leftarrow> (if ptr = lfree h then do {
             l \<leftarrow> lfree_advance (lfree h) h;
             if l = heap_end h \<or> hm_used (heap_hdr h l) = 0 then Some (h\<lparr>lfree := l\<rparr>) else None
           } else Some h);
     if ptr + SIZEOF_STRUCT_MEM + sz > heap_end h \<or> ptr mod 4 \<noteq> 0 then None
     else Some (Some (ptr + SIZEOF_STRUCT_MEM), h)
   }"

definition rt_malloc :: "nat \<Rightarrow> heap_state \<Rightarrow> (nat option \<times> heap_state) option" where
  "rt_malloc n h =
     (if n = 0 then Some (None, h)
      else let sz = RT_ALIGN n in
        if sz > mem_size_aligned h then Some (None, h)
        else let sz = (if sz < MIN_SIZE_ALIGNED then MIN_SIZE_ALIGNED else sz)
          in do {
            found \<leftarrow> malloc_search sz (lfree h) h;
            case found of None \<Rightarrow> Some (None, h) | Some ptr \<Rightarrow> malloc_block sz ptr h
          })"

text \<open>Freeing a pointer outside the heap or one that is not a used block fails an assertion.\<close>

definition rt_free :: "nat option \<Rightarrow> heap_state \<Rightarrow> heap_state option" where
  "rt_free rmem h = (case rmem of None \<Rightarrow> Some h
   | Some p \<Rightarrow>
       if p mod 4 \<noteq> 0 \<or> p < SIZEOF_STRUCT_MEM \<or> p \<ge> heap_end h then None
       else let mem = p - SIZEOF_STRUCT_MEM; m = heap_hdr h mem
         in if hm_used m = 0 \<or> hm_magic m \<noteq> HEAP_MAGIC then None
            else let h = set_hdr mem (m\<lparr>hm_used := 0, hm_magic := HEAP_MAGIC\<rparr>) h;
                     h = (if mem < lfree h then h\<lparr>lfree := mem\<rparr> else h);
                     h = h\<lparr>used_mem := sub32 (used_mem h) (sub32 (hm_next m) mem)\<rparr>
                 in plug_holes mem h)"

definition copy_data :: "nat \<Rightarrow> nat \<Rightarrow> nat \<Rightarrow> heap_state \<Rightarrow> heap_state" where
  "copy_data dst src n h = h\<lparr>heap_data := (\<lambda>x. if dst \<le> x \<and> x < dst + n then heap_data h (src + (x - dst)) else heap_data h x)\<rparr>"

definition realloc_shrink :: "nat \<Rightarrow> nat \<Rightarrow> nat \<Rightarrow> heap_state \<Rightarrow> heap_state option" where
  "realloc_shrink newsize sz ptr h =
     (let mem = heap_hdr h ptr;
          h = h\<lparr>used_mem := sub32 (used_mem h) (sz - newsize)\<rparr>;
          ptr2 = ptr + SIZEOF_STRUCT_MEM + newsize;
          h = set_hdr ptr2 \<lparr>hm_magic = HEAP_MAGIC, hm_used = 0, hm_next = hm_next mem, hm_prev = ptr\<rparr> h;
          h = set_hdr ptr (mem\<lparr>hm_next := ptr2\<rparr>) h;
          h = (if hm_next mem \<noteq> mem_size_aligned h + SIZEOF_STRUCT_MEM then set_prev (hm_next mem) ptr2 h else h);
          h = (if ptr2 < lfree h then h\<lparr>lfree := ptr2\<rparr> else h)
      in plug_holes ptr2 h)"

definition rt_realloc :: "nat option \<Rightarrow> nat \<Rightarrow> heap_state \<Rightarrow> (nat option \<times> heap_state) option" where
  "rt_realloc rmem n h =
     (let newsize = RT_ALIGN n in
      if newsize > mem_size_aligned h then Some (None, h)
      else if newsize = 0 then map_option (Pair None) (rt_free rmem h)
      else case rmem of None \<Rightarrow> rt_malloc newsize h
      | Some p \<Rightarrow>
          if p \<ge> heap_end h then Some (Some p, h)
          else if p < SIZEOF_STRUCT_MEM then None
          else let ptr = p - SIZEOF_STRUCT_MEM;
                   sz = sub32 (hm_next (heap_hdr h ptr)) (ptr + SIZEOF_STRUCT_MEM)
            in if sz = newsize then Some (Some p, h)
               else if newsize + SIZEOF_STRUCT_MEM + MIN_SIZE_ALIGNED < sz
               then map_option (Pair (Some p)) (realloc_shrink newsize sz ptr h)
               else do {
                 (nmem, h) \<leftarrow> rt_malloc newsize h;
                 case nmem of None \<Rightarrow> Some (None, h)
                 | Some q \<Rightarrow> map_option (Pair nmem) (rt_free rmem (copy_data q p (min sz newsize) h))
               })"

definition rt_calloc :: "nat \<Rightarrow> nat \<Rightarrow> heap_state \<Rightarrow> (nat option \<times> heap_state) option" where
  "rt_calloc count sz h =
     (let n = (count * sz) mod 2 ^ 32
      in map_option (\<lambda>(p, h). (p, case p of None \<Rightarrow> h
           | Some q \<Rightarrow> h\<lparr>heap_data := (\<lambda>x. if q \<le> x \<and> x < q + n then 0 else heap_data h x)\<rparr>)) (rt_malloc n h))"

definition rt_memory_info :: "heap_state \<Rightarrow> nat \<times> nat \<times> nat" where
  "rt_memory_info h = (mem_size_aligned h, used_mem h, max_mem h)"

end
