(* ===== verification/Rt_Mem_Props.thy ===== *)
theory Rt_Mem_Props
  imports Rt_Mem
begin

text \<open>
  Correctness of the allocator. The headers of a heap in good order represent a list of
  blocks, each a size and a used flag (\<open>heap_repr\<close>): the blocks tile the region, the links
  agree with the sizes, no two neighbours are both free, and \<open>lfree\<close> is the first free block.
  Every operation is shown to keep this and to do to the list what it should.
\<close>

section \<open>Blocks\<close>

type_synonym blocks = "(nat \<times> bool) list"

fun span :: "blocks \<Rightarrow> nat" where
  "span [] = 0"
| "span ((n, u) # bs) = 12 + n + span bs"

text \<open>The header of a block of \<open>n\<close> bytes at \<open>a\<close> whose predecessor is at \<open>pr\<close>.\<close>

definition block_hdr :: "nat \<Rightarrow> nat \<Rightarrow> nat \<Rightarrow> bool \<Rightarrow> heap_mem" where
  "block_hdr pr a n u = \<lparr>hm_magic = HEAP_MAGIC, hm_used = of_bool u, hm_next = a + 12 + n, hm_prev = pr\<rparr>"

fun tiles :: "(nat \<Rightarrow> heap_mem) \<Rightarrow> nat \<Rightarrow> nat \<Rightarrow> blocks \<Rightarrow> bool" where
  "tiles H pr a [] = True"
| "tiles H pr a ((n, u) # bs) = (H a = block_hdr pr a n u \<and> 0 < n \<and> n mod 4 = 0 \<and> tiles H a (a + 12 + n) bs)"

fun prev_of :: "nat \<Rightarrow> nat \<Rightarrow> blocks \<Rightarrow> nat" where
  "prev_of pr a [] = pr"
| "prev_of pr a ((n, u) # bs) = prev_of a (a + 12 + n) bs"

fun first_free :: "nat \<Rightarrow> blocks \<Rightarrow> nat" where
  "first_free a [] = a"
| "first_free a ((n, u) # bs) = (if u then first_free (a + 12 + n) bs else a)"

fun used_span :: "blocks \<Rightarrow> nat" where
  "used_span [] = 0"
| "used_span ((n, u) # bs) = (if u then 12 + n else 0) + used_span bs"

text \<open>The areas handed out: pointer and size of every used block.\<close>

fun areas :: "nat \<Rightarrow> blocks \<Rightarrow> (nat \<times> nat) set" where
  "areas a [] = {}"
| "areas a ((n, u) # bs) = (if u then {(a + 12, n)} else {}) \<union> areas (a + 12 + n) bs"

definition heap_tiled :: "heap_state \<Rightarrow> blocks \<Rightarrow> bool" where
  "heap_tiled h bs \<longleftrightarrow> tiles (heap_hdr h) 0 0 bs \<and> span bs = heap_end h \<and>
     heap_end h = mem_size_aligned h + 12 \<and> 12 \<le> mem_size_aligned h \<and> heap_end h + 12 < 2 ^ 32 \<and>
     hm_used (heap_hdr h (heap_end h)) = 1 \<and> lfree h = first_free 0 bs \<and> used_mem h = used_span bs"

definition no_free_pair :: "blocks \<Rightarrow> bool" where
  "no_free_pair bs \<longleftrightarrow> successively (\<lambda>x y. snd x \<or> snd y) bs"

definition heap_repr :: "heap_state \<Rightarrow> blocks \<Rightarrow> bool" where
  "heap_repr h bs \<longleftrightarrow> heap_tiled h bs \<and> no_free_pair bs \<and> used_mem h \<le> max_mem h"

section \<open>Lists of blocks\<close>

lemma span_append [simp]: "span (xs @ ys) = span xs + span ys"
  by (induction xs rule: span.induct) simp_all

lemma used_span_append [simp]: "used_span (xs @ ys) = used_span xs + used_span ys"
  by (induction xs rule: span.induct) simp_all

lemma used_span_le: "used_span bs \<le> span bs"
  by (induction bs rule: span.induct) auto

lemma prev_of_append [simp]: "prev_of pr a (xs @ ys) = prev_of (prev_of pr a xs) (a + span xs) ys"
  by (induction pr a xs rule: prev_of.induct) (simp_all add: add.assoc)

lemma tiles_append [simp]:
  "tiles H pr a (xs @ ys) \<longleftrightarrow> tiles H pr a xs \<and> tiles H (prev_of pr a xs) (a + span xs) ys"
  by (induction H pr a xs rule: tiles.induct) (simp_all add: add.assoc)

lemma areas_append [simp]: "areas a (xs @ ys) = areas a xs \<union> areas (a + span xs) ys"
  by (induction a xs rule: areas.induct) (auto simp: add.assoc)

lemma first_free_append [simp]:
  "first_free a (xs @ ys) = (if \<forall>b\<in>set xs. snd b then first_free (a + span xs) ys else first_free a xs)"
  by (induction a xs rule: first_free.induct) (auto simp: add.assoc)

lemma first_free_bounds: "a \<le> first_free a bs \<and> first_free a bs \<le> a + span bs"
  by (induction a bs rule: first_free.induct) auto

lemma first_free_in: "\<exists>b\<in>set xs. \<not> snd b \<Longrightarrow> first_free a xs < a + span xs"
  by (induction a xs rule: first_free.induct) auto

text \<open>Updates outside the tiled range.\<close>

lemma tiles_upd_below [simp]: "x < a \<Longrightarrow> tiles (H(x := m)) pr a bs = tiles H pr a bs"
  by (induction H pr a bs rule: tiles.induct) auto

lemma tiles_upd_above [simp]: "a + span bs \<le> x \<Longrightarrow> tiles (H(x := m)) pr a bs = tiles H pr a bs"
  by (induction H pr a bs rule: tiles.induct) auto

text \<open>Changing the predecessor of the first block.\<close>

lemma tiles_set_prev:
  "tiles H pr a bs \<Longrightarrow> tiles (H(a := (H a)\<lparr>hm_prev := q\<rparr>)) q a bs"
  by (cases bs) (auto simp: block_hdr_def)

lemma prev_of_lt: "xs \<noteq> [] \<Longrightarrow> prev_of pr a xs < a + span xs"
proof (induction pr a xs rule: prev_of.induct)
  case (2 pr a n u bs)
  then show ?case by (cases "bs = []") (auto simp: add.assoc)
qed simp

lemma areas_bounds: "(p, n) \<in> areas a bs \<Longrightarrow> a + 12 \<le> p \<and> p + n \<le> a + span bs"
  by (induction a bs rule: areas.induct) (fastforce split: if_splits)+

text \<open>Areas do not overlap the header of a block, nor each other.\<close>

lemma areas_off_header: "(p, n) \<in> areas a (us @ vs) \<Longrightarrow> a + span us + 12 \<le> p \<or> p + n \<le> a + span us"
  using areas_bounds [of p n a us] areas_bounds [of p n "a + span us" vs] by auto

lemma areas_disjoint:
  "(p, n) \<in> areas a bs \<Longrightarrow> (q, k) \<in> areas a bs \<Longrightarrow> (p, n) \<noteq> (q, k) \<Longrightarrow> p + n \<le> q \<or> q + k \<le> p"
proof (induction a bs rule: areas.induct)
  case (2 a m u bs)
  then show ?case
    using areas_bounds [of p n "a + 12 + m" bs] areas_bounds [of q k "a + 12 + m" bs]
    by (auto split: if_splits)
qed simp

lemma areas_split:
  "(p, n) \<in> areas a bs \<Longrightarrow> \<exists>xs ys. bs = xs @ (n, True) # ys \<and> p = a + span xs + 12"
proof (induction a bs rule: areas.induct)
  case (2 a m u bs)
  show ?case
  proof (cases "(p, n) \<in> areas (a + 12 + m) bs")
    case True
    with 2 obtain xs ys where "bs = xs @ (n, True) # ys" "p = a + 12 + m + span xs + 12" by auto
    then show ?thesis by (intro exI [of _ "(m, u) # xs"] exI [of _ ys]) simp
  next
    case False
    with 2 show ?thesis by (intro exI [of _ "[]"] exI [of _ bs]) (auto split: if_splits)
  qed
qed simp

lemma tiles_mult4: "tiles H pr a bs \<Longrightarrow> span bs mod 4 = 0"
proof (induction H pr a bs rule: tiles.induct)
  case (2 H pr a n u bs)
  then have "span bs mod 4 = 0" "n mod 4 = 0" by auto
  then show ?case by (simp add: mod_eq_0_iff_dvd)
qed simp

lemma sub32_le: "b \<le> a \<Longrightarrow> a < 2 ^ 32 \<Longrightarrow> sub32 a b = a - b"
proof -
  assume a: "b \<le> a" "a < 2 ^ 32"
  then have "a + 2 ^ 32 - b = (a - b) + 2 ^ 32" by linarith
  moreover have "((a - b) + 2 ^ 32) mod 2 ^ 32 = (a - b) mod 2 ^ 32" by (rule mod_add_self2)
  ultimately show ?thesis using a unfolding sub32_def by simp
qed

lemma add32_lt: "a + b < 2 ^ 32 \<Longrightarrow> add32 a b = a + b"
  by (simp add: add32_def)

section \<open>Searching\<close>

text \<open>First fit from \<open>a\<close> on, with the bound of the code's loop.\<close>

fun find_fit :: "nat \<Rightarrow> nat \<Rightarrow> nat \<Rightarrow> blocks \<Rightarrow> nat option" where
  "find_fit N sz a [] = None"
| "find_fit N sz a ((n, u) # bs) =
     (if a < N - sz then if \<not> u \<and> sz \<le> n then Some a else find_fit N sz (a + 12 + n) bs else None)"

lemma malloc_search_fit:
  assumes "tiles (heap_hdr h) pr a bs" "a + span bs = heap_end h" "heap_end h = mem_size_aligned h + 12"
    and "heap_end h < 2 ^ 32" "sz \<le> mem_size_aligned h"
  shows "malloc_search sz a h = Some (find_fit (mem_size_aligned h) sz a bs)"
  using assms(1,2)
proof (induction bs arbitrary: pr a)
  case Nil
  then have "\<not> a < sub32 (mem_size_aligned h) sz" using assms(3-5) by (simp add: sub32_le)
  then show ?case by (subst malloc_search.simps) simp
next
  case (Cons b bs)
  obtain n u where b: "b = (n, u)" by (cases b)
  have "sub32 (a + 12 + n) (a + 12) = n" using Cons.prems(2) assms(4) b by (subst sub32_le) auto
  moreover have "malloc_search sz (a + 12 + n) h = Some (find_fit (mem_size_aligned h) sz (a + 12 + n) bs)"
    using Cons.prems b by (intro Cons.IH) auto
  ultimately show ?case using Cons.prems(1) b assms(3-5)
    by (subst malloc_search.simps) (simp add: sub32_le block_hdr_def Let_def)
qed

lemma find_fit_Some:
  "find_fit N sz a bs = Some p \<Longrightarrow>
   \<exists>xs n ys. bs = xs @ (n, False) # ys \<and> p = a + span xs \<and> sz \<le> n"
proof (induction N sz a bs rule: find_fit.induct)
  case (2 N sz a n u bs)
  show ?case
  proof (cases "\<not> u \<and> sz \<le> n")
    case True
    with 2 show ?thesis by (intro exI [of _ "[]"]) (auto split: if_splits)
  next
    case False
    with 2 obtain xs m ys where "bs = xs @ (m, False) # ys" "p = a + 12 + n + span xs" "sz \<le> m"
      by (auto split: if_splits)
    then show ?thesis by (intro exI [of _ "(n, u) # xs"]) auto
  qed
qed simp

text \<open>The search misses only an exact fit at the very end of the heap.\<close>

lemma find_fit_None:
  "find_fit N sz a (xs @ (n, False) # ys) = None \<Longrightarrow> a + span (xs @ (n, False) # ys) = N + 12 \<Longrightarrow>
   sz \<le> n \<Longrightarrow> n = sz \<and> ys = []"
proof (induction xs arbitrary: a)
  case Nil
  then have "\<not> a < N - sz" "a + 12 + n + span ys = N + 12" by (auto split: if_splits)
  with Nil.prems(3) have "n = sz" "span ys = 0" by auto
  moreover have "span ys = 0 \<Longrightarrow> ys = []" by (cases ys rule: span.cases) auto
  ultimately show ?case by blast
next
  case (Cons b xs)
  obtain m u where b: "b = (m, u)" by (cases b)
  have "find_fit N sz (a + 12 + m) (xs @ (n, False) # ys) = None \<or> \<not> a < N - sz"
    using Cons.prems(1) b by (auto split: if_splits)
  then show ?case using Cons.prems b Cons.IH [of "a + 12 + m"] by auto
qed

lemma lfree_advance_first:
  assumes "tiles (heap_hdr h) pr a bs" "a + span bs = heap_end h"
  shows "lfree_advance a h = Some (first_free a bs)"
  using assms
proof (induction bs arbitrary: pr a)
  case Nil
  then show ?case by (subst lfree_advance.simps) simp
next
  case (Cons b bs)
  obtain n u where b: "b = (n, u)" by (cases b)
  have "lfree_advance (a + 12 + n) h = Some (first_free (a + 12 + n) bs)"
    using Cons.prems b by (intro Cons.IH) auto
  then show ?case using Cons.prems b
    by (subst lfree_advance.simps) (auto simp: block_hdr_def)
qed

lemma first_free_hdr: "tiles H pr a bs \<Longrightarrow> first_free a bs = a + span bs \<or> hm_used (H (first_free a bs)) = 0"
  by (induction H pr a bs rule: tiles.induct) (auto simp: block_hdr_def)

section \<open>Taking a block\<close>

lemmas heap_sets = set_next_def set_prev_def set_hdr_def count_used_def Let_def

text \<open>Replacing the free block \<open>n\<close> by used \<open>sz\<close> and a free rest.\<close>

definition taken :: "nat \<Rightarrow> nat \<Rightarrow> blocks" where
  "taken sz n = (if sz + 24 \<le> n then [(sz, True), (n - sz - 12, False)] else [(n, True)])"

lemma span_taken [simp]: "sz \<le> n \<Longrightarrow> span (taken sz n) = 12 + n"
  by (simp add: taken_def)

lemma tiles_replace:
  assumes "tiles H pr a (xs @ (n, u) # ys)" "0 < sz" "sz mod 4 = 0" "sz + 24 \<le> n" "x = a + span xs"
  defines "H1 \<equiv> (H(x + 12 + sz := block_hdr x (x + 12 + sz) (n - sz - 12) False))
      (x := block_hdr (prev_of pr a xs) x sz True)"
  shows "tiles (H1(x + 12 + n := (H1 (x + 12 + n))\<lparr>hm_prev := x + 12 + sz\<rparr>)) pr a
    (xs @ (sz, True) # (n - sz - 12, False) # ys)"
proof -
  have n4: "(n - sz - 12) mod 4 = 0"
    using assms(1,3,4) by (simp add: mod_eq_0_iff_dvd)
  have t: "tiles H pr a xs" "tiles H x (x + 12 + n) ys" using assms(1,5) by simp_all
  have "tiles H1 x (x + 12 + n) ys" using t(2) assms(4) by (simp add: H1_def)
  then have rest: "tiles (H1(x + 12 + n := (H1 (x + 12 + n))\<lparr>hm_prev := x + 12 + sz\<rparr>)) (x + 12 + sz) (x + 12 + n) ys"
    by (rule tiles_set_prev)
  have eq: "x + 12 + sz + 12 + (n - sz - 12) = x + 12 + n" using assms(4) by linarith
  have "tiles (H1(x + 12 + n := m)) pr a xs" for m using t(1) assms(5) by (simp add: H1_def)
  with rest n4 show ?thesis
    unfolding tiles_append tiles.simps assms(5) [symmetric] eq using assms(2-4) by (simp add: H1_def)
qed

lemma heap_tiledD:
  assumes "heap_tiled h (xs @ (n, u) # ys)"
  shows "heap_hdr h (span xs) = block_hdr (prev_of 0 0 xs) (span xs) n u"
    "span xs + 12 + n + span ys = heap_end h" "heap_end h + 12 < 2 ^ 32" "0 < n" "n mod 4 = 0"
    "sub32 (span xs + 12 + n) (span xs + 12) = n" "sub32 (span xs + 12 + n) (span xs) = 12 + n"
  using assms by (auto simp: heap_tiled_def sub32_le)

lemma used_mem_bound: "heap_tiled h bs \<Longrightarrow> used_span bs < 2 ^ 32"
  using used_span_le [of bs] by (simp add: heap_tiled_def)

lemma span_zero: "span ys = 0 \<Longrightarrow> ys = []"
  by (cases ys rule: span.cases) auto

lemma malloc_take_hdr:
  assumes "heap_tiled h (xs @ (n, False) # ys)" "0 < sz" "sz mod 4 = 0" "sz \<le> n"
  defines "h' \<equiv> malloc_take sz (span xs) h"
  shows "tiles (heap_hdr h') 0 0 (xs @ taken sz n @ ys)" "hm_used (heap_hdr h' (heap_end h)) = 1"
proof -
  note D = heap_tiledD [OF assms(1)]
  have t: "tiles (heap_hdr h) 0 0 (xs @ (n, False) # ys)" and e: "heap_end h = mem_size_aligned h + 12"
    "hm_used (heap_hdr h (heap_end h)) = 1" using assms(1) unfolding heap_tiled_def by blast+
  have "tiles (heap_hdr h') 0 0 (xs @ taken sz n @ ys) \<and> hm_used (heap_hdr h' (heap_end h)) = 1"
  proof (cases "sz + 24 \<le> n")
    case True
    define b2 where "b2 = \<lparr>hm_magic = HEAP_MAGIC, hm_used = 0, hm_next = span xs + 12 + n, hm_prev = span xs\<rparr>"
    define H1 where "H1 = ((heap_hdr h)(span xs + 12 + sz := b2))(span xs := block_hdr (prev_of 0 0 xs) (span xs) sz True)"
    have "span xs + 12 + sz + 12 + (n - sz - 12) = span xs + 12 + n" using True by linarith
    then have b2: "b2 = block_hdr (span xs) (span xs + 12 + sz) (n - sz - 12) False"
      by (simp only: b2_def block_hdr_def) simp
    have r: "tiles (H1(span xs + 12 + n := (H1 (span xs + 12 + n))\<lparr>hm_prev := span xs + 12 + sz\<rparr>)) 0 0
        (xs @ (sz, True) # (n - sz - 12, False) # ys)"
      unfolding H1_def b2 by (rule tiles_replace [OF t assms(2,3) True]) simp
    have H: "heap_hdr h' = (if span xs + 12 + n \<noteq> heap_end h
        then H1(span xs + 12 + n := (H1 (span xs + 12 + n))\<lparr>hm_prev := span xs + 12 + sz\<rparr>) else H1)"
      using D True e by (simp add: h'_def malloc_take_def heap_sets H1_def block_hdr_def b2_def)
    have "span xs + 12 + n = heap_end h \<Longrightarrow> ys = []" using D(2) span_zero by auto
    then have "tiles (heap_hdr h') 0 0 (xs @ taken sz n @ ys)"
      using r True unfolding H by (auto simp: taken_def)
    moreover have "hm_used (heap_hdr h' (heap_end h)) = 1"
      using e(2) D(2) True unfolding H by (auto simp: H1_def)
    ultimately show ?thesis by blast
  next
    case False
    then have "heap_hdr h' = (heap_hdr h)(span xs := block_hdr (prev_of 0 0 xs) (span xs) n True)"
      using D by (simp add: h'_def malloc_take_def heap_sets block_hdr_def)
    then show ?thesis using t D e(2) False by (simp add: taken_def)
  qed
  then show "tiles (heap_hdr h') 0 0 (xs @ taken sz n @ ys)" "hm_used (heap_hdr h' (heap_end h)) = 1" by auto
qed

lemma malloc_take_rest:
  assumes "heap_tiled h (xs @ (n, False) # ys)" "sz \<le> n"
  defines "h' \<equiv> malloc_take sz (span xs) h"
  shows "heap_end h' = heap_end h" "mem_size_aligned h' = mem_size_aligned h" "lfree h' = lfree h" "heap_data h' = heap_data h"
    "used_mem h' = used_span (xs @ taken sz n @ ys)" "max_mem h' = max (max_mem h) (used_mem h')"
proof -
  note D = heap_tiledD [OF assms(1)]
  have u: "used_mem h = used_span xs + used_span ys" using assms(1) by (simp add: heap_tiled_def)
  have "used_span xs + used_span ys + (12 + n) \<le> heap_end h"
    using used_span_le [of xs] used_span_le [of ys] D(2) by linarith
  then have add: "k \<le> 12 + n \<Longrightarrow> add32 (used_mem h) k = used_mem h + k" for k
    using D(3) u by (intro add32_lt) linarith
  show "heap_end h' = heap_end h" "mem_size_aligned h' = mem_size_aligned h" "lfree h' = lfree h" "heap_data h' = heap_data h"
    "used_mem h' = used_span (xs @ taken sz n @ ys)" "max_mem h' = max (max_mem h) (used_mem h')"
    using D u add assms(2) by (auto simp: h'_def malloc_take_def heap_sets block_hdr_def taken_def)
qed

lemma no_free_pair_taken:
  "no_free_pair (xs @ (n, False) # ys) \<Longrightarrow> no_free_pair (xs @ taken sz n @ ys)"
  by (cases ys) (auto simp: no_free_pair_def taken_def successively_append_iff successively_Cons)

lemma first_free_lt: "\<not> (\<forall>b\<in>set xs. snd b) \<Longrightarrow> first_free 0 xs < span xs"
  using first_free_in [of xs 0] by auto

text \<open>What \<open>rt_malloc\<close> does on finding a block.\<close>

lemma malloc_found:
  assumes "heap_repr h (xs @ (n, False) # ys)" "0 < sz" "sz mod 4 = 0" "sz \<le> n"
  defines "h1 \<equiv> malloc_take sz (span xs) h"
  shows "\<exists>h'. heap_repr h' (xs @ taken sz n @ ys) \<and> heap_data h' = heap_data h \<and> mem_size_aligned h' = mem_size_aligned h \<and>
    (let h2 = set_hdr (span xs) ((heap_hdr h1 (span xs))\<lparr>hm_magic := HEAP_MAGIC\<rparr>) h1
     in (if span xs = lfree h2 then do {
           l \<leftarrow> lfree_advance (lfree h2) h2;
           if l = heap_end h2 \<or> hm_used (heap_hdr h2 l) = 0 then Some (h2\<lparr>lfree := l\<rparr>) else None
         } else Some h2) = Some h')"
proof -
  let ?bs = "xs @ (n, False) # ys" let ?bs' = "xs @ taken sz n @ ys"
  have til: "heap_tiled h ?bs" and np: "no_free_pair ?bs" using assms(1) by (simp_all add: heap_repr_def)
  note D = heap_tiledD [OF til]
  note T = malloc_take_hdr [OF til assms(2-4), folded h1_def] malloc_take_rest [OF til assms(4), folded h1_def]
  have hdr: "heap_hdr h1 (span xs) = block_hdr (prev_of 0 0 xs) (span xs) (if sz + 24 \<le> n then sz else n) True"
    using T(1) by (auto simp: taken_def)
  then have h2: "set_hdr (span xs) ((heap_hdr h1 (span xs))\<lparr>hm_magic := HEAP_MAGIC\<rparr>) h1 = h1"
    by (simp add: set_hdr_def block_hdr_def fun_upd_idem)
  have spn: "span ?bs' = span ?bs" using assms(4) by simp
  have repr: "heap_repr (h1\<lparr>lfree := l\<rparr>) ?bs'" if "l = first_free 0 ?bs'" for l
    using til T np that no_free_pair_taken [OF np, of sz] spn
    by (auto simp: heap_repr_def heap_tiled_def)
  have lf: "lfree h1 = first_free 0 ?bs" using T(5) til by (simp add: heap_tiled_def)
  show ?thesis
  proof (cases "\<forall>b\<in>set xs. snd b")
    case True
    then have l1: "lfree h1 = span xs" using lf by simp
    have eq: "first_free (span xs) (taken sz n @ ys) = first_free 0 ?bs'" using True by simp
    have "lfree_advance (span xs) h1 = Some (first_free (span xs) (taken sz n @ ys))"
      using T(1,3) D(2) assms(4) by (intro lfree_advance_first [of _ "prev_of 0 0 xs"]) auto
    moreover have "first_free 0 ?bs' = heap_end h1 \<or> hm_used (heap_hdr h1 (first_free 0 ?bs')) = 0"
      using first_free_hdr [OF T(1)] spn T(3) til by (simp add: heap_tiled_def)
    ultimately show ?thesis unfolding h2 Let_def l1 eq
      using repr [OF refl] T(4,6) by (intro exI [of _ "h1\<lparr>lfree := first_free 0 ?bs'\<rparr>"]) simp
  next
    case False
    then have l1: "lfree h1 = first_free 0 ?bs'" and "lfree h1 \<noteq> span xs" using lf first_free_lt [OF False] by auto
    moreover have "heap_repr h1 ?bs'" using repr [OF l1] by simp
    ultimately show ?thesis unfolding h2 Let_def using T(4,6) by auto
  qed
qed

section \<open>rt_malloc\<close>

definition block_size :: "nat \<Rightarrow> nat" where
  "block_size n = max 12 (RT_ALIGN n)"

lemma RT_ALIGN_ok: "n + 3 < 2 ^ 32 \<Longrightarrow> RT_ALIGN n mod 4 = 0 \<and> n \<le> RT_ALIGN n \<and> RT_ALIGN n < n + 4"
  by (simp add: RT_ALIGN_def add32_lt) linarith

lemma block_size_ok: "0 < block_size n" "block_size n mod 4 = 0" "n + 3 < 2 ^ 32 \<Longrightarrow> n \<le> block_size n" "12 \<le> block_size n"
  using RT_ALIGN_ok [of n] by (auto simp: block_size_def max_def RT_ALIGN_def)

lemma first_free_split: "\<exists>us rest. bs = us @ rest \<and> (\<forall>b\<in>set us. snd b) \<and> first_free a bs = a + span us"
proof (induction a bs rule: first_free.induct)
  case (2 a n u bs)
  show ?case
  proof (cases u)
    case True
    with 2 obtain us rest where "bs = us @ rest" "\<forall>b\<in>set us. snd b" "first_free (a + 12 + n) bs = a + 12 + n + span us" by auto
    with True show ?thesis by (intro exI [of _ "(n, u) # us"] exI [of _ rest]) auto
  next
    case False
    then show ?thesis by (intro exI [of _ "[]"] exI [of _ "(n, u) # bs"]) simp
  qed
qed simp

lemma rt_malloc_eq:
  "0 < n \<Longrightarrow> rt_malloc n h =
     (if RT_ALIGN n > mem_size_aligned h then Some (None, h)
      else do {
        found \<leftarrow> malloc_search (block_size n) (lfree h) h;
        case found of None \<Rightarrow> Some (None, h) | Some ptr \<Rightarrow> malloc_block (block_size n) ptr h
      })"
  by (simp add: rt_malloc_def Let_def block_size_def max_def not_less)

lemma block_le: "span (xs @ (m, u) # ys) = N + 12 \<Longrightarrow> m \<le> N"
  by simp

lemma free_after_used:
  assumes "us @ rest = xs @ (m, False) # ys" "\<forall>b\<in>set us. snd b"
  shows "\<exists>zs. rest = zs @ (m, False) # ys \<and> xs = us @ zs"
  using assms by (fastforce simp: append_eq_append_conv2 Cons_eq_append_conv append_eq_Cons_conv)

text \<open>The result of \<open>rt_malloc\<close> in terms of the block list, for every request that does not
  wrap around in the alignment.\<close>

lemma rt_malloc_blocks:
  assumes "heap_repr h bs" "0 < n"
  shows "\<exists>r h'. rt_malloc n h = Some (r, h') \<and> heap_data h' = heap_data h \<and> mem_size_aligned h' = mem_size_aligned h \<and>
    (case r of
       None \<Rightarrow> h' = h \<and> (\<forall>xs m ys. bs = xs @ (m, False) # ys \<longrightarrow> block_size n \<le> m \<longrightarrow> m = block_size n \<and> ys = [])
     | Some p \<Rightarrow> \<exists>xs m ys. bs = xs @ (m, False) # ys \<and> p = span xs + 12 \<and> block_size n \<le> m \<and>
                   heap_repr h' (xs @ taken (block_size n) m @ ys))"
proof -
  let ?N = "mem_size_aligned h" let ?sz = "block_size n"
  have til: "heap_tiled h bs" using assms(1) by (simp add: heap_repr_def)
  have R: "span bs = ?N + 12" "heap_end h = ?N + 12" "12 \<le> ?N" "heap_end h < 2 ^ 32" "lfree h = first_free 0 bs"
    "tiles (heap_hdr h) 0 0 bs" using til by (auto simp: heap_tiled_def)
  obtain us rest where us: "bs = us @ rest" "\<forall>b\<in>set us. snd b" "lfree h = span us"
    using first_free_split [of bs 0] R(5) by auto
  show ?thesis
  proof (cases "RT_ALIGN n > ?N")
    case True
    then have "rt_malloc n h = Some (None, h)" using assms(2) by (simp add: rt_malloc_eq)
    moreover have "\<not> ?sz \<le> m" if "bs = xs @ (m, False) # ys" for xs m ys
      using block_le [of xs m False ys ?N] R(1) that True by (auto simp: block_size_def)
    ultimately show ?thesis by auto
  next
    case False
    then have szN: "?sz \<le> ?N" using R(3) by (simp add: block_size_def)
    have search: "malloc_search ?sz (lfree h) h = Some (find_fit ?N ?sz (span us) rest)"
      unfolding us(3) using R us(1) szN by (intro malloc_search_fit [of _ "prev_of 0 0 us"]) auto
    show ?thesis
    proof (cases "find_fit ?N ?sz (span us) rest")
      case None
      have "rt_malloc n h = Some (None, h)" using assms(2) False search None by (simp add: rt_malloc_eq)
      moreover have "m = ?sz \<and> ys = []" if eq: "bs = xs @ (m, False) # ys" and le: "?sz \<le> m" for xs m ys
      proof -
        obtain zs where zs: "rest = zs @ (m, False) # ys" "xs = us @ zs"
          using free_after_used [OF trans [OF us(1) [symmetric] eq] us(2)] by blast
        show ?thesis
          using find_fit_None [of ?N ?sz "span us" zs m ys] None zs us(1) R(1) le by simp
      qed
      ultimately show ?thesis by auto
    next
      case (Some ptr)
      obtain zs m ys where f: "rest = zs @ (m, False) # ys" "ptr = span us + span zs" "?sz \<le> m"
        using find_fit_Some [OF Some] by auto
      let ?xs = "us @ zs"
      have bs: "bs = ?xs @ (m, False) # ys" "ptr = span ?xs" using f us(1) by simp_all
      have rep: "heap_repr h (?xs @ (m, False) # ys)" using assms(1) bs(1) by simp
      obtain h' where h': "heap_repr h' (?xs @ taken ?sz m @ ys)" "heap_data h' = heap_data h" "mem_size_aligned h' = ?N"
        and run: "(let h2 = set_hdr (span ?xs) ((heap_hdr (malloc_take ?sz (span ?xs) h) (span ?xs))\<lparr>hm_magic := HEAP_MAGIC\<rparr>) (malloc_take ?sz (span ?xs) h)
         in (if span ?xs = lfree h2 then do {
               l \<leftarrow> lfree_advance (lfree h2) h2;
               if l = heap_end h2 \<or> hm_used (heap_hdr h2 l) = 0 then Some (h2\<lparr>lfree := l\<rparr>) else None
             } else Some h2) = Some h')"
        using malloc_found [OF rep block_size_ok(1,2) f(3)] by blast
      have "span ?xs mod 4 = 0" using R(6) bs(1) tiles_mult4 [of "heap_hdr h" 0 0 ?xs] by (simp del: span_append)
      moreover have "span ?xs + 12 + ?sz \<le> heap_end h'" using h'(1,3) R(1) bs(1) f(3)
        by (simp add: heap_repr_def heap_tiled_def)
      ultimately have "rt_malloc n h = Some (Some (span ?xs + 12), h')"
        using assms(2) False search Some run bs(2) by (simp add: rt_malloc_eq malloc_block_def Let_def del: span_append)
      then show ?thesis using h' bs(1) f(3) by (intro exI) (auto intro!: exI [of _ ?xs])
    qed
  qed
qed

section \<open>Joining free blocks\<close>

fun merge_next :: "nat \<Rightarrow> blocks \<Rightarrow> blocks" where
  "merge_next n ((k, False) # ys) = (n + 12 + k, False) # ys"
| "merge_next n ys = (n, False) # ys"

definition merge_prev :: "blocks \<Rightarrow> blocks \<Rightarrow> blocks" where
  "merge_prev xs ys =
     (if xs \<noteq> [] \<and> \<not> snd (last xs) then butlast xs @ (fst (last xs) + 12 + fst (hd ys), False) # tl ys else xs @ ys)"

text \<open>What stays as it is.\<close>

definition heap_same :: "heap_state \<Rightarrow> heap_state \<Rightarrow> bool" where
  "heap_same h h' \<longleftrightarrow> heap_data h' = heap_data h \<and> mem_size_aligned h' = mem_size_aligned h \<and> max_mem h' = max_mem h \<and>
     used_mem h' = used_mem h"

lemma first_free_le: "first_free 0 (xs @ (n, False) # ys) \<le> span xs"
  using first_free_bounds [of 0 xs] by auto

text \<open>Joining the free blocks at \<open>span xs\<close> and behind it, on the level of headers.\<close>

lemma tiles_join:
  assumes "tiles H pr a (xs @ (n, False) # (k, False) # ys)" "x = a + span xs"
  defines "H1 \<equiv> H(x := block_hdr (prev_of pr a xs) x (n + 12 + k) False)"
  shows "tiles (H1(x + 24 + n + k := (H1 (x + 24 + n + k))\<lparr>hm_prev := x\<rparr>)) pr a (xs @ (n + 12 + k, False) # ys)"
proof -
  have t: "tiles H pr a xs" "tiles H (x + 12 + n) (x + 24 + n + k) ys" "(n + 12 + k) mod 4 = 0" "0 < n + 12 + k"
    using assms(1,2) by (simp_all add: ac_simps mod_eq_0_iff_dvd)
  have "tiles H1 (x + 12 + n) (x + 24 + n + k) ys" using t(2) by (simp add: H1_def)
  then have rest: "tiles (H1(x + 24 + n + k := (H1 (x + 24 + n + k))\<lparr>hm_prev := x\<rparr>)) x (x + 24 + n + k) ys"
    by (rule tiles_set_prev)
  have eq: "x + 12 + (n + 12 + k) = x + 24 + n + k" by simp
  have "tiles (H1(x + 24 + n + k := m)) pr a xs" for m using t(1) assms(2) by (simp add: H1_def)
  with rest t(3,4) show ?thesis
    unfolding tiles_append tiles.simps assms(2) [symmetric] eq by (simp add: H1_def)
qed

lemma end_kept:
  assumes "heap_tiled h bs" "H (heap_end h) = heap_hdr h (heap_end h)" "hm_used m = hm_used (H y)"
  shows "hm_used ((H(y := m)) (heap_end h)) = 1"
proof -
  have "hm_used (heap_hdr h (heap_end h)) = 1" using assms(1) unfolding heap_tiled_def by blast
  then show ?thesis using assms(2,3) by (metis fun_upd_apply)
qed

lemma plug_forward_tiled:
  assumes "heap_tiled h (xs @ (n, False) # ys)"
  shows "heap_tiled (plug_forward (span xs) h) (xs @ merge_next n ys) \<and> heap_same h (plug_forward (span xs) h)"
proof (cases "\<exists>k zs. ys = (k, False) # zs")
  case True
  then obtain k zs where ys: "ys = (k, False) # zs" by blast
  let ?x = "span xs" let ?y = "span xs + 24 + n + k" let ?h = "plug_forward ?x h"
  define H1 where "H1 = (heap_hdr h)(?x := block_hdr (prev_of 0 0 xs) ?x (n + 12 + k) False)"
  have t: "tiles (heap_hdr h) 0 0 (xs @ (n, False) # (k, False) # zs)" using assms ys by (simp add: heap_tiled_def)
  note D = heap_tiledD [OF assms]
  have e: "?x + 12 + n \<noteq> heap_end h" "?y + span zs = heap_end h" using D(2) ys by simp_all
  have hy: "heap_hdr h (?x + 12 + n) = block_hdr ?x (?x + 12 + n) k False" using t by (simp add: ac_simps)
  have "lfree h \<le> ?x" using assms first_free_le by (simp add: heap_tiled_def del: first_free_append)
  then have "?h = h\<lparr>heap_hdr := H1(?y := (H1 ?y)\<lparr>hm_prev := ?x\<rparr>)\<rparr>"
    using D(1) hy e(1) by (simp add: plug_forward_def heap_sets H1_def block_hdr_def) (simp add: ac_simps)
  moreover have "tiles (H1(?y := (H1 ?y)\<lparr>hm_prev := ?x\<rparr>)) 0 0 (xs @ (n + 12 + k, False) # zs)"
    unfolding H1_def by (rule tiles_join [OF t]) simp
  moreover have "hm_used ((H1(?y := (H1 ?y)\<lparr>hm_prev := ?x\<rparr>)) (heap_end h)) = 1"
    by (rule end_kept [OF assms]) (use e(2) in \<open>simp_all add: H1_def\<close>)
  ultimately show ?thesis using assms ys by (auto simp: heap_tiled_def heap_same_def)
next
  case False
  have e: "hm_used (heap_hdr h (heap_end h)) = 1" using assms unfolding heap_tiled_def by blast
  have "hm_used (heap_hdr h (span xs + 12 + n)) \<noteq> 0"
  proof (cases ys)
    case Nil
    then show ?thesis using e heap_tiledD(2) [OF assms] by simp
  next
    case (Cons b zs)
    then show ?thesis using assms False by (cases b) (auto simp: heap_tiled_def block_hdr_def)
  qed
  then have "plug_forward (span xs) h = h"
    using heap_tiledD(1) [OF assms] by (simp add: plug_forward_def block_hdr_def Let_def)
  moreover have "merge_next n ys = (n, False) # ys" using False by (cases "(n, ys)" rule: merge_next.cases) auto
  ultimately show ?thesis using assms by (simp add: heap_same_def)
qed

lemma plug_backward_tiled:
  assumes "heap_tiled h (xs @ (n, False) # ys)"
  shows "heap_tiled (plug_backward (span xs) h) (merge_prev xs ((n, False) # ys)) \<and> heap_same h (plug_backward (span xs) h)"
proof (cases "\<exists>k zs. xs = zs @ [(k, False)]")
  case True
  then obtain k zs where xs: "xs = zs @ [(k, False)]" by blast
  have til: "heap_tiled h (zs @ (k, False) # (n, False) # ys)" using assms xs by simp
  let ?x = "span zs" let ?m = "span zs + 12 + k" let ?y = "span zs + 24 + k + n" let ?h = "plug_backward (span xs) h"
  define H1 where "H1 = (heap_hdr h)(?x := block_hdr (prev_of 0 0 zs) ?x (k + 12 + n) False)"
  have t: "tiles (heap_hdr h) 0 0 (zs @ (k, False) # (n, False) # ys)" using til by (simp add: heap_tiled_def)
  note D = heap_tiledD [OF til] heap_tiledD(1) [OF assms]
  have m: "span xs = ?m" "prev_of 0 0 xs = ?x" using xs by simp_all
  have e: "?y + span ys = heap_end h" using D(2) by simp
  have "lfree h \<le> ?x" using til first_free_le by (simp add: heap_tiled_def del: first_free_append)
  then have "?h = h\<lparr>heap_hdr := H1(?y := (H1 ?y)\<lparr>hm_prev := ?x\<rparr>)\<rparr>"
    using D(1,8) m by (simp add: plug_backward_def heap_sets H1_def block_hdr_def) (simp add: ac_simps)
  moreover have "tiles (H1(?y := (H1 ?y)\<lparr>hm_prev := ?x\<rparr>)) 0 0 (zs @ (k + 12 + n, False) # ys)"
    unfolding H1_def by (rule tiles_join [OF t]) simp
  moreover have "hm_used ((H1(?y := (H1 ?y)\<lparr>hm_prev := ?x\<rparr>)) (heap_end h)) = 1"
    by (rule end_kept [OF til]) (use e in \<open>simp_all add: H1_def\<close>)
  moreover have "merge_prev xs ((n, False) # ys) = zs @ (k + 12 + n, False) # ys" using xs by (simp add: merge_prev_def)
  ultimately show ?thesis using til by (auto simp: heap_tiled_def heap_same_def)
next
  case False
  have mp: "merge_prev xs ((n, False) # ys) = xs @ (n, False) # ys"
  proof (cases xs rule: rev_cases)
    case (snoc zs b)
    then show ?thesis using False by (cases b) (auto simp: merge_prev_def)
  qed (simp add: merge_prev_def)
  have "plug_backward (span xs) h = h"
  proof (cases xs rule: rev_cases)
    case Nil
    then show ?thesis using heap_tiledD(1) [OF assms] by (simp add: plug_backward_def block_hdr_def Let_def)
  next
    case (snoc zs b)
    then obtain k where b: "b = (k, True)" using False by (cases b) auto
    have "hm_used (heap_hdr h (span zs)) = 1" "prev_of 0 0 xs = span zs"
      using assms snoc b by (auto simp: heap_tiled_def block_hdr_def)
    then show ?thesis using heap_tiledD(1) [OF assms] by (simp add: plug_backward_def block_hdr_def Let_def)
  qed
  then show ?thesis using assms mp by (simp add: heap_same_def)
qed

section \<open>rt_free\<close>

lemma merge_next_Cons: "\<exists>m zs. merge_next n ys = (m, False) # zs"
  by (cases "(n, ys)" rule: merge_next.cases) auto

lemma areas_merge_next: "areas a (merge_next n ys) = areas (a + 12 + n) ys"
  by (cases "(n, ys)" rule: merge_next.cases) (auto simp: ac_simps)

lemma areas_merge_prev: "areas a (merge_prev xs ((m, False) # ys)) = areas a (xs @ (m, False) # ys)"
  by (cases xs rule: rev_cases) (auto simp: merge_prev_def ac_simps)

lemma areas_joined:
  "areas 0 (merge_prev xs (merge_next n ys)) = areas 0 (xs @ (n, True) # ys) - {(span xs + 12, n)}"
proof -
  obtain m zs where m: "merge_next n ys = (m, False) # zs" using merge_next_Cons by blast
  have "areas 0 (merge_prev xs (merge_next n ys)) = areas 0 xs \<union> areas (span xs + 12 + n) ys"
    using areas_merge_prev [of 0 xs m zs] areas_merge_next [of "span xs" n ys] unfolding m by simp
  moreover have "(span xs + 12, n) \<notin> areas 0 xs" "(span xs + 12, n) \<notin> areas (span xs + 12 + n) ys"
    using areas_bounds [of "span xs + 12" n 0 xs] areas_bounds [of "span xs + 12" n "span xs + 12 + n" ys] by auto
  ultimately show ?thesis by auto
qed

lemma no_free_pair_joined:
  assumes "no_free_pair (xs @ (n, True) # ys)"
  shows "no_free_pair (merge_prev xs (merge_next n ys))"
proof -
  have x: "no_free_pair xs" "no_free_pair ys" using assms by (auto simp: no_free_pair_def successively_append_iff successively_Cons)
  obtain m zs where m: "merge_next n ys = (m, False) # zs" "no_free_pair ((m, False) # zs)"
  proof (cases ys)
    case Nil
    then show ?thesis using that by (simp add: no_free_pair_def)
  next
    case (Cons b zs)
    then show ?thesis using x(2) that by (cases b; cases "snd b") (auto simp: no_free_pair_def successively_Cons)
  qed
  show ?thesis
  proof (cases xs rule: rev_cases)
    case Nil
    with m show ?thesis by (simp add: merge_prev_def)
  next
    case (snoc us b)
    obtain k u where b: "b = (k, u)" by (cases b)
    show ?thesis using m x(1) snoc b
      by (cases u) (auto simp: merge_prev_def no_free_pair_def successively_append_iff successively_Cons)
  qed
qed

lemma plug_holes_tiled:
  assumes "heap_tiled h (xs @ (n, False) # ys)"
  shows "\<exists>h'. plug_holes (span xs) h = Some h' \<and> heap_tiled h' (merge_prev xs (merge_next n ys)) \<and> heap_same h h'"
proof -
  obtain m zs where m: "merge_next n ys = (m, False) # zs" using merge_next_Cons by blast
  let ?h1 = "plug_forward (span xs) h"
  have f: "heap_tiled ?h1 (xs @ (m, False) # zs)" "heap_same h ?h1" using plug_forward_tiled [OF assms] m by simp_all
  have b: "heap_tiled (plug_backward (span xs) ?h1) (merge_prev xs ((m, False) # zs))"
    "heap_same ?h1 (plug_backward (span xs) ?h1)" using plug_backward_tiled [OF f(1)] by simp_all
  have "plug_holes (span xs) h = Some (plug_backward (span xs) ?h1)"
    using heap_tiledD(1,2) [OF assms] by (simp add: plug_holes_def block_hdr_def)
  with b f(2) m show ?thesis by (auto simp: heap_same_def)
qed

lemma first_free_freed:
  "(if span xs < first_free 0 (xs @ (n, True) # ys) then span xs else first_free 0 (xs @ (n, True) # ys)) =
   first_free 0 (xs @ (n, False) # ys)"
proof (cases "\<forall>b\<in>set xs. snd b")
  case True
  then show ?thesis using first_free_bounds [of "span xs + 12 + n" ys] by simp
next
  case False
  then show ?thesis using first_free_lt [OF False] by auto
qed

lemma lower_lfree: "(if c then h\<lparr>lfree := a\<rparr> else h) = h\<lparr>lfree := (if c then a else lfree h)\<rparr>"
  by simp

lemma rt_free_blocks:
  assumes "heap_repr h (xs @ (n, True) # ys)"
  shows "\<exists>h'. rt_free (Some (span xs + 12)) h = Some h' \<and> heap_repr h' (merge_prev xs (merge_next n ys)) \<and>
    heap_data h' = heap_data h \<and> mem_size_aligned h' = mem_size_aligned h"
proof -
  have til: "heap_tiled h (xs @ (n, True) # ys)" and np: "no_free_pair (xs @ (n, True) # ys)" and mx: "used_mem h \<le> max_mem h"
    using assms by (simp_all add: heap_repr_def)
  note D = heap_tiledD [OF til]
  define h1 where "h1 = h\<lparr>heap_hdr := (heap_hdr h)(span xs := block_hdr (prev_of 0 0 xs) (span xs) n False),
    lfree := first_free 0 (xs @ (n, False) # ys), used_mem := used_span xs + used_span ys\<rparr>"
  have lf: "lfree h = first_free 0 (xs @ (n, True) # ys)" and um: "used_mem h = used_span xs + (12 + n) + used_span ys"
    using til by (auto simp: heap_tiled_def)
  have sub: "sub32 (used_mem h) (12 + n) = used_span xs + used_span ys"
    using um used_mem_bound [OF til] by (subst sub32_le) auto
  have "tiles (heap_hdr h) 0 0 (xs @ (n, True) # ys)" using til by (simp add: heap_tiled_def)
  then have "span xs mod 4 = 0" using tiles_mult4 [of "heap_hdr h" 0 0 xs] by simp
  then have "(span xs + 12) mod 4 = 0" by (simp add: mod_eq_0_iff_dvd)
  moreover have "span xs + 12 < heap_end h" using D(2,4) by simp
  moreover define hd where "hd = heap_hdr h (span xs)"
  ultimately have "rt_free (Some (span xs + 12)) h = plug_holes (span xs) (h\<lparr>heap_hdr := (heap_hdr h)(span xs := hd\<lparr>hm_used := 0\<rparr>),
      lfree := (if span xs < lfree h then span xs else lfree h), used_mem := sub32 (used_mem h) (12 + n)\<rparr>)"
    using D(1,7) by (simp add: rt_free_def set_hdr_def Let_def lower_lfree block_hdr_def)
  moreover have "hd\<lparr>hm_used := 0\<rparr> = block_hdr (prev_of 0 0 xs) (span xs) n False" using D(1) by (simp add: hd_def block_hdr_def)
  ultimately have run: "rt_free (Some (span xs + 12)) h = plug_holes (span xs) h1"
    unfolding h1_def sub lf first_free_freed by simp
  have "heap_tiled h1 (xs @ (n, False) # ys)"
    using til D(2) by (auto simp: heap_tiled_def h1_def)
  then obtain h' where h': "plug_holes (span xs) h1 = Some h'" "heap_tiled h' (merge_prev xs (merge_next n ys))" "heap_same h1 h'"
    using plug_holes_tiled by blast
  have "heap_repr h' (merge_prev xs (merge_next n ys))"
    using h'(2,3) no_free_pair_joined [OF np] mx um by (auto simp: heap_repr_def heap_same_def h1_def)
  then show ?thesis using run h' by (auto simp: heap_same_def h1_def)
qed

section \<open>The allocator as an interface\<close>

text \<open>What a client relies on: a set of areas it owns, which requests and releases change one
  at a time and which never overlap. \<open>rep A s\<close> says that in state \<open>s\<close> the areas \<open>A\<close> are owned.\<close>

locale allocator =
  fixes rep :: "(nat \<times> nat) set \<Rightarrow> 's \<Rightarrow> bool"
    and alloc :: "nat \<Rightarrow> 's \<Rightarrow> (nat option \<times> 's) option" and release :: "nat \<Rightarrow> 's \<Rightarrow> 's option"
    and valid :: "nat \<Rightarrow> bool"
  assumes alloc_ok: "rep A s \<Longrightarrow> valid n \<Longrightarrow> \<exists>r s'. alloc n s = Some (r, s') \<and>
      (case r of None \<Rightarrow> s' = s | Some p \<Rightarrow> \<exists>m\<ge>n. (p, m) \<notin> A \<and> rep (insert (p, m) A) s')"
    and release_ok: "rep A s \<Longrightarrow> (p, m) \<in> A \<Longrightarrow> \<exists>s'. release p s = Some s' \<and> rep (A - {(p, m)}) s'"
    and disjoint: "rep A s \<Longrightarrow> (p, m) \<in> A \<Longrightarrow> (q, k) \<in> A \<Longrightarrow> (p, m) \<noteq> (q, k) \<Longrightarrow> p + m \<le> q \<or> q + k \<le> p"
begin

lemma alloc_release:
  assumes "rep A s" "valid n" "alloc n s = Some (Some p, s1)"
  shows "\<exists>s2. release p s1 = Some s2 \<and> rep A s2"
proof -
  obtain m where m: "(p, m) \<notin> A" "rep (insert (p, m) A) s1" using alloc_ok [OF assms(1,2)] assms(3) by auto
  obtain s2 where "release p s1 = Some s2" "rep (insert (p, m) A - {(p, m)}) s2" using release_ok [OF m(2), of p m] by auto
  with m(1) show ?thesis by simp
qed

text \<open>Two requests, both released again, last one first.\<close>

lemma nested:
  assumes "rep A s" "valid n" "valid k" "alloc n s = Some (Some p, s1)" "alloc k s1 = Some (Some q, s2)"
  shows "\<exists>s3 s4 m l. m \<ge> n \<and> l \<ge> k \<and> (p + m \<le> q \<or> q + l \<le> p) \<and>
    release q s2 = Some s3 \<and> release p s3 = Some s4 \<and> rep A s4"
proof -
  obtain m where m: "m \<ge> n" "(p, m) \<notin> A" "rep (insert (p, m) A) s1" using alloc_ok [OF assms(1,2)] assms(4) by auto
  obtain l where l: "l \<ge> k" "(q, l) \<notin> insert (p, m) A" "rep (insert (q, l) (insert (p, m) A)) s2"
    using alloc_ok [OF m(3) assms(3)] assms(5) by auto
  obtain s3 where s3: "release q s2 = Some s3" "rep (insert (q, l) (insert (p, m) A) - {(q, l)}) s3"
    using release_ok [OF l(3), of q l] by auto
  then have r3: "rep (insert (p, m) A) s3" using l(2) by simp
  obtain s4 where "release p s3 = Some s4" "rep (insert (p, m) A - {(p, m)}) s4" using release_ok [OF r3, of p m] by blast
  moreover have "p + m \<le> q \<or> q + l \<le> p" using disjoint [OF l(3), of p m q l] l(2) by auto
  ultimately show ?thesis using m(1,2) l(1) s3(1) by auto
qed

end

definition heap_owns :: "(nat \<times> nat) set \<Rightarrow> heap_state \<Rightarrow> bool" where
  "heap_owns A h \<longleftrightarrow> (\<exists>bs. heap_repr h bs \<and> areas 0 bs = A)"

definition request_ok :: "nat \<Rightarrow> bool" where
  "request_ok n \<longleftrightarrow> 0 < n \<and> n + 3 < 2 ^ 32"

lemma areas_taken:
  "block_size n \<le> m \<Longrightarrow> \<exists>k\<ge>block_size n. k \<le> m \<and>
     areas 0 (xs @ taken (block_size n) m @ ys) = insert (span xs + 12, k) (areas 0 (xs @ (m, False) # ys))"
  by (rule exI [of _ "if block_size n + 24 \<le> m then block_size n else m"]) (auto simp: taken_def ac_simps)

lemma area_fresh: "(span xs + 12, k) \<notin> areas 0 (xs @ (m, False) # ys)" if "0 < k" for k
  using that areas_bounds [of "span xs + 12" k 0 xs] areas_bounds [of "span xs + 12" k "span xs + 12 + m" ys] by auto

lemma rt_malloc_areas:
  assumes "heap_repr h bs" "request_ok n"
  shows "\<exists>r h'. rt_malloc n h = Some (r, h') \<and> heap_data h' = heap_data h \<and> mem_size_aligned h' = mem_size_aligned h \<and>
    (case r of None \<Rightarrow> h' = h
     | Some p \<Rightarrow> \<exists>bs' m. heap_repr h' bs' \<and> max n 12 \<le> m \<and> (p, m) \<notin> areas 0 bs \<and> areas 0 bs' = insert (p, m) (areas 0 bs))"
proof -
  have n: "0 < n" "n \<le> block_size n" "12 \<le> block_size n" using assms(2) block_size_ok [of n] by (auto simp: request_ok_def)
  from rt_malloc_blocks [OF assms(1) n(1)] obtain r h' where r: "rt_malloc n h = Some (r, h')" "heap_data h' = heap_data h"
    "mem_size_aligned h' = mem_size_aligned h" and
    c: "case r of None \<Rightarrow> h' = h \<and> (\<forall>xs m ys. bs = xs @ (m, False) # ys \<longrightarrow> block_size n \<le> m \<longrightarrow> m = block_size n \<and> ys = [])
     | Some p \<Rightarrow> \<exists>xs m ys. bs = xs @ (m, False) # ys \<and> p = span xs + 12 \<and> block_size n \<le> m \<and>
                   heap_repr h' (xs @ taken (block_size n) m @ ys)" by blast
  show ?thesis
  proof (cases r)
    case None
    with r c show ?thesis by auto
  next
    case (Some p)
    with c obtain xs m ys where p: "bs = xs @ (m, False) # ys" "p = span xs + 12" "block_size n \<le> m"
      "heap_repr h' (xs @ taken (block_size n) m @ ys)" by auto
    obtain k where "k \<ge> block_size n" "areas 0 (xs @ taken (block_size n) m @ ys) = insert (p, k) (areas 0 bs)"
      using areas_taken [OF p(3), of xs ys] p(1,2) by auto
    moreover have "max n 12 \<le> k" "0 < k" using n calculation(1) by simp_all
    moreover have "(p, k) \<notin> areas 0 bs" using area_fresh [OF \<open>0 < k\<close>, of xs m ys] p(1,2) by simp
    ultimately show ?thesis using r p(4) Some by (intro exI [of _ r] exI [of _ h']) fastforce
  qed
qed

lemma rt_free_areas:
  assumes "heap_repr h bs" "(p, m) \<in> areas 0 bs"
  shows "\<exists>h' bs'. rt_free (Some p) h = Some h' \<and> heap_repr h' bs' \<and> areas 0 bs' = areas 0 bs - {(p, m)} \<and>
    heap_data h' = heap_data h \<and> mem_size_aligned h' = mem_size_aligned h"
proof -
  obtain xs ys where xy: "bs = xs @ (m, True) # ys" "p = span xs + 12" using areas_split [OF assms(2)] by auto
  then show ?thesis using rt_free_blocks [of h xs m ys] assms(1) areas_joined [of xs m ys] by auto
qed

interpretation rt_heap_alloc: allocator heap_owns rt_malloc "\<lambda>p. rt_free (Some p)" request_ok
proof (unfold_locales, goal_cases)
  case (1 A s n)
  then obtain bs where bs: "heap_repr s bs" "areas 0 bs = A" by (auto simp: heap_owns_def)
  from rt_malloc_areas [OF bs(1) 1(2)] obtain r s' where "rt_malloc n s = Some (r, s')"
    "case r of None \<Rightarrow> s' = s
     | Some p \<Rightarrow> \<exists>bs' m. heap_repr s' bs' \<and> max n 12 \<le> m \<and> (p, m) \<notin> areas 0 bs \<and> areas 0 bs' = insert (p, m) (areas 0 bs)"
    by blast
  then show ?case using bs(2) by (cases r) (auto simp: heap_owns_def)
next
  case (2 A s p m)
  then obtain bs where "heap_repr s bs" "areas 0 bs = A" by (auto simp: heap_owns_def)
  with rt_free_areas [of s bs p m] 2(2) show ?case by (auto simp: heap_owns_def)
next
  case (3 A s p m q k)
  then obtain bs where "areas 0 bs = A" by (auto simp: heap_owns_def)
  with 3 show ?case using areas_disjoint [of p m 0 bs q k] by simp
qed

end
