(* ===== verification/Rt_Mem_Use.thy ===== *)
theory Rt_Mem_Use
  imports Rt_Mem_Props
begin

text \<open>
  The allocator over its life: the heap \<open>rt_system_heap_init\<close> builds, what \<open>rt_realloc\<close> does to
  the block list and to the bytes, and every history of requests and releases.
\<close>

section \<open>rt_realloc\<close>

text \<open>Cutting the used block at \<open>span xs\<close> down to \<open>k\<close> bytes.\<close>

lemma first_free_cut:
  "(if span xs + 12 + k < first_free 0 (xs @ (n, True) # ys) then span xs + 12 + k else first_free 0 (xs @ (n, True) # ys)) =
   first_free 0 (xs @ (k, True) # (r, False) # ys)" if "k + 12 \<le> n"
proof (cases "\<forall>b\<in>set xs. snd b")
  case True
  then show ?thesis using that first_free_bounds [of "span xs + 12 + n" ys] by auto
next
  case False
  then show ?thesis using first_free_lt [OF False] by auto
qed

lemma cut_tiled:
  assumes "heap_tiled h (xs @ (n, True) # ys)" "0 < k" "k mod 4 = 0" "k + 24 < n"
  shows "\<exists>h1. realloc_shrink k n (span xs) h = plug_holes (span (xs @ [(k, True)])) h1 \<and>
    heap_tiled h1 ((xs @ [(k, True)]) @ (n - k - 12, False) # ys) \<and>
    heap_data h1 = heap_data h \<and> mem_size_aligned h1 = mem_size_aligned h \<and> max_mem h1 = max_mem h \<and> used_mem h1 \<le> used_mem h"
proof -
  note D = heap_tiledD [OF assms(1)]
  let ?x = "span xs" let ?y = "span xs + 12 + n" let ?r = "n - k - 12"
  have t: "tiles (heap_hdr h) 0 0 (xs @ (n, True) # ys)" and e: "heap_end h = mem_size_aligned h + 12"
    "hm_used (heap_hdr h (heap_end h)) = 1" and lf: "lfree h = first_free 0 (xs @ (n, True) # ys)"
    and um: "used_mem h = used_span xs + (12 + n) + used_span ys"
    using assms(1) unfolding heap_tiled_def by auto
  define b2 where "b2 = \<lparr>hm_magic = HEAP_MAGIC, hm_used = 0, hm_next = ?y, hm_prev = ?x\<rparr>"
  define H1 where "H1 = ((heap_hdr h)(?x + 12 + k := b2))(?x := block_hdr (prev_of 0 0 xs) ?x k True)"
  define H2 where "H2 = (if ?y \<noteq> heap_end h then H1(?y := (H1 ?y)\<lparr>hm_prev := ?x + 12 + k\<rparr>) else H1)"
  define h1 where "h1 = h\<lparr>used_mem := used_span xs + (12 + k) + used_span ys, heap_hdr := H2,
    lfree := (if ?x + 12 + k < lfree h then ?x + 12 + k else lfree h)\<rparr>"
  have lf1: "lfree h1 = first_free 0 (xs @ (k, True) # (?r, False) # ys)"
    using first_free_cut [of k n xs ys ?r] lf assms(4) by (simp add: h1_def del: first_free_append split: if_splits)
  have "?x + 12 + k + 12 + ?r = ?y" using assms(4) by linarith
  then have b2: "b2 = block_hdr ?x (?x + 12 + k) ?r False" by (simp only: b2_def block_hdr_def) simp
  have "tiles (H1(?y := (H1 ?y)\<lparr>hm_prev := ?x + 12 + k\<rparr>)) 0 0 (xs @ (k, True) # (?r, False) # ys)"
    unfolding H1_def b2 by (rule tiles_replace [OF t assms(2,3)]) (use assms(4) in simp_all)
  moreover have "?y = heap_end h \<Longrightarrow> ys = []" using D(2) span_zero by auto
  ultimately have tl: "tiles H2 0 0 (xs @ (k, True) # (?r, False) # ys)" by (auto simp: H2_def)
  have "hm_used (H2 (heap_end h)) = 1" using e(2) D(2) assms(4) by (auto simp: H2_def H1_def)
  with tl have til: "heap_tiled h1 ((xs @ [(k, True)]) @ (?r, False) # ys)"
    using assms(1,4) lf1 by (simp add: heap_tiled_def h1_def del: first_free_append)
  have "sub32 (used_mem h) (n - k) = used_span xs + (12 + k) + used_span ys"
    using um used_mem_bound [OF assms(1)] assms(4) by (subst sub32_le) auto
  then have "realloc_shrink k n ?x h = plug_holes (?x + 12 + k) h1"
    using D(1) e(1) assms(4)
    by (simp add: realloc_shrink_def heap_sets lower_lfree block_hdr_def h1_def H2_def H1_def b2_def)
  then show ?thesis using til um assms(4) by (intro exI [of _ h1]) (simp add: h1_def add.assoc)
qed

text \<open>The bytes of the areas \<open>A\<close> are in \<open>h'\<close> as in \<open>h\<close>.\<close>

definition bytes_kept :: "(nat \<times> nat) set \<Rightarrow> heap_state \<Rightarrow> heap_state \<Rightarrow> bool" where
  "bytes_kept A h h' \<longleftrightarrow> (\<forall>(a, l)\<in>A. \<forall>i<l. heap_data h' (a + i) = heap_data h (a + i))"

lemma bytes_kept_same [simp]: "heap_data h' = heap_data h \<Longrightarrow> bytes_kept A h h'"
  by (auto simp: bytes_kept_def)

lemma repr_data [simp]: "heap_repr (h\<lparr>heap_data := d\<rparr>) bs = heap_repr h bs"
  by (simp add: heap_repr_def heap_tiled_def)

lemma repr_copy_data [simp]: "heap_repr (copy_data d s n h) bs = heap_repr h bs"
  by (simp add: copy_data_def)

lemma size_copy_data [simp]: "mem_size_aligned (copy_data d s n h) = mem_size_aligned h"
  by (simp add: copy_data_def)

lemma realloc_cut:
  assumes "heap_repr h (xs @ (n, True) # ys)" "0 < k" "k mod 4 = 0" "k + 24 < n"
  shows "\<exists>h' bs'. realloc_shrink k n (span xs) h = Some h' \<and> heap_repr h' bs' \<and> heap_data h' = heap_data h \<and>
    mem_size_aligned h' = mem_size_aligned h \<and>
    areas 0 bs' = insert (span xs + 12, k) (areas 0 (xs @ (n, True) # ys) - {(span xs + 12, n)})"
proof -
  let ?xs = "xs @ [(k, True)]" let ?r = "n - k - 12"
  have r: "heap_tiled h (xs @ (n, True) # ys)" "no_free_pair (xs @ (n, True) # ys)" "used_mem h \<le> max_mem h"
    using assms(1) by (simp_all add: heap_repr_def)
  obtain h1 where h1: "realloc_shrink k n (span xs) h = plug_holes (span ?xs) h1" "heap_tiled h1 (?xs @ (?r, False) # ys)"
    "heap_data h1 = heap_data h" "mem_size_aligned h1 = mem_size_aligned h" "max_mem h1 = max_mem h" "used_mem h1 \<le> used_mem h"
    using cut_tiled [OF r(1) assms(2-4)] by blast
  obtain h' where h': "plug_holes (span ?xs) h1 = Some h'" "heap_tiled h' (merge_prev ?xs (merge_next ?r ys))" "heap_same h1 h'"
    using plug_holes_tiled [OF h1(2)] by blast
  have "no_free_pair (?xs @ (?r, True) # ys)"
    using r(2) by (auto simp: no_free_pair_def successively_append_iff successively_Cons)
  then have "heap_repr h' (merge_prev ?xs (merge_next ?r ys))"
    using h'(2,3) h1(5,6) r(3) no_free_pair_joined [of ?xs ?r ys] by (simp add: heap_repr_def heap_same_def)
  moreover have "areas 0 (merge_prev ?xs (merge_next ?r ys)) = areas 0 xs \<union> {(span xs + 12, k)} \<union> areas (span xs + 12 + n) ys"
  proof -
    have "span xs + 12 + k + 12 + ?r = span xs + 12 + n" using assms(4) by linarith
    then show ?thesis
      using areas_merge_next [of "span xs + 12 + k" ?r ys] by (simp add: merge_prev_def ac_simps)
  qed
  moreover have "(span xs + 12, n) \<notin> areas 0 xs" "(span xs + 12, n) \<notin> areas (span xs + 12 + n) ys"
    using areas_bounds [of "span xs + 12" n 0 xs] areas_bounds [of "span xs + 12" n "span xs + 12 + n" ys] assms(4) by auto
  ultimately show ?thesis using h1 h' by (intro exI [of _ h'] exI [of _ "merge_prev ?xs (merge_next ?r ys)"]) (auto simp: heap_same_def)
qed

text \<open>Moving to a new block.\<close>

lemma realloc_move:
  assumes "heap_repr h bs" "(p, m) \<in> areas 0 bs" "request_ok k" "rt_malloc k h = Some (Some q, h1)"
  shows "\<exists>h' bs' l. rt_free (Some p) (copy_data q p (min m k) h1) = Some h' \<and> heap_repr h' bs' \<and> k \<le> l \<and>
    mem_size_aligned h' = mem_size_aligned h \<and> (q, l) \<notin> areas 0 bs \<and>
    areas 0 bs' = insert (q, l) (areas 0 bs - {(p, m)}) \<and>
    (\<forall>i<min m k. heap_data h' (q + i) = heap_data h (p + i)) \<and> bytes_kept (areas 0 bs - {(p, m)}) h h'"
proof -
  let ?h2 = "copy_data q p (min m k) h1"
  obtain bs1 l where l: "heap_repr h1 bs1" "k \<le> l" "(q, l) \<notin> areas 0 bs" "areas 0 bs1 = insert (q, l) (areas 0 bs)"
    "heap_data h1 = heap_data h" "mem_size_aligned h1 = mem_size_aligned h"
    using rt_malloc_areas [OF assms(1,3)] assms(4) by auto
  have "heap_repr ?h2 bs1" "(p, m) \<in> areas 0 bs1" using l assms(2) by simp_all
  from rt_free_areas [OF this] obtain h' bs' where h': "rt_free (Some p) ?h2 = Some h'" "heap_repr h' bs'"
    "areas 0 bs' = areas 0 bs1 - {(p, m)}" "heap_data h' = heap_data ?h2" "mem_size_aligned h' = mem_size_aligned h1"
    by auto
  have dis: "a + s \<le> q \<or> q + l \<le> a" if "(a, s) \<in> areas 0 bs" for a s
    using areas_disjoint [of a s 0 bs1 q l] l(3,4) that by auto
  have out: "\<not> (q \<le> a + i \<and> a + i < q + min m k)" if "(a, s) \<in> areas 0 bs" "i < s" for a s i
    using dis [OF that(1)] that(2) l(2) by auto
  have "bytes_kept (areas 0 bs - {(p, m)}) h h'"
    using out h'(4) l(5) by (auto simp: bytes_kept_def copy_data_def)
  moreover have "\<forall>i<min m k. heap_data h' (q + i) = heap_data h (p + i)"
    using h'(4) l(5) by (simp add: copy_data_def)
  moreover have "areas 0 bs' = insert (q, l) (areas 0 bs - {(p, m)})"
    using h'(3) l(3,4) assms(2) by auto
  ultimately show ?thesis using h' l by auto
qed

lemma rt_realloc_areas:
  assumes "heap_repr h bs" "(p, m) \<in> areas 0 bs" "request_ok n"
  shows "\<exists>r h'. rt_realloc (Some p) n h = Some (r, h') \<and> mem_size_aligned h' = mem_size_aligned h \<and>
    (case r of None \<Rightarrow> h' = h
     | Some q \<Rightarrow> \<exists>bs' l. heap_repr h' bs' \<and> n \<le> l \<and> areas 0 bs' = insert (q, l) (areas 0 bs - {(p, m)}) \<and>
         (\<forall>i<min m n. heap_data h' (q + i) = heap_data h (p + i)) \<and> bytes_kept (areas 0 bs - {(p, m)}) h h')"
proof -
  let ?k = "RT_ALIGN n" let ?N = "mem_size_aligned h"
  have til: "heap_tiled h bs" using assms(1) by (simp add: heap_repr_def)
  have N: "heap_end h = ?N + 12" "heap_end h + 12 < 2 ^ 32" using til by (auto simp: heap_tiled_def)
  have k: "0 < ?k" "?k mod 4 = 0" "n \<le> ?k" using RT_ALIGN_ok [of n] assms(3) by (auto simp: request_ok_def)
  obtain xs ys where xy: "bs = xs @ (m, True) # ys" "p = span xs + 12" using areas_split [OF assms(2)] by auto
  note D = heap_tiledD [OF til [unfolded xy(1)]]
  have sz: "sub32 (hm_next (heap_hdr h (span xs))) (span xs + 12) = m" using D(1,6) by (simp add: block_hdr_def)
  have p: "\<not> heap_end h \<le> p" "\<not> p < 12" "p - 12 = span xs" using D(2,4) xy(2) by auto
  show ?thesis
  proof (cases "?N < ?k")
    case True
    then show ?thesis by (auto simp: rt_realloc_def Let_def)
  next
    case fit: False
    have run: "rt_realloc (Some p) n h = (if m = ?k then Some (Some p, h)
        else if ?k + 24 < m then map_option (Pair (Some p)) (realloc_shrink ?k m (span xs) h)
        else do {
          (nmem, h) \<leftarrow> rt_malloc ?k h;
          case nmem of None \<Rightarrow> Some (None, h)
          | Some q \<Rightarrow> map_option (Pair nmem) (rt_free (Some p) (copy_data q p (min m ?k) h))
        })"
      unfolding rt_realloc_def Let_def SIZEOF_STRUCT_MEM_def MIN_SIZE_ALIGNED_def option.case p(3) sz
      using fit k(1) p by (simp add: ac_simps)
    consider "m = ?k" | "?k + 24 < m" | "m \<noteq> ?k" "\<not> ?k + 24 < m" by blast
    then show ?thesis
    proof cases
      case 1
      moreover have "areas 0 bs = insert (p, m) (areas 0 bs - {(p, m)})" using assms(2) by auto
      ultimately show ?thesis using run assms(1) k(3) by (intro exI [of _ "Some p"] exI [of _ h]) auto
    next
      case 2
      obtain h' bs' where "realloc_shrink ?k m (span xs) h = Some h'" "heap_repr h' bs'" "heap_data h' = heap_data h"
        "mem_size_aligned h' = ?N" "areas 0 bs' = insert (p, ?k) (areas 0 bs - {(p, m)})"
        using realloc_cut [of h xs m ys ?k] assms(1) k 2 unfolding xy by blast
      with 2 run k(3) show ?thesis by (intro exI [of _ "Some p"] exI [of _ h']) auto
    next
      case 3
      have req: "request_ok ?k" using k(1) fit N by (simp add: request_ok_def)
      obtain r h1 where r: "rt_malloc ?k h = Some (r, h1)" "r = None \<Longrightarrow> h1 = h"
        using rt_malloc_areas [OF assms(1) req] by (auto split: option.splits)
      show ?thesis
      proof (cases r)
        case None
        with r 3 run show ?thesis by auto
      next
        case (Some q)
        with r realloc_move [OF assms(1,2) req, of q h1] obtain h' bs' l where mv:
          "rt_free (Some p) (copy_data q p (min m ?k) h1) = Some h'" "heap_repr h' bs'" "?k \<le> l" "mem_size_aligned h' = ?N"
          "areas 0 bs' = insert (q, l) (areas 0 bs - {(p, m)})"
          "\<forall>i<min m ?k. heap_data h' (q + i) = heap_data h (p + i)" "bytes_kept (areas 0 bs - {(p, m)}) h h'" by auto
        have "n \<le> l" using mv(3) k(3) by simp
        moreover have "rt_realloc (Some p) n h = Some (Some q, h')" using run 3 r(1) Some mv(1) by simp
        moreover have "\<forall>i<min m n. heap_data h' (q + i) = heap_data h (p + i)" using mv(6) k(3) by simp
        ultimately show ?thesis using mv by (intro exI [of _ "Some q"] exI [of _ h']) (simp, blast)
      qed
    qed
  qed
qed

section \<open>The heap after initialisation\<close>

text \<open>A region that leaves room for one block of the minimal size.\<close>

definition region_ok :: "nat \<Rightarrow> nat \<Rightarrow> bool" where
  "region_ok b e \<longleftrightarrow> e < 2 ^ 32 \<and> RT_ALIGN b + 36 \<le> RT_ALIGN_DOWN e \<and> b + 3 < 2 ^ 32"

lemma rt_system_heap_init_ok:
  assumes "region_ok b e"
  shows "\<exists>h. rt_system_heap_init b e raw bytes = Some h \<and> heap_repr h [(mem_size_aligned h, False)] \<and>
    mem_size_aligned h + 24 = RT_ALIGN_DOWN e - RT_ALIGN b"
proof -
  let ?b = "RT_ALIGN b" let ?e = "RT_ALIGN_DOWN e"
  have le: "?b + 36 \<le> ?e" "?e < 2 ^ 32" and m4: "?b mod 4 = 0" "?e mod 4 = 0"
    using assms RT_ALIGN_ok [of b] by (auto simp: region_ok_def RT_ALIGN_DOWN_def)
  define n where "n = ?e - ?b - 24"
  have s: "sub32 ?e 24 = ?e - 24" "sub32 ?e ?b = ?e - ?b" "sub32 (?e - ?b) 24 = n" "add32 n 12 = n + 12"
    using le by (auto simp: sub32_le n_def add32_lt)
  have "n + 24 = ?e - ?b" "12 \<le> n" "n + 24 < 2 ^ 32" "n mod 4 = 0"
    using le m4 by (auto simp: n_def mod_eq_0_iff_dvd)
  then show ?thesis
    using le s by (auto simp: rt_system_heap_init_def Let_def heap_repr_def heap_tiled_def block_hdr_def no_free_pair_def)
qed

section \<open>Histories\<close>

text \<open>The abstract store: every pointer handed out has an array of bytes. A history is a
  sequence of requests, releases, resizings and writes inside an array; the contents of
  a fresh array are whatever the memory holds.\<close>

type_synonym store = "nat \<rightharpoonup> u8 list"

inductive heap_run :: "store \<Rightarrow> heap_state \<Rightarrow> bool" where
  hr_init: "region_ok b e \<Longrightarrow> rt_system_heap_init b e raw bytes = Some h \<Longrightarrow> heap_run Map.empty h"
| hr_malloc: "heap_run M h \<Longrightarrow> request_ok n \<Longrightarrow> rt_malloc n h = Some (Some p, h') \<Longrightarrow>
    heap_run (M(p \<mapsto> map (heap_data h') [p..<p + n])) h'"
| hr_refused: "heap_run M h \<Longrightarrow> request_ok n \<Longrightarrow> rt_malloc n h = Some (None, h') \<Longrightarrow> heap_run M h'"
| hr_free: "heap_run M h \<Longrightarrow> M p = Some xs \<Longrightarrow> rt_free (Some p) h = Some h' \<Longrightarrow> heap_run (M(p := None)) h'"
| hr_realloc: "heap_run M h \<Longrightarrow> M p = Some xs \<Longrightarrow> request_ok n \<Longrightarrow> rt_realloc (Some p) n h = Some (Some q, h') \<Longrightarrow>
    heap_run ((M(p := None))(q \<mapsto> take n xs @ map (heap_data h') [q + length xs..<q + n])) h'"
| hr_not_resized: "heap_run M h \<Longrightarrow> M p = Some xs \<Longrightarrow> request_ok n \<Longrightarrow> rt_realloc (Some p) n h = Some (None, h') \<Longrightarrow>
    heap_run M h'"
| hr_write: "heap_run M h \<Longrightarrow> M p = Some xs \<Longrightarrow> i < length xs \<Longrightarrow>
    heap_run (M(p \<mapsto> xs[i := v])) (h\<lparr>heap_data := (heap_data h)(p + i := v)\<rparr>)"

text \<open>The heap holds exactly the arrays of the store, each in its own block.\<close>

definition holds :: "heap_state \<Rightarrow> nat \<Rightarrow> nat \<Rightarrow> u8 list \<Rightarrow> bool" where
  "holds h p m xs \<longleftrightarrow> length xs \<le> m \<and> (\<forall>i<length xs. heap_data h (p + i) = xs ! i)"

definition stores :: "store \<Rightarrow> heap_state \<Rightarrow> blocks \<Rightarrow> bool" where
  "stores M h bs \<longleftrightarrow> heap_repr h bs \<and> dom M = fst ` areas 0 bs \<and>
     (\<forall>(p, m)\<in>areas 0 bs. \<forall>xs. M p = Some xs \<longrightarrow> holds h p m xs)"

lemma area_unique: "tiles H pr a bs \<Longrightarrow> (p, m) \<in> areas a bs \<Longrightarrow> (p, k) \<in> areas a bs \<Longrightarrow> m = k"
proof (induction H pr a bs rule: tiles.induct)
  case (2 H pr a n u bs)
  then show ?case using areas_bounds [of p m "a + 12 + n" bs] areas_bounds [of p k "a + 12 + n" bs]
    by (auto split: if_splits)
qed simp

lemma stores_unique: "stores M h bs \<Longrightarrow> (p, m) \<in> areas 0 bs \<Longrightarrow> (p, k) \<in> areas 0 bs \<Longrightarrow> m = k"
  using area_unique by (auto simp: stores_def heap_repr_def heap_tiled_def)

lemma stores_area:
  assumes "stores M h bs" "M p = Some xs"
  obtains m where "(p, m) \<in> areas 0 bs" "holds h p m xs"
  using assms by (fastforce simp: stores_def dom_def)

lemma holds_fresh: "n \<le> m \<Longrightarrow> holds h p m (map (heap_data h) [p..<p + n])"
  by (simp add: holds_def)

lemma stores_init:
  assumes "region_ok b e" "rt_system_heap_init b e raw bytes = Some h"
  shows "\<exists>bs. stores Map.empty h bs"
  using rt_system_heap_init_ok [OF assms(1), of raw bytes] assms(2) by (auto simp: stores_def)

text \<open>A step that replaces the area \<open>(p, m)\<close> by \<open>(q, k)\<close>, or just adds or removes one, and keeps
  the other bytes.\<close>

lemma stores_insert:
  assumes "stores M h bs" "heap_repr h' bs'" "areas 0 bs' = insert (q, k) (areas 0 bs - R)"
    and "bytes_kept (areas 0 bs - R) h h'" "holds h' q k ys" "dom M' = insert q (dom M - fst ` R)" "R \<subseteq> areas 0 bs"
    and "M' q = Some ys" "\<And>a. a \<noteq> q \<Longrightarrow> a \<in> dom M' \<Longrightarrow> M' a = M a"
  shows "stores M' h' bs'"
proof -
  have "dom M - fst ` R = fst ` (areas 0 bs - R)"
    using stores_unique [OF assms(1)] assms(1,7) by (auto simp: stores_def image_iff) blast
  then have d: "dom M' = fst ` areas 0 bs'" using assms(3,6) by simp
  have "holds h' a l xs" if "(a, l) \<in> areas 0 bs'" "M' a = Some xs" for a l xs
  proof (cases "a = q")
    case True
    have "(q, k) \<in> areas 0 bs'" using assms(3) by simp
    then have "l = k" using that True assms(2) area_unique [of "heap_hdr h'" 0 0 bs' q l k] by (simp add: heap_repr_def heap_tiled_def)
    then show ?thesis using that True assms(5,8) by simp
  next
    case False
    then have a: "(a, l) \<in> areas 0 bs - R" using that assms(3) by auto
    have "M a = Some xs" using assms(9) [OF False] that(2) by (metis domI)
    then have "holds h a l xs" using assms(1) a by (auto simp: stores_def)
    moreover have "\<forall>i<l. heap_data h' (a + i) = heap_data h (a + i)" using assms(4) a by (auto simp: bytes_kept_def)
    ultimately show ?thesis by (simp add: holds_def)
  qed
  then show ?thesis using d assms(2) by (auto simp: stores_def)
qed

lemma stores_remove:
  assumes "stores M h bs" "heap_repr h' bs'" "(p, m) \<in> areas 0 bs" "areas 0 bs' = areas 0 bs - {(p, m)}" "heap_data h' = heap_data h"
  shows "stores (M(p := None)) h' bs'"
proof -
  have u: "k = m" if "(p, k) \<in> areas 0 bs" for k using stores_unique [OF assms(1) that assms(3)] .
  have "fst ` (areas 0 bs - {(p, m)}) = fst ` areas 0 bs - {p}" by (force dest: u)
  then have d: "dom (M(p := None)) = fst ` areas 0 bs'" using assms(1,4) by (simp add: stores_def)
  have "holds h' a l ys" if "(a, l) \<in> areas 0 bs'" "(M(p := None)) a = Some ys" for a l ys
    using assms(1,4,5) that by (auto simp: stores_def holds_def split: if_splits)
  then show ?thesis using d assms(2) unfolding stores_def by blast
qed

lemma stores_malloc:
  assumes "stores M h bs" "request_ok n" "rt_malloc n h = Some (Some p, h')"
  shows "\<exists>bs'. stores (M(p \<mapsto> map (heap_data h') [p..<p + n])) h' bs'"
proof -
  have r: "heap_repr h bs" using assms(1) by (simp add: stores_def)
  obtain bs' m where "heap_repr h' bs'" "max n 12 \<le> m" "areas 0 bs' = insert (p, m) (areas 0 bs)" "heap_data h' = heap_data h"
    using rt_malloc_areas [OF r assms(2)] assms(3) by auto
  then show ?thesis
    by (intro exI [of _ bs'] stores_insert [OF assms(1), of h' bs' p m "{}"]) (use holds_fresh [of n m h' p] in auto)
qed

lemma stores_free:
  assumes "stores M h bs" "M p = Some xs"
  shows "\<exists>h' bs'. rt_free (Some p) h = Some h' \<and> stores (M(p := None)) h' bs'"
proof -
  obtain m where m: "(p, m) \<in> areas 0 bs" using stores_area [OF assms] by blast
  have "heap_repr h bs" using assms(1) by (simp add: stores_def)
  from rt_free_areas [OF this m] stores_remove [OF assms(1) _ m] show ?thesis by metis
qed

lemma holds_resized:
  assumes "holds h p m xs" "\<forall>i<min m n. heap_data h' (q + i) = heap_data h (p + i)" "n \<le> l"
  shows "holds h' q l (take n xs @ map (heap_data h') [q + length xs..<q + n])"
  using assms by (auto simp: holds_def nth_append min_def)

lemma stores_realloc:
  assumes "stores M h bs" "M p = Some xs" "request_ok n"
  shows "\<exists>r h'. rt_realloc (Some p) n h = Some (r, h') \<and> (case r of None \<Rightarrow> h' = h
    | Some q \<Rightarrow> \<exists>bs'. stores ((M(p := None))(q \<mapsto> take n xs @ map (heap_data h') [q + length xs..<q + n])) h' bs')"
proof -
  obtain m where m: "(p, m) \<in> areas 0 bs" "holds h p m xs" using stores_area [OF assms(1,2)] .
  have rep: "heap_repr h bs" using assms(1) by (simp add: stores_def)
  obtain r h' where r: "rt_realloc (Some p) n h = Some (r, h')" "case r of None \<Rightarrow> h' = h
     | Some q \<Rightarrow> \<exists>bs' l. heap_repr h' bs' \<and> n \<le> l \<and> areas 0 bs' = insert (q, l) (areas 0 bs - {(p, m)}) \<and>
         (\<forall>i<min m n. heap_data h' (q + i) = heap_data h (p + i)) \<and> bytes_kept (areas 0 bs - {(p, m)}) h h'"
    using rt_realloc_areas [OF rep m(1) assms(3)] by blast
  show ?thesis
  proof (cases r)
    case (Some q)
    with r(2) obtain bs' l where q: "heap_repr h' bs'" "n \<le> l" "areas 0 bs' = insert (q, l) (areas 0 bs - {(p, m)})"
      "\<forall>i<min m n. heap_data h' (q + i) = heap_data h (p + i)" "bytes_kept (areas 0 bs - {(p, m)}) h h'" by auto
    have "stores ((M(p := None))(q \<mapsto> take n xs @ map (heap_data h') [q + length xs..<q + n])) h' bs'"
      using m holds_resized [OF m(2) q(4,2)] by (intro stores_insert [OF assms(1) q(1,3,5)]) auto
    with r(1) Some show ?thesis by auto
  qed (use r in auto)
qed

lemma stores_write:
  assumes "stores M h bs" "M p = Some xs" "i < length xs"
  shows "stores (M(p \<mapsto> xs[i := v])) (h\<lparr>heap_data := (heap_data h)(p + i := v)\<rparr>) bs"
proof -
  let ?h = "h\<lparr>heap_data := (heap_data h)(p + i := v)\<rparr>"
  obtain m where m: "(p, m) \<in> areas 0 bs" "holds h p m xs" using stores_area [OF assms(1,2)] .
  have "heap_repr ?h bs" using assms(1) by (simp add: stores_def)
  moreover have "areas 0 bs = insert (p, m) (areas 0 bs - {(p, m)})" using m(1) by auto
  moreover have "bytes_kept (areas 0 bs - {(p, m)}) h ?h"
    using areas_disjoint [OF m(1)] m(2) assms(3) by (fastforce simp: bytes_kept_def holds_def)
  moreover have "holds ?h p m (xs[i := v])" using m(2) assms(3) by (auto simp: holds_def nth_list_update)
  ultimately show ?thesis using m(1) assms(2) by (intro stores_insert [OF assms(1), of ?h bs p m "{(p, m)}"]) auto
qed

lemma heap_run_stores: "heap_run M h \<Longrightarrow> \<exists>bs. stores M h bs"
proof (induction rule: heap_run.induct)
  case (hr_init b e raw bytes h)
  then show ?case by (rule stores_init)
next
  case (hr_malloc M h n p h')
  then show ?case using stores_malloc by blast
next
  case (hr_refused M h n h')
  then obtain bs where bs: "stores M h bs" by blast
  then have "heap_repr h bs" by (simp add: stores_def)
  from rt_malloc_areas [OF this hr_refused(2)] have "h' = h" using hr_refused(3) by auto
  with bs show ?case by blast
next
  case (hr_free M h p xs h')
  then obtain bs where "stores M h bs" by blast
  from stores_free [OF this hr_free(2)] hr_free(3) show ?case by (auto simp: fun_upd_def)
next
  case (hr_realloc M h p xs n q h')
  then obtain bs where "stores M h bs" by blast
  from stores_realloc [OF this hr_realloc(2,3)] hr_realloc(4) show ?case by (auto simp: fun_upd_def)
next
  case (hr_not_resized M h p xs n h')
  then obtain bs where bs: "stores M h bs" by blast
  from stores_realloc [OF this hr_not_resized(2,3)] hr_not_resized(4) bs show ?case by auto
next
  case (hr_write M h p xs i v)
  then show ?case using stores_write by blast
qed

section \<open>Releasing in reverse order\<close>

text \<open>A stronger contract, for clients that release the last block first: the state is
  restored as it was, not only what is owned.\<close>

locale lifo_allocator =
  fixes rep :: "'b \<Rightarrow> 's \<Rightarrow> bool"
    and alloc :: "nat \<Rightarrow> 's \<Rightarrow> (nat option \<times> 's) option" and release :: "nat \<Rightarrow> 's \<Rightarrow> 's option"
    and valid :: "nat \<Rightarrow> bool"
  assumes undo: "rep b s \<Longrightarrow> valid n \<Longrightarrow> alloc n s = Some (Some p, s') \<Longrightarrow>
    \<exists>b'. rep b' s' \<and> (\<forall>t. rep b' t \<longrightarrow> (\<exists>t'. release p t = Some t' \<and> rep b t'))"
begin

lemma undo_two:
  assumes "rep b s" "valid n" "valid k" "alloc n s = Some (Some p, s1)" "alloc k s1 = Some (Some q, s2)"
  shows "\<exists>s3 s4. release q s2 = Some s3 \<and> release p s3 = Some s4 \<and> rep b s4"
proof -
  obtain b1 where b1: "rep b1 s1" "\<And>t. rep b1 t \<Longrightarrow> \<exists>t'. release p t = Some t' \<and> rep b t'" using undo [OF assms(1,2,4)] by blast
  obtain s3 where "release q s2 = Some s3" "rep b1 s3" using undo [OF b1(1) assms(3,5)] by blast
  with b1(2) show ?thesis by blast
qed

end

lemma merge_back:
  assumes "no_free_pair (xs @ (m, False) # ys)" "sz \<le> m"
  shows "\<exists>k zs. taken sz m @ ys = (k, True) # zs \<and> merge_prev xs (merge_next k zs) = xs @ (m, False) # ys"
proof -
  have xs: "xs = [] \<or> snd (last xs)" and ys: "ys = [] \<or> (\<exists>l zs. ys = (l, True) # zs)"
    using assms(1) by (cases ys; auto simp: no_free_pair_def successively_append_iff successively_Cons)+
  have "merge_prev xs zs = xs @ zs" for zs using xs by (auto simp: merge_prev_def)
  then show ?thesis using ys assms(2) by (auto simp: taken_def)
qed

interpretation rt_heap_lifo: lifo_allocator "\<lambda>bs h. heap_repr h bs" rt_malloc "\<lambda>p. rt_free (Some p)" "\<lambda>n. 0 < n"
proof (unfold_locales, goal_cases)
  case (1 bs h n p h')
  then obtain xs m ys where b: "bs = xs @ (m, False) # ys" "p = span xs + 12" "block_size n \<le> m"
    "heap_repr h' (xs @ taken (block_size n) m @ ys)" using rt_malloc_blocks [of h bs n] by auto
  have "no_free_pair (xs @ (m, False) # ys)" using 1(1) b(1) by (simp add: heap_repr_def)
  from merge_back [OF this b(3)] obtain k zs where k: "taken (block_size n) m @ ys = (k, True) # zs"
    "merge_prev xs (merge_next k zs) = bs" using b(1) by auto
  show ?case
  proof (intro exI [of _ "xs @ (k, True) # zs"] conjI allI impI)
    show "heap_repr h' (xs @ (k, True) # zs)" using b(4) k(1) by simp
    show "\<exists>t'. rt_free (Some p) t = Some t' \<and> heap_repr t' bs" if "heap_repr t (xs @ (k, True) # zs)" for t
      using rt_free_blocks [OF that] k(2) b(2) by auto
  qed
qed

section \<open>Properties\<close>

lemma areas_none: "areas a bs = {} \<Longrightarrow> \<forall>b\<in>set bs. \<not> snd b"
  by (induction a bs rule: areas.induct) (auto split: if_splits)

lemma one_free_block: "no_free_pair bs \<Longrightarrow> \<forall>b\<in>set bs. \<not> snd b \<Longrightarrow> span bs = N + 12 \<Longrightarrow> bs = [(N, False)]"
  by (cases bs rule: remdups_adj.cases) (auto simp: no_free_pair_def)

lemma drained_repr: "stores Map.empty h bs \<Longrightarrow> heap_repr h [(mem_size_aligned h, False)]"
  using areas_none [of 0 bs] one_free_block [of bs "mem_size_aligned h"]
  by (auto simp: stores_def heap_repr_def heap_tiled_def)

lemma rt_malloc_single:
  assumes "heap_repr h [(N, False)]" "0 < n" "block_size n < N"
  shows "\<exists>h'. rt_malloc n h = Some (Some 12, h') \<and> heap_repr h' (taken (block_size n) N)"
proof -
  obtain r h' where r: "rt_malloc n h = Some (r, h')" "case r of
       None \<Rightarrow> h' = h \<and> (\<forall>xs m ys. [(N, False)] = xs @ (m, False) # ys \<longrightarrow> block_size n \<le> m \<longrightarrow> m = block_size n \<and> ys = [])
     | Some p \<Rightarrow> \<exists>xs m ys. [(N, False)] = xs @ (m, False) # ys \<and> p = span xs + 12 \<and> block_size n \<le> m \<and>
                   heap_repr h' (xs @ taken (block_size n) m @ ys)"
    using rt_malloc_blocks [OF assms(1,2)] by blast
  with assms(3) show ?thesis by (cases r) (auto simp: Cons_eq_append_conv)
qed

lemma rt_malloc_whole:
  assumes "heap_repr h [(N, False)]" "0 < n" "N \<le> block_size n"
  shows "rt_malloc n h = Some (None, h)"
proof -
  have N: "mem_size_aligned h = N" "lfree h = 0" "12 \<le> N"
    using assms(1) by (auto simp: heap_repr_def heap_tiled_def)
  have "block_size n = N" if "RT_ALIGN n \<le> N" using assms(3) N(3) that by (simp add: block_size_def)
  then show ?thesis using assms(2) N
    by (auto simp: rt_malloc_def Let_def block_size_def max_def malloc_search.simps [of _ 0] sub32_def not_less split: if_splits)
qed

text \<open>A heap in 64 bytes, for the examples.\<close>

definition demo_heap :: heap_state where
  "demo_heap = the (rt_system_heap_init 0 64 (\<lambda>_. \<lparr>hm_magic = 0, hm_used = 0, hm_next = 0, hm_prev = 0\<rparr>) (\<lambda>_. 0))"

lemma demo_region: "region_ok 0 64"
  by (simp add: region_ok_def RT_ALIGN_def RT_ALIGN_DOWN_def add32_def)

lemma demo_heap_ok: "heap_repr demo_heap [(40, False)]" "heap_run Map.empty demo_heap"
proof -
  let ?raw = "\<lambda>_. \<lparr>hm_magic = 0, hm_used = 0, hm_next = 0, hm_prev = 0\<rparr>"
  obtain h where h: "rt_system_heap_init 0 64 ?raw (\<lambda>_. 0) = Some h" "heap_repr h [(mem_size_aligned h, False)]"
    "mem_size_aligned h + 24 = RT_ALIGN_DOWN 64 - RT_ALIGN 0"
    using rt_system_heap_init_ok [OF demo_region, of ?raw "\<lambda>_. 0"] by blast
  then have "mem_size_aligned h = 40" by (simp add: RT_ALIGN_def RT_ALIGN_DOWN_def add32_def)
  with h show "heap_repr demo_heap [(40, False)]" by (simp add: demo_heap_def)
  show "heap_run Map.empty demo_heap" using hr_init [OF demo_region h(1)] h(1) by (simp add: demo_heap_def)
qed

lemma demo_bytes: "heap_data demo_heap = (\<lambda>_. 0)"
  by (simp add: demo_heap_def rt_system_heap_init_def Let_def RT_ALIGN_def RT_ALIGN_DOWN_def add32_def sub32_def)

lemma demo_malloc: "\<exists>h'. rt_malloc 5 demo_heap = Some (Some 12, h') \<and> heap_repr h' [(12, True), (16, False)]"
  using rt_malloc_single [OF demo_heap_ok(1), of 5] by (simp add: block_size_def RT_ALIGN_def add32_def taken_def)

lemma demo_malloc2: "heap_repr h [(12, True), (16, False)] \<Longrightarrow> 0 < n \<Longrightarrow> block_size n = 12 \<Longrightarrow> \<exists>h'. rt_malloc n h = Some (Some 36, h')"
proof -
  assume h: "heap_repr h [(12, True), (16, False)]" "0 < n" and n: "block_size n = 12"
  obtain r h' where r: "rt_malloc n h = Some (r, h')" "case r of
       None \<Rightarrow> h' = h \<and> (\<forall>xs m ys. [(12, True), (16, False)] = xs @ (m, False) # ys \<longrightarrow> block_size n \<le> m \<longrightarrow> m = block_size n \<and> ys = [])
     | Some p \<Rightarrow> \<exists>xs m ys. [(12, True), (16, False)] = xs @ (m, False) # ys \<and> p = span xs + 12 \<and> block_size n \<le> m \<and>
                   heap_repr h' (xs @ taken (block_size n) m @ ys)"
    using rt_malloc_blocks [OF h] by auto
  have "[(12, True), (16, False)] = [(12, True)] @ (16, False) # []" by simp
  with r show ?thesis unfolding n by (cases r) (fastforce simp: Cons_eq_append_conv)+
qed

text \<open>
  C14: refinement of the abstract store: after every history of \<open>rt_malloc\<close>, \<open>rt_free\<close>,
  \<open>rt_realloc\<close> and writes inside the areas handed out, starting from
  \<open>rt_system_heap_init\<close>, every array still holds the bytes last written to it, lies inside the
  region and overlaps no other array; releasing it is accepted, and every further request whose
  size can be rounded up to a word in 32 bits returns. The blocks tile the region, and the twelve
  bytes of every header of a block, also of the header that ends the region, lie outside the
  array: so headers and areas can be kept in maps of their own in the model.
\<close>

theorem heap_history_sound:
  assumes "heap_run M h" "M p = Some xs"
  shows "map (heap_data h) [p..<p + length xs] = xs \<and> 12 \<le> p \<and> p + length xs \<le> heap_end h \<and>
    (\<forall>q ys. q \<noteq> p \<longrightarrow> M q = Some ys \<longrightarrow> p + length xs \<le> q \<or> q + length ys \<le> p) \<and>
    (\<exists>bs. heap_repr h bs \<and> (\<forall>us vs. bs = us @ vs \<longrightarrow> span us + SIZEOF_STRUCT_MEM \<le> p \<or> p + length xs \<le> span us)) \<and>
    (\<exists>h'. rt_free (Some p) h = Some h' \<and> heap_run (M(p := None)) h') \<and>
    (\<forall>n. request_ok n \<longrightarrow> (\<exists>r h'. rt_malloc n h = Some (r, h')))"
proof (intro conjI allI impI)
  obtain bs where bs: "stores M h bs" using heap_run_stores [OF assms(1)] by blast
  then have rep: "heap_repr h bs" by (simp add: stores_def)
  obtain m where m: "(p, m) \<in> areas 0 bs" "holds h p m xs" using stores_area [OF bs assms(2)] .
  show "map (heap_data h) [p..<p + length xs] = xs" using m(2) by (auto simp: holds_def intro: nth_equalityI)
  have e: "span bs = heap_end h" using rep by (simp add: heap_repr_def heap_tiled_def)
  show "12 \<le> p" "p + length xs \<le> heap_end h" using areas_bounds [OF m(1)] m(2) e by (auto simp: holds_def)
  show "p + length xs \<le> q \<or> q + length ys \<le> p" if ne: "q \<noteq> p" and q: "M q = Some ys" for q ys
  proof -
    obtain k where k: "(q, k) \<in> areas 0 bs" "holds h q k ys" using stores_area [OF bs q] .
    then show ?thesis using areas_disjoint [OF m(1) k(1)] ne m(2) by (auto simp: holds_def)
  qed
  have "span us + SIZEOF_STRUCT_MEM \<le> p \<or> p + length xs \<le> span us" if "bs = us @ vs" for us vs
    using areas_off_header [of p m 0 us vs] m that by (auto simp: holds_def)
  with rep show "\<exists>bs. heap_repr h bs \<and> (\<forall>us vs. bs = us @ vs \<longrightarrow> span us + SIZEOF_STRUCT_MEM \<le> p \<or> p + length xs \<le> span us)"
    by blast
  show "\<exists>h'. rt_free (Some p) h = Some h' \<and> heap_run (M(p := None)) h'"
    using stores_free [OF bs assms(2)] hr_free [OF assms] by blast
  show "\<exists>r h'. rt_malloc n h = Some (r, h')" if "request_ok n" for n using rt_malloc_areas [OF rep that] by blast
qed

lemma demo_history: "\<exists>h1. rt_malloc 5 demo_heap = Some (Some 12, h1) \<and> heap_run [12 \<mapsto> [0, 0, 0, 0, 0]] h1"
proof -
  have ok: "request_ok 5" by (simp add: request_ok_def)
  obtain h1 where h1: "rt_malloc 5 demo_heap = Some (Some 12, h1)" using demo_malloc by blast
  have d: "heap_data h1 = (\<lambda>_. 0)" using rt_malloc_areas [OF demo_heap_ok(1) ok] h1 demo_bytes by auto
  have "map (heap_data h1) [12..<12 + 5] = [0, 0, 0, 0, 0]" unfolding d by simp
  with hr_malloc [OF demo_heap_ok(2) ok h1] h1 show ?thesis by simp
qed

theorem heap_history_sound_witness:
  "\<exists>h. heap_run [12 \<mapsto> [7, 0, 0, 0, 0]] h \<and> map (heap_data h) [12..<17] = [7, 0, 0, 0, 0] \<and>
     (\<exists>h'. rt_free (Some 12) h = Some h' \<and> heap_run Map.empty h')"
proof -
  let ?xs = "[7, 0, 0, 0, 0] :: u8 list"
  obtain h1 where "heap_run [12 \<mapsto> [0, 0, 0, 0, 0]] h1" using demo_history by blast
  from hr_write [OF this, of 12 "[0, 0, 0, 0, 0]" 0 7] have run: "heap_run [12 \<mapsto> ?xs] (h1\<lparr>heap_data := (heap_data h1)(12 := 7)\<rparr>)"
    by simp
  from heap_history_sound [OF run, of 12 ?xs] show ?thesis
    by (intro exI [of _ "h1\<lparr>heap_data := (heap_data h1)(12 := 7)\<rparr>"]) (use run in simp)
qed

text \<open>
  C16: nothing leaks and the heap does not stay fragmented: whenever, after any history, every
  area has been released, the heap is again one free block of the full size with no byte
  counted as used. The next request is served at the start of the heap if its rounded size is below
  that size; a request for the whole block, which would fit, is refused, and so are larger ones.
\<close>

theorem heap_drained:
  assumes "heap_run Map.empty h"
  shows "heap_repr h [(mem_size_aligned h, False)] \<and> used_mem h = 0 \<and>
    (\<forall>n. 0 < n \<and> block_size n < mem_size_aligned h \<longrightarrow> (\<exists>h'. rt_malloc n h = Some (Some 12, h'))) \<and>
    (\<forall>n. 0 < n \<and> mem_size_aligned h \<le> block_size n \<longrightarrow> rt_malloc n h = Some (None, h))"
proof -
  obtain bs where "stores Map.empty h bs" using heap_run_stores [OF assms] by blast
  then have r: "heap_repr h [(mem_size_aligned h, False)]" by (rule drained_repr)
  then have "used_mem h = 0" by (simp add: heap_repr_def heap_tiled_def)
  then show ?thesis using r rt_malloc_single [OF r] rt_malloc_whole [OF r] by blast
qed

theorem heap_drained_witness:
  "\<exists>h1 h2. rt_malloc 5 demo_heap = Some (Some 12, h1) \<and> rt_free (Some 12) h1 = Some h2 \<and> used_mem h2 = 0 \<and>
     heap_repr h2 [(mem_size_aligned h2, False)] \<and> heap_run Map.empty h2"
proof -
  obtain h1 where h1: "rt_malloc 5 demo_heap = Some (Some 12, h1)" "heap_run [12 \<mapsto> [0, 0, 0, 0, 0]] h1"
    using demo_history by blast
  obtain bs where "stores [12 \<mapsto> [0, 0, 0, 0, 0]] h1 bs" using heap_run_stores [OF h1(2)] by blast
  from stores_free [OF this, of 12] obtain h2 where h2: "rt_free (Some 12) h1 = Some h2" by auto
  have run: "heap_run Map.empty h2" using hr_free [OF h1(2) _ h2] by simp
  from heap_drained [OF run] show ?thesis using h1(1) h2 run by blast
qed

text \<open>
  The discipline of \<open>analyzeMasterData\<close>, which holds two blocks and releases the second
  first: whatever the heap looked like, both releases are accepted and afterwards the list of
  blocks, used and free, is exactly what it was. Serving requests does not wear the heap out.
\<close>

theorem rt_malloc_free_restores:
  assumes "heap_repr h bs" "0 < n" "0 < k"
    and "rt_malloc n h = Some (Some p, h1)" "rt_malloc k h1 = Some (Some q, h2)"
  shows "\<exists>h3 h4. rt_free (Some q) h2 = Some h3 \<and> rt_free (Some p) h3 = Some h4 \<and> heap_repr h4 bs"
  by (rule rt_heap_lifo.undo_two [OF assms])

theorem rt_malloc_free_restores_witness:
  "\<exists>h1 h2 h3 h4. rt_malloc 5 demo_heap = Some (Some 12, h1) \<and> rt_malloc 3 h1 = Some (Some 36, h2) \<and>
     rt_free (Some 36) h2 = Some h3 \<and> rt_free (Some 12) h3 = Some h4 \<and> heap_repr h4 [(40, False)]"
proof -
  obtain h1 where h1: "rt_malloc 5 demo_heap = Some (Some 12, h1)" "heap_repr h1 [(12, True), (16, False)]"
    using demo_malloc by blast
  obtain h2 where h2: "rt_malloc 3 h1 = Some (Some 36, h2)" using demo_malloc2 [OF h1(2), of 3] by (auto simp: block_size_def RT_ALIGN_def add32_def)
  from rt_malloc_free_restores [OF demo_heap_ok(1) _ _ h1(1) h2] h1 h2 show ?thesis by auto
qed

text \<open>
  A request is refused only when no free block has room for it after rounding, with one
  exception in the code's favour of caution: a block of exactly the size at the end of the
  heap is not taken. A refusal changes nothing.
\<close>

theorem rt_malloc_refuses:
  assumes "heap_repr h bs" "0 < n" "rt_malloc n h = Some (None, h')"
  shows "h' = h \<and> (\<forall>xs m ys. bs = xs @ (m, False) # ys \<longrightarrow> m < block_size n \<or> m = block_size n \<and> ys = [])"
  using rt_malloc_blocks [OF assms(1,2)] assms(3) by (force simp: not_less)

theorem rt_malloc_refuses_witness:
  "rt_malloc 40 demo_heap = Some (None, demo_heap) \<and>
   (\<forall>xs m ys. [(40, False)] = xs @ (m, False) # ys \<longrightarrow> m < block_size 40 \<or> m = block_size 40 \<and> ys = [])"
proof -
  have "mem_size_aligned demo_heap = 40" "lfree demo_heap = 0"
    using demo_heap_ok(1) by (simp_all add: heap_repr_def heap_tiled_def)
  then have run: "rt_malloc 40 demo_heap = Some (None, demo_heap)"
    by (simp add: rt_malloc_def Let_def RT_ALIGN_def add32_def malloc_search.simps [of 40 0 demo_heap] sub32_def)
  from rt_malloc_refuses [OF demo_heap_ok(1) _ this] run show ?thesis by simp
qed

text \<open>
  The rounding of \<open>rt_malloc\<close> is done in 32 bits without a check: a request for any of the
  three largest sizes wraps around to zero, passes the test against the size of the heap and
  is answered with a block of 12 bytes.
\<close>

theorem rt_malloc_wraps:
  assumes "heap_repr h [(N, False)]" "36 \<le> N" "2 ^ 32 - 3 \<le> n" "n < 2 ^ 32"
  shows "\<exists>h'. rt_malloc n h = Some (Some 12, h') \<and> heap_owns {(12, 12)} h'"
proof -
  have "RT_ALIGN n = 0"
  proof -
    have "n = 4294967293 \<or> n = 4294967294 \<or> n = 4294967295" using assms(3,4) by simp linarith
    then show ?thesis by (auto simp: RT_ALIGN_def add32_def)
  qed
  then have "block_size n = 12" by (simp add: block_size_def)
  with rt_malloc_single [OF assms(1), of n] assms(2,3) obtain h' where
    "rt_malloc n h = Some (Some 12, h')" "heap_repr h' (taken 12 N)" by auto
  then show ?thesis using assms(2) by (auto simp: heap_owns_def taken_def)
qed

theorem rt_malloc_wraps_witness: "\<exists>h'. rt_malloc 0xFFFFFFFF demo_heap = Some (Some 12, h') \<and> heap_owns {(12, 12)} h'"
  using rt_malloc_wraps [of demo_heap 40 "0xFFFFFFFF"] demo_heap_ok(1) by simp

end
