(* ===== verification/Rt_Kservice.thy ===== *)
theory Rt_Kservice
  imports Base
begin

text \<open>
  The memory and string routines of the kernel, \<^verbatim>\<open>rt-thread/src/kservice.c\<close>, which the
  firmware uses for every copy. \<open>rt_memset\<close> and \<open>rt_memcpy\<close> work in words, four at a time, where size and
  alignment allow it; they are shown to do what a plain loop over the bytes does.

  Memory is a function from addresses to bytes; \<open>long\<close> has four bytes, the least significant
  first. \<open>rt_memcpy\<close> keeps the length in an \<open>int\<close>, but compares it with unsigned block sizes only, so it
  behaves as the unsigned \<open>count\<close>. A search for the end of a string that has none does not return
  (\<open>None\<close>).
\<close>

type_synonym mem = "nat \<Rightarrow> u8"

definition LBLOCKSIZE :: nat where [simp]: "LBLOCKSIZE = 4"
definition BIGBLOCKSIZE :: nat where [simp]: "BIGBLOCKSIZE = 16"

definition load32 :: "nat \<Rightarrow> mem \<Rightarrow> u32" where
  "load32 p m = of_le32 [m p, m (p + 1), m (p + 2), m (p + 3)]"

definition store32 :: "nat \<Rightarrow> u32 \<Rightarrow> mem \<Rightarrow> mem" where
  "store32 p w m = m(p := le32 w ! 0, p + 1 := le32 w ! 1, p + 2 := le32 w ! 2, p + 3 := le32 w ! 3)"

section \<open>rt_memset\<close>

fun set_bytes :: "u8 \<Rightarrow> nat \<Rightarrow> nat \<Rightarrow> mem \<Rightarrow> mem" where
  "set_bytes d p 0 m = m"
| "set_bytes d p (Suc n) m = set_bytes d (p + 1) n (m(p := d))"

fun set_words4 :: "u32 \<Rightarrow> nat \<Rightarrow> nat \<Rightarrow> mem \<Rightarrow> nat \<times> nat \<times> mem" where
  "set_words4 w p n m =
     (if n \<ge> LBLOCKSIZE * 4
      then set_words4 w (p + 16) (n - 4 * LBLOCKSIZE)
             (store32 (p + 12) w (store32 (p + 8) w (store32 (p + 4) w (store32 p w m))))
      else (p, n, m))"

fun set_words :: "u32 \<Rightarrow> nat \<Rightarrow> nat \<Rightarrow> mem \<Rightarrow> nat \<times> nat \<times> mem" where
  "set_words w p n m =
     (if n \<ge> LBLOCKSIZE then set_words w (p + 4) (n - LBLOCKSIZE) (store32 p w m) else (p, n, m))"

declare set_words4.simps [simp del] set_words.simps [simp del]

definition set_buffer :: "u32 \<Rightarrow> u32" where
  "set_buffer d = (let b = push_bit 8 d OR d in b OR push_bit 16 b)"

definition rt_memset :: "nat \<Rightarrow> u32 \<Rightarrow> nat \<Rightarrow> mem \<Rightarrow> mem" where
  "rt_memset s c n m =
     (let d = c AND 0xff in
      if n \<ge> LBLOCKSIZE \<and> s mod LBLOCKSIZE = 0 then
        case set_words4 (set_buffer d) s n m of (p, n, m) \<Rightarrow>
        case set_words (set_buffer d) p n m of (p, n, m) \<Rightarrow> set_bytes (ucast d) p n m
      else set_bytes (ucast d) s n m)"

section \<open>rt_memcpy and rt_memmove\<close>

fun copy_bytes :: "nat \<Rightarrow> nat \<Rightarrow> nat \<Rightarrow> mem \<Rightarrow> mem" where
  "copy_bytes dst src 0 m = m"
| "copy_bytes dst src (Suc n) m = copy_bytes (dst + 1) (src + 1) n (m(dst := m src))"

definition copy_word :: "nat \<Rightarrow> nat \<Rightarrow> mem \<Rightarrow> mem" where
  "copy_word dst src m = store32 dst (load32 src m) m"

fun copy_words4 :: "nat \<Rightarrow> nat \<Rightarrow> nat \<Rightarrow> mem \<Rightarrow> nat \<times> nat \<times> nat \<times> mem" where
  "copy_words4 dst src n m =
     (if n \<ge> BIGBLOCKSIZE
      then copy_words4 (dst + 16) (src + 16) (n - BIGBLOCKSIZE)
             (copy_word (dst + 12) (src + 12) (copy_word (dst + 8) (src + 8) (copy_word (dst + 4) (src + 4) (copy_word dst src m))))
      else (dst, src, n, m))"

fun copy_words :: "nat \<Rightarrow> nat \<Rightarrow> nat \<Rightarrow> mem \<Rightarrow> nat \<times> nat \<times> nat \<times> mem" where
  "copy_words dst src n m =
     (if n \<ge> LBLOCKSIZE then copy_words (dst + 4) (src + 4) (n - LBLOCKSIZE) (copy_word dst src m) else (dst, src, n, m))"

declare copy_words4.simps [simp del] copy_words.simps [simp del]

definition rt_memcpy :: "nat \<Rightarrow> nat \<Rightarrow> nat \<Rightarrow> mem \<Rightarrow> mem" where
  "rt_memcpy dst src n m =
     (if n \<ge> BIGBLOCKSIZE \<and> src mod 4 = 0 \<and> dst mod 4 = 0 then
        case copy_words4 dst src n m of (dst, src, n, m) \<Rightarrow>
        case copy_words dst src n m of (dst, src, n, m) \<Rightarrow> copy_bytes dst src n m
      else copy_bytes dst src n m)"

text \<open>The backward loop of \<open>rt_memmove\<close>, with the pointers behind the last byte.\<close>

fun copy_back :: "nat \<Rightarrow> nat \<Rightarrow> nat \<Rightarrow> mem \<Rightarrow> mem" where
  "copy_back tmp s 0 m = m"
| "copy_back tmp s (Suc n) m = copy_back (tmp - 1) (s - 1) n (m(tmp - 1 := m (s - 1)))"

definition rt_memmove :: "nat \<Rightarrow> nat \<Rightarrow> nat \<Rightarrow> mem \<Rightarrow> mem" where
  "rt_memmove dest src n m =
     (if src < dest \<and> dest < src + n then copy_back (dest + n) (src + n) n m else copy_bytes dest src n m)"

fun rt_memcmp :: "nat \<Rightarrow> nat \<Rightarrow> nat \<Rightarrow> mem \<Rightarrow> int" where
  "rt_memcmp cs ct 0 m = 0"
| "rt_memcmp cs ct (Suc n) m =
     (let res = uint (m cs) - uint (m ct) in if res \<noteq> 0 then res else rt_memcmp (cs + 1) (ct + 1) n m)"

section \<open>Strings\<close>

text \<open>The counter is \<open>sc - s\<close>.\<close>

partial_function (option) strlen_from :: "nat \<Rightarrow> nat \<Rightarrow> mem \<Rightarrow> nat option" where
  "strlen_from s i m = (if m (s + i) \<noteq> 0 then strlen_from s (i + 1) m else Some i)"

definition rt_strlen :: "nat \<Rightarrow> mem \<Rightarrow> nat option" where
  "rt_strlen s m = strlen_from s 0 m"

fun rt_strnlen :: "nat \<Rightarrow> nat \<Rightarrow> mem \<Rightarrow> nat" where
  "rt_strnlen s 0 m = 0"
| "rt_strnlen s (Suc n) m = (if m s \<noteq> 0 then Suc (rt_strnlen (s + 1) n m) else 0)"

fun rt_strncpy :: "nat \<Rightarrow> nat \<Rightarrow> nat \<Rightarrow> mem \<Rightarrow> mem" where
  "rt_strncpy d s 0 m = m"
| "rt_strncpy d s (Suc n) m =
     (let m' = m(d := m s) in if m s = 0 then set_bytes 0 (d + 1) n m' else rt_strncpy (d + 1) (s + 1) n m')"

text \<open>\<open>__res\<close> is a \<open>signed char\<close>: the difference of the characters is cut to eight bits.\<close>

fun rt_strncmp :: "nat \<Rightarrow> nat \<Rightarrow> nat \<Rightarrow> mem \<Rightarrow> int" where
  "rt_strncmp cs ct 0 m = 0"
| "rt_strncmp cs ct (Suc n) m =
     (let res = sint (m cs - m ct)
      in if res \<noteq> 0 \<or> m cs = 0 then res else rt_strncmp (cs + 1) (ct + 1) n m)"

partial_function (option) rt_strcmp :: "nat \<Rightarrow> nat \<Rightarrow> mem \<Rightarrow> int option" where
  "rt_strcmp cs ct m =
     (if m cs \<noteq> 0 \<and> m cs = m ct then rt_strcmp (cs + 1) (ct + 1) m else Some (uint (m cs) - uint (m ct)))"

fun strstr_loop :: "nat \<Rightarrow> nat \<Rightarrow> nat \<Rightarrow> nat \<Rightarrow> mem \<Rightarrow> nat option" where
  "strstr_loop s1 s2 0 l2 m = None"
| "strstr_loop s1 s2 (Suc l1) l2 m =
     (if Suc l1 \<ge> l2 then if rt_memcmp s1 s2 l2 m = 0 then Some s1 else strstr_loop (s1 + 1) s2 l1 l2 m else None)"

definition rt_strstr :: "nat \<Rightarrow> nat \<Rightarrow> mem \<Rightarrow> nat option option" where
  "rt_strstr s1 s2 m = do {
     l2 \<leftarrow> rt_strlen s2 m;
     if l2 = 0 then Some (Some s1)
     else do { l1 \<leftarrow> rt_strlen s1 m; Some (strstr_loop s1 s2 l1 l2 m) }
   }"

text \<open>\<open>to_lower\<close> stands for the two conditional additions.\<close>

definition to_lower :: "u8 \<Rightarrow> int" where
  "to_lower c = (let ca = uint c in if ca \<ge> 65 \<and> ca \<le> 90 then ca + 32 else ca)"

partial_function (option) rt_strcasecmp :: "nat \<Rightarrow> nat \<Rightarrow> mem \<Rightarrow> int option" where
  "rt_strcasecmp a b m =
     (let ca = to_lower (m a); cb = to_lower (m b)
      in if ca = cb \<and> ca \<noteq> 0 then rt_strcasecmp (a + 1) (b + 1) m else Some (ca - cb))"

section \<open>Correctness\<close>

text \<open>The plain meaning of filling and of copying.\<close>

definition filled :: "nat \<Rightarrow> u8 \<Rightarrow> nat \<Rightarrow> mem \<Rightarrow> mem" where
  "filled s d k m = (\<lambda>x. if s \<le> x \<and> x < s + k then d else m x)"

definition copied :: "nat \<Rightarrow> nat \<Rightarrow> nat \<Rightarrow> mem \<Rightarrow> mem" where
  "copied dst src k m = (\<lambda>x. if dst \<le> x \<and> x < dst + k then m (src + (x - dst)) else m x)"

lemma copy_word_eq: "copy_word dst src m =
  m(dst := m src, dst + 1 := m (src + 1), dst + 2 := m (src + 2), dst + 3 := m (src + 3))"
  by (simp add: copy_word_def store32_def load32_def le32_def le32_of_le32)

subsection \<open>Filling\<close>

lemma filled_0 [simp]: "filled s d 0 m = m"
  by (auto simp: filled_def fun_eq_iff)

lemma fill_byte: "(filled s d k m)(s + k := d) = filled s d (Suc k) m"
  by (auto simp: filled_def)

lemma fill_word: "le32 w = [d, d, d, d] \<Longrightarrow> store32 (s + k) w (filled s d k m) = filled s d (k + 4) m"
  by (auto simp: store32_def filled_def fun_eq_iff)

lemma set_bytes_filled: "set_bytes d (s + k) n (filled s d k m) = filled s d (k + n) m"
proof (induction n arbitrary: k)
  case (Suc n)
  from Suc [of "Suc k"] show ?case by (simp only: set_bytes.simps fill_byte) simp
qed simp

lemma set_words4_filled:
  assumes "le32 w = [d, d, d, d]"
  shows "\<exists>j\<le>n. set_words4 w (s + k) n (filled s d k m) = (s + (k + j), n - j, filled s d (k + j) m)"
proof (induction n arbitrary: k rule: less_induct)
  case (less n)
  show ?case
  proof (cases "16 \<le> n")
    case True
    have st: "store32 (s + k + 12) w (store32 (s + k + 8) w (store32 (s + k + 4) w (store32 (s + k) w (filled s d k m)))) =
        filled s d (k + 16) m"
      using fill_word [OF assms, of s k m] fill_word [OF assms, of s "k + 4" m]
        fill_word [OF assms, of s "k + 8" m] fill_word [OF assms, of s "k + 12" m] by (simp add: add.assoc)
    obtain j where "j \<le> n - 16" "set_words4 w (s + (k + 16)) (n - 16) (filled s d (k + 16) m) =
        (s + (k + 16 + j), n - 16 - j, filled s d (k + 16 + j) m)" using less [of "n - 16" "k + 16"] True by auto
    then show ?thesis using True by (intro exI [of _ "16 + j"]) (subst set_words4.simps, simp add: st [unfolded add.assoc] add.assoc)
  qed (auto simp: set_words4.simps [of w _ n])
qed

lemma set_words_filled:
  assumes "le32 w = [d, d, d, d]"
  shows "\<exists>j\<le>n. set_words w (s + k) n (filled s d k m) = (s + (k + j), n - j, filled s d (k + j) m)"
proof (induction n arbitrary: k rule: less_induct)
  case (less n)
  show ?case
  proof (cases "4 \<le> n")
    case True
    obtain j where "j \<le> n - 4" "set_words w (s + (k + 4)) (n - 4) (filled s d (k + 4) m) =
        (s + (k + 4 + j), n - 4 - j, filled s d (k + 4 + j) m)" using less [of "n - 4" "k + 4"] True by auto
    then show ?thesis using True fill_word [OF assms, of s k m]
      by (intro exI [of _ "4 + j"]) (subst set_words.simps, simp add: add.assoc)
  qed (auto simp: set_words.simps [of w _ n])
qed

lemma set_buffer_bytes: "le32 (set_buffer (c AND 0xff)) = [ucast c, ucast c, ucast c, ucast c]"
proof -
  have m: "(0xff :: u32) = mask 8" by (simp add: mask_eq_exp_minus_1)
  show ?thesis
    unfolding le32_def list.inject set_buffer_def Let_def m
    by (intro conjI refl; rule bit_word_eqI; auto simp: bit_simps)
qed

subsection \<open>Copying\<close>

text \<open>Copying upwards is right unless the destination starts inside the source.\<close>

definition copy_ok :: "nat \<Rightarrow> nat \<Rightarrow> nat \<Rightarrow> bool" where
  "copy_ok dst src n \<longleftrightarrow> dst \<le> src \<or> src + n \<le> dst"

lemma copied_0 [simp]: "copied dst src 0 m = m"
  by (auto simp: copied_def fun_eq_iff)

lemma copy_byte_step:
  "copy_ok dst src n \<Longrightarrow> k < n \<Longrightarrow>
   (copied dst src k m)(dst + k := copied dst src k m (src + k)) = copied dst src (Suc k) m"
  by (auto simp: copied_def copy_ok_def fun_eq_iff less_Suc_eq)

lemma copy_word_step:
  assumes "copy_ok dst src n" "k + 4 \<le> n"
  shows "copy_word (dst + k) (src + k) (copied dst src k m) = copied dst src (k + 4) m"
proof -
  have src: "copied dst src k m (src + k + j) = m (src + k + j)" if "j < 4" for j
    using assms that by (auto simp: copied_def copy_ok_def)
  have "copied dst src (k + 4) m = (copied dst src k m)(dst + k := m (src + k), dst + k + 1 := m (src + k + 1),
      dst + k + 2 := m (src + k + 2), dst + k + 3 := m (src + k + 3))"
    by (auto simp: copied_def fun_eq_iff add.assoc)
  then show ?thesis using src [of 0] src [of 1] src [of 2] src [of 3] by (simp add: copy_word_eq)
qed

lemma copy_bytes_copied:
  "copy_ok dst src N \<Longrightarrow> k + n \<le> N \<Longrightarrow> copy_bytes (dst + k) (src + k) n (copied dst src k m) = copied dst src (k + n) m"
proof (induction n arbitrary: k)
  case (Suc n)
  have "copy_bytes (dst + Suc k) (src + Suc k) n (copied dst src (Suc k) m) = copied dst src (Suc k + n) m"
    by (rule Suc.IH) (use Suc.prems in simp_all)
  then show ?case using copy_byte_step [OF Suc.prems(1), of k m] Suc.prems(2) by simp
qed simp

lemma copy_words4_copied:
  assumes "copy_ok dst src N"
  shows "k + n \<le> N \<Longrightarrow> \<exists>j\<le>n. copy_words4 (dst + k) (src + k) n (copied dst src k m) =
    (dst + (k + j), src + (k + j), n - j, copied dst src (k + j) m)"
proof (induction n arbitrary: k rule: less_induct)
  case (less n)
  show ?case
  proof (cases "16 \<le> n")
    case True
    note step = copy_word_step [OF assms]
    have st: "copy_word (dst + k + 12) (src + k + 12) (copy_word (dst + k + 8) (src + k + 8)
        (copy_word (dst + k + 4) (src + k + 4) (copy_word (dst + k) (src + k) (copied dst src k m)))) = copied dst src (k + 16) m"
      using step [of k m] step [of "k + 4" m] step [of "k + 8" m] step [of "k + 12" m] True less.prems by (simp add: add.assoc)
    obtain j where "j \<le> n - 16" "copy_words4 (dst + (k + 16)) (src + (k + 16)) (n - 16) (copied dst src (k + 16) m) =
        (dst + (k + 16 + j), src + (k + 16 + j), n - 16 - j, copied dst src (k + 16 + j) m)"
      using less.IH [of "n - 16" "k + 16"] True less.prems by auto
    then show ?thesis using True by (intro exI [of _ "16 + j"]) (subst copy_words4.simps, simp add: st [unfolded add.assoc] add.assoc)
  qed (auto simp: copy_words4.simps [of _ _ n])
qed

lemma copy_words_copied:
  assumes "copy_ok dst src N"
  shows "k + n \<le> N \<Longrightarrow> \<exists>j\<le>n. copy_words (dst + k) (src + k) n (copied dst src k m) =
    (dst + (k + j), src + (k + j), n - j, copied dst src (k + j) m)"
proof (induction n arbitrary: k rule: less_induct)
  case (less n)
  show ?case
  proof (cases "4 \<le> n")
    case True
    obtain j where "j \<le> n - 4" "copy_words (dst + (k + 4)) (src + (k + 4)) (n - 4) (copied dst src (k + 4) m) =
        (dst + (k + 4 + j), src + (k + 4 + j), n - 4 - j, copied dst src (k + 4 + j) m)"
      using less.IH [of "n - 4" "k + 4"] True less.prems by auto
    then show ?thesis using True copy_word_step [OF assms, of k m] less.prems
      by (intro exI [of _ "4 + j"]) (subst copy_words.simps, simp add: add.assoc)
  qed (auto simp: copy_words.simps [of _ _ n])
qed

lemma copy_back_copied:
  assumes "src < dst" "i + n = N"
  shows "copy_back (dst + n) (src + n) n (copied (dst + n) (src + n) i m) = copied dst src N m"
  using assms(2)
proof (induction n arbitrary: i)
  case (Suc n)
  have "(copied (dst + Suc n) (src + Suc n) i m)(dst + n := copied (dst + Suc n) (src + Suc n) i m (src + n)) =
      copied (dst + n) (src + n) (Suc i) m"
  proof
    fix x
    have "src + Suc n + (x - (dst + Suc n)) = src + n + (x - (dst + n))" if "dst + Suc n \<le> x" using that by linarith
    then show "((copied (dst + Suc n) (src + Suc n) i m)(dst + n := copied (dst + Suc n) (src + Suc n) i m (src + n))) x =
        copied (dst + n) (src + n) (Suc i) m x"
      using assms(1) by (cases "x = dst + n"; cases "dst + Suc n \<le> x") (simp_all add: copied_def)
  qed
  with Suc.IH [of "Suc i"] Suc.prems show ?case by simp
qed simp

subsection \<open>Strings\<close>

text \<open>The string \<open>xs\<close> is at \<open>p\<close>.\<close>

fun cstr :: "mem \<Rightarrow> nat \<Rightarrow> u8 list \<Rightarrow> bool" where
  "cstr m p [] = (m p = 0)"
| "cstr m p (x # xs) = (m p = x \<and> x \<noteq> 0 \<and> cstr m (p + 1) xs)"

lemma strlen_from_cstr: "cstr m (s + i) xs \<Longrightarrow> strlen_from s i m = Some (i + length xs)"
proof (induction xs arbitrary: i)
  case (Cons x xs)
  from Cons.IH [of "i + 1"] Cons.prems show ?case by (subst strlen_from.simps) (simp add: add.assoc)
qed (simp add: strlen_from.simps)

lemma rt_strlen_cstr: "cstr m s xs \<Longrightarrow> rt_strlen s m = Some (length xs)"
  using strlen_from_cstr [of m s 0 xs] by (simp add: rt_strlen_def)

lemma rt_strnlen_cstr: "cstr m s xs \<Longrightarrow> rt_strnlen s n m = min n (length xs)"
  by (induction s n m arbitrary: xs rule: rt_strnlen.induct) (auto elim: cstr.elims)

lemma rt_strcmp_cstr: "cstr m p xs \<Longrightarrow> cstr m q ys \<Longrightarrow> \<exists>r. rt_strcmp p q m = Some r \<and> (r = 0 \<longleftrightarrow> xs = ys)"
proof (induction xs arbitrary: p q ys)
  case Nil
  then show ?case by (cases ys) (auto simp: rt_strcmp.simps [of p] unsigned_eq_0_iff)
next
  case (Cons x xs)
  show ?case
  proof (cases ys)
    case Nil
    with Cons.prems show ?thesis by (auto simp: rt_strcmp.simps [of p] unsigned_eq_0_iff)
  next
    case (Cons y zs)
    with Cons.IH [of "p + 1" "q + 1" zs] Cons.prems show ?thesis
      by (cases "x = y") (auto simp: rt_strcmp.simps [of p] word_uint_eq_iff [symmetric])
  qed
qed

lemma rt_strncmp_cstr:
  "cstr m p xs \<Longrightarrow> cstr m q ys \<Longrightarrow> rt_strncmp p q n m = 0 \<longleftrightarrow> take n xs = take n ys"
proof (induction p q n m arbitrary: xs ys rule: rt_strncmp.induct)
  case (2 cs ct n m)
  then show ?case by (cases xs; cases ys) (auto simp: Let_def signed_eq_0_iff)
qed simp

lemma rt_memcmp_zero: "rt_memcmp cs ct n m = 0 \<longleftrightarrow> (\<forall>i<n. m (cs + i) = m (ct + i))"
proof (induction cs ct n m rule: rt_memcmp.induct)
  case (2 cs ct n m)
  then show ?case by (auto simp: Let_def word_uint_eq_iff [symmetric] All_less_Suc2)
qed simp

definition occurs_at :: "nat \<Rightarrow> nat \<Rightarrow> nat \<Rightarrow> mem \<Rightarrow> bool" where
  "occurs_at p s2 l2 m \<longleftrightarrow> (\<forall>i<l2. m (p + i) = m (s2 + i))"

lemma strstr_loop_first:
  assumes "0 < l2"
  shows "case strstr_loop s1 s2 l1 l2 m of
    None \<Rightarrow> \<forall>k. k + l2 \<le> l1 \<longrightarrow> \<not> occurs_at (s1 + k) s2 l2 m
  | Some p \<Rightarrow> \<exists>k. p = s1 + k \<and> k + l2 \<le> l1 \<and> occurs_at p s2 l2 m \<and> (\<forall>j<k. \<not> occurs_at (s1 + j) s2 l2 m)"
proof (induction l1 arbitrary: s1)
  case 0
  then show ?case using assms by simp
next
  case (Suc l1)
  show ?case
  proof (cases "l2 \<le> Suc l1 \<and> \<not> occurs_at s1 s2 l2 m")
    case True
    then have st: "strstr_loop s1 s2 (Suc l1) l2 m = strstr_loop (s1 + 1) s2 l1 l2 m"
      by (auto simp: rt_memcmp_zero occurs_at_def)
    have z: "\<not> occurs_at (s1 + 0) s2 l2 m" using True by simp
    show ?thesis
    proof (cases "strstr_loop (s1 + 1) s2 l1 l2 m")
      case None
      then have "\<not> occurs_at (s1 + k) s2 l2 m" if "k + l2 \<le> Suc l1" for k
        using z Suc.IH [of "s1 + 1"] that by (cases k) auto
      then show ?thesis unfolding st None by simp
    next
      case (Some p)
      with Suc.IH [of "s1 + 1"] obtain k where k: "p = s1 + Suc k" "k + l2 \<le> l1" "occurs_at p s2 l2 m"
        "\<forall>j<k. \<not> occurs_at (s1 + Suc j) s2 l2 m" by auto
      then have "\<not> occurs_at (s1 + j) s2 l2 m" if "j < Suc k" for j using z that by (cases j) auto
      then show ?thesis using k unfolding st Some by (auto intro!: exI [of _ "Suc k"])
    qed
  qed (auto simp: rt_memcmp_zero occurs_at_def)
qed

text \<open>\<open>rt_strstr\<close> finds the first occurrence of a string in another.\<close>

lemma rt_strstr_first:
  assumes "cstr m s1 xs" "cstr m s2 ys" "ys \<noteq> []"
  shows "\<exists>r. rt_strstr s1 s2 m = Some r \<and> (case r of
    None \<Rightarrow> \<forall>k. k + length ys \<le> length xs \<longrightarrow> \<not> occurs_at (s1 + k) s2 (length ys) m
  | Some p \<Rightarrow> \<exists>k. p = s1 + k \<and> k + length ys \<le> length xs \<and> occurs_at p s2 (length ys) m \<and>
                 (\<forall>j<k. \<not> occurs_at (s1 + j) s2 (length ys) m))"
  using strstr_loop_first [of "length ys" "length xs" s1 s2 m] assms
  by (simp add: rt_strstr_def rt_strlen_cstr)

lemma to_lower_0 [simp]: "to_lower 0 = 0" "to_lower c = 0 \<longleftrightarrow> c = 0" "0 = to_lower c \<longleftrightarrow> c = 0"
  by (auto simp: to_lower_def Let_def unsigned_eq_0_iff)

lemma rt_strcasecmp_cstr:
  "cstr m p xs \<Longrightarrow> cstr m q ys \<Longrightarrow> \<exists>r. rt_strcasecmp p q m = Some r \<and> (r = 0 \<longleftrightarrow> map to_lower xs = map to_lower ys)"
proof (induction xs arbitrary: p q ys)
  case Nil
  then show ?case by (cases ys) (auto simp: rt_strcasecmp.simps [of p])
next
  case (Cons x xs)
  show ?case
  proof (cases ys)
    case Nil
    with Cons.prems show ?thesis by (auto simp: rt_strcasecmp.simps [of p])
  next
    case (Cons y zs)
    with Cons.IH [of "p + 1" "q + 1" zs] Cons.prems show ?thesis
      by (cases "to_lower x = to_lower y") (auto simp: rt_strcasecmp.simps [of p])
  qed
qed

lemma cstr_upd: "d < p \<or> p + length xs < d \<Longrightarrow> cstr (m(d := v)) p xs = cstr m p xs"
  by (induction xs arbitrary: p) auto

lemma rt_strncpy_cstr:
  assumes "cstr m src xs" "src + length xs < dst \<or> dst + n \<le> src"
  shows "rt_strncpy dst src n m = (\<lambda>x. if dst \<le> x \<and> x < dst + n
    then (if x - dst < length xs then xs ! (x - dst) else 0) else m x)"
  using assms
proof (induction n arbitrary: dst src m xs)
  case (Suc n)
  show ?case
  proof (cases xs)
    case Nil
    have "m(dst := 0) = filled dst 0 1 m" using fill_byte [of dst 0 0 m] by simp
    then show ?thesis using Nil Suc.prems(1) set_bytes_filled [of 0 dst 1 n m] by (simp add: filled_def cong: if_cong)
  next
    case (Cons y ys)
    have c: "cstr (m(dst := y)) (src + 1) ys" using Cons Suc.prems cstr_upd [of dst "src + 1" ys m y] by auto
    have "rt_strncpy (dst + 1) (src + 1) n (m(dst := y)) = (\<lambda>x. if dst + 1 \<le> x \<and> x < dst + 1 + n
        then (if x - (dst + 1) < length ys then ys ! (x - (dst + 1)) else 0) else (m(dst := y)) x)"
      by (rule Suc.IH [OF c]) (use Cons Suc.prems(2) in auto)
    moreover have "x - dst = Suc (x - Suc dst)" if "Suc dst \<le> x" for x using that by simp
    ultimately show ?thesis using Cons Suc.prems(1) by (auto simp: fun_eq_iff nth_Cons')
  qed
qed (auto simp: fun_eq_iff)

text \<open>Only the sign of the result tells the order, and it is wrong for characters more than 127
  apart.\<close>

lemma rt_strncmp_order: "rt_strncmp 0 2 1 (\<lambda>x. if x = 0 then 0xC8 else if x = 2 then 0x41 else 0) < 0"
  by simp

subsection \<open>Properties\<close>

lemma rt_memset_fills: "rt_memset s c n m = filled s (ucast c) n m"
proof -
  let ?d = "ucast c :: u8" let ?w = "set_buffer (c AND 0xff)"
  have d: "ucast (c AND 0xff) = ?d"
  proof -
    have m: "(0xff :: u32) = mask 8" by (simp add: mask_eq_exp_minus_1)
    show ?thesis unfolding m by (rule bit_word_eqI) (auto simp: bit_simps)
  qed
  obtain j where j: "j \<le> n" "set_words4 ?w s n m = (s + j, n - j, filled s ?d j m)"
    using set_words4_filled [OF set_buffer_bytes [of c], of n s 0 m] by auto
  obtain i where "i \<le> n - j" "set_words ?w (s + j) (n - j) (filled s ?d j m) = (s + (j + i), n - j - i, filled s ?d (j + i) m)"
    using set_words_filled [OF set_buffer_bytes [of c], of "n - j" s j m] by auto
  then show ?thesis using j d set_bytes_filled [of ?d s "j + i" "n - j - i" m] set_bytes_filled [of ?d s 0 n m]
    by (simp add: rt_memset_def Let_def)
qed

lemma rt_memcpy_copied:
  assumes "copy_ok dst src n"
  shows "rt_memcpy dst src n m = copied dst src n m"
proof -
  obtain j where j: "j \<le> n" "copy_words4 dst src n m = (dst + j, src + j, n - j, copied dst src j m)"
    using copy_words4_copied [OF assms, of 0 n m] by auto
  obtain i where "i \<le> n - j" "copy_words (dst + j) (src + j) (n - j) (copied dst src j m) =
      (dst + (j + i), src + (j + i), n - j - i, copied dst src (j + i) m)"
    using copy_words_copied [OF assms, of j "n - j" m] j(1) by auto
  then show ?thesis using j copy_bytes_copied [OF assms, of "j + i" "n - j - i" m] copy_bytes_copied [OF assms, of 0 n m]
    by (simp add: rt_memcpy_def)
qed

lemma rt_memmove_copied: "rt_memmove dst src n m = copied dst src n m"
proof (cases "src < dst \<and> dst < src + n")
  case True
  then show ?thesis using copy_back_copied [of src dst 0 n n m] by (simp add: rt_memmove_def)
next
  case False
  then have "copy_ok dst src n" by (auto simp: copy_ok_def)
  then show ?thesis using False copy_bytes_copied [of dst src n 0 n m] by (auto simp: rt_memmove_def)
qed

text \<open>
  C18: the memory routines that work in words are equivalent to the byte loops they stand for:
  \<open>rt_memset\<close> fills, whatever size and alignment; \<open>rt_memcpy\<close> copies whenever the destination does
  not start inside the source; \<open>rt_memmove\<close> copies whatever the overlap. No byte outside the
  destination changes.
\<close>

theorem mem_routines_reference:
  "rt_memset dst c n m = (\<lambda>x. if dst \<le> x \<and> x < dst + n then ucast c else m x) \<and>
   rt_memmove dst src n m = (\<lambda>x. if dst \<le> x \<and> x < dst + n then m (src + (x - dst)) else m x) \<and>
   (dst \<le> src \<or> src + n \<le> dst \<longrightarrow>
     rt_memcpy dst src n m = (\<lambda>x. if dst \<le> x \<and> x < dst + n then m (src + (x - dst)) else m x))"
  using rt_memset_fills [of dst c n m] rt_memmove_copied [of dst src n m] rt_memcpy_copied [of dst src n m]
  by (simp add: filled_def copied_def copy_ok_def)

theorem mem_routines_reference_witness:
  "map (rt_memcpy 100 0 23 of_nat) [99..<124] = 99 # map of_nat [0..<23] @ [123]"
  using mem_routines_reference [of 100 0 23 of_nat 0] by (simp add: upt_rec)

end
