(* ===== verification/Hub_Heap.thy ===== *)
theory Hub_Heap
  imports Rt_Mem_Use Rt_Kservice Module_Protocol
begin

text \<open>
  The hub protocol on the system's allocator. The protocol is modelled with the allocator as a
  parameter (\<open>heap k n\<close>, the block of the \<open>k\<close>-th request) and the contract \<open>rt_heap\<close>; here the
  parameter is the model of \<^verbatim>\<open>rt-thread/src/mem.c\<close> and the contract is proved of it.
\<close>

text \<open>The copy in the model of \<open>rt_realloc\<close> is the kernel's \<open>rt_memcpy\<close>; old and new block never overlap.\<close>

lemma copy_data_memcpy:
  "copy_ok dst src n \<Longrightarrow> copy_data dst src n h = h\<lparr>heap_data := rt_memcpy dst src n (heap_data h)\<rparr>"
  by (simp add: copy_data_def rt_memcpy_copied copied_def)

text \<open>The bytes from \<open>p\<close> to the next header.\<close>

definition block_at :: "nat \<Rightarrow> heap_state \<Rightarrow> bytes" where
  "block_at p h = map (heap_data h) [p..<hm_next (heap_hdr h (p - SIZEOF_STRUCT_MEM))]"

definition mem_block :: "nat \<Rightarrow> heap_state \<Rightarrow> (bytes \<times> heap_state) option" where
  "mem_block n h = (case rt_malloc n h of Some (Some p, h') \<Rightarrow> Some (block_at p h', h') | _ \<Rightarrow> None)"

text \<open>\<open>analyzeMasterData\<close> requests \<open>n0\<close> bytes for the register values and then, holding these, the
  block of the reply. Its sizes come from one byte and are far below \<open>2 ^ 16\<close>.\<close>

definition mem_heap :: "heap_state \<Rightarrow> nat \<Rightarrow> nat \<Rightarrow> nat \<Rightarrow> bytes option" where
  "mem_heap h n0 k n =
     (if 2 ^ 16 \<le> n then None
      else if k = 0 then map_option fst (mem_block n h)
      else case mem_block n0 h of None \<Rightarrow> None | Some (_, h1) \<Rightarrow> map_option fst (mem_block n h1))"

lemma block_at_area:
  assumes "heap_repr h bs" "(p, m) \<in> areas 0 bs"
  shows "length (block_at p h) = m"
proof -
  obtain xs ys where xy: "bs = xs @ (m, True) # ys" "p = span xs + 12" using areas_split [OF assms(2)] by auto
  then have "heap_hdr h (span xs) = block_hdr (prev_of 0 0 xs) (span xs) m True"
    using assms(1) heap_tiledD(1) by (auto simp: heap_repr_def)
  then show ?thesis using xy(2) by (simp add: block_at_def block_hdr_def)
qed

lemma mem_block_size:
  assumes "heap_repr h bs" "n + 3 < 2 ^ 32" "mem_block n h = Some (b, h')"
  shows "0 < n \<and> max n 12 \<le> length b"
proof -
  have "0 < n" using assms(3) by (cases "n = 0") (auto simp: mem_block_def rt_malloc_def)
  then have ok: "request_ok n" using assms(2) by (simp add: request_ok_def)
  obtain p where p: "rt_malloc n h = Some (Some p, h')" "b = block_at p h'"
    using assms(3) by (auto simp: mem_block_def split: option.splits)
  obtain bs' m where "heap_repr h' bs'" "max n 12 \<le> m" "(p, m) \<in> areas 0 bs'"
    using rt_malloc_areas [OF assms(1) ok] p(1) by auto
  then show ?thesis using \<open>0 < n\<close> block_at_area [of h' bs' p m] p(2) by simp
qed

lemma mem_block_repr:
  assumes "heap_repr h bs" "mem_block n h = Some (b, h')"
  shows "\<exists>bs'. heap_repr h' bs'"
proof -
  have n: "0 < n" using assms(2) by (cases "n = 0") (auto simp: mem_block_def rt_malloc_def)
  obtain p where "rt_malloc n h = Some (Some p, h')" using assms(2) by (auto simp: mem_block_def split: option.splits)
  with rt_malloc_blocks [OF assms(1) n] show ?thesis by auto
qed

lemma rt_heap_mem: "heap_repr h bs \<Longrightarrow> rt_heap (mem_heap h n0)"
  unfolding rt_heap_def
proof (intro allI impI)
  fix k n b
  assume h: "heap_repr h bs" "mem_heap h n0 k n = Some b"
  then have n: "n + 3 < 2 ^ 32" by (auto simp: mem_heap_def split: if_splits)
  obtain h0 bs0 h' where "heap_repr h0 bs0" "mem_block n h0 = Some (b, h')"
  proof (cases "k = 0")
    case True
    then have "\<exists>h'. mem_block n h = Some (b, h')" using h(2) by (auto simp: mem_heap_def split: if_splits)
    with h(1) show thesis using that by blast
  next
    case False
    then obtain b1 h1 h2 where m: "mem_block n0 h = Some (b1, h1)" "mem_block n h1 = Some (b, h2)"
      using h(2) by (auto simp: mem_heap_def split: if_splits option.splits)
    with mem_block_repr [OF h(1) m(1)] show thesis using that by blast
  qed
  then show "0 < n \<and> max n 12 \<le> length b" using mem_block_size [OF _ n] by blast
qed

text \<open>
  C17: the allocator keeps the contract the hub protocol relies on: in whatever state the heap
  is, the blocks \<open>rt_malloc\<close> gives a request are large enough, so \<open>analyzeMasterData\<close> never stores
  outside a block, not even when the reply to a write is one byte longer than the
  request for its buffer. The reply is sent or, without memory, left out.
\<close>

theorem hub_request_on_heap:
  assumes "heap_repr h bs"
  shows "rt_heap (mem_heap h n0) \<and> (\<exists>r w'. analyzeMasterData (mem_heap h n0) dat sz w = Some (r, w'))"
  using rt_heap_mem [OF assms] analyzeMasterData_ok [of "mem_heap h n0" dat sz w] by blast

theorem hub_request_on_heap_witness:
  "rt_heap (mem_heap demo_heap 2) \<and>
   (\<exists>r w'. analyzeMasterData (mem_heap demo_heap 2) [1, 6, 1, 0, 0, 5, 0, 0] 8
     (reset_world (\<lambda>_. 0) (0, 0, 0) (\<lambda>_ _. 0) (\<lambda>_. 0)) = Some (r, w'))"
  using hub_request_on_heap [OF demo_heap_ok(1)] by blast

end
