(* ===== verification/Rt_Serial.thy ===== *)
theory Rt_Serial
  imports Uart_Props
begin

text \<open>
  Reception below the UART callbacks: the software FIFO of the serial framework
  (\<^verbatim>\<open>rt-thread/components/drivers/serial/serial.c\<close>) and the idle-line interrupt of the
  STM32 driver (\<^verbatim>\<open>drivers/drv_usart.c\<close>). Both serial lines receive by DMA into a buffer of
  \<open>RT_SERIAL_RB_BUFSZ\<close> bytes; the interrupts at the half and the end of the buffer are disabled
  in this firmware, so only a pause on the line makes the driver look at the DMA counter.

  The DMA controller runs in circular mode: it stores each byte at its position, advances
  and starts over at the end, and its counter counts the bytes left to the end. A failed
  \<open>RT_ASSERT\<close> is \<open>None\<close>. The indices keep the widths of the source, with the conversions
  between \<open>rt_uint16_t\<close>, \<open>rt_size_t\<close> and \<open>int\<close> written out.
\<close>

section \<open>State\<close>

definition RT_SERIAL_RB_BUFSZ :: u32 where "RT_SERIAL_RB_BUFSZ = 256"
definition RT_SERIAL_EVENT_RX_DMADONE :: u32 where "RT_SERIAL_EVENT_RX_DMADONE = 0x03"

record rt_serial_rx_fifo =
  fifo_buffer :: bytes
  put_index :: u16
  get_index :: u16
  is_full :: bool

record stm32_uart_rx =
  serial_rx :: rt_serial_rx_fifo
  last_index :: u32
  dma_pos :: nat

abbreviation bufsz :: u32 where "bufsz \<equiv> RT_SERIAL_RB_BUFSZ"

text \<open>The receive part of \<open>rt_serial_open\<close>: an empty FIFO, and the DMA started on its buffer.\<close>

definition rt_serial_open_rx :: stm32_uart_rx where
  "rt_serial_open_rx = \<lparr>serial_rx = \<lparr>fifo_buffer = replicate (unat bufsz) 0, put_index = 0, get_index = 0, is_full = False\<rparr>,
     last_index = 0, dma_pos = 0\<rparr>"

text \<open>The DMA controller.\<close>

definition dma_byte :: "u8 \<Rightarrow> stm32_uart_rx \<Rightarrow> stm32_uart_rx" where
  "dma_byte b s = s\<lparr>serial_rx := (serial_rx s)\<lparr>fifo_buffer := (fifo_buffer (serial_rx s))[dma_pos s := b]\<rparr>,
     dma_pos := (dma_pos s + 1) mod unat bufsz\<rparr>"

definition HAL_DMA_GET_COUNTER :: "stm32_uart_rx \<Rightarrow> u32" where
  "HAL_DMA_GET_COUNTER s = bufsz - of_nat (dma_pos s)"

section \<open>The software FIFO\<close>

definition serial_fifo_calc_recved_len :: "rt_serial_rx_fifo \<Rightarrow> u32" where
  "serial_fifo_calc_recved_len f =
     (if put_index f = get_index f then (if is_full f then bufsz else 0)
      else if put_index f > get_index f then ucast (put_index f) - ucast (get_index f)
      else bufsz - (ucast (get_index f) - ucast (put_index f)))"

definition rt_dma_calc_recved_len :: "rt_serial_rx_fifo \<Rightarrow> u32" where
  "rt_dma_calc_recved_len f = serial_fifo_calc_recved_len f"

definition rt_dma_recv_update_get_index :: "u32 \<Rightarrow> rt_serial_rx_fifo \<Rightarrow> rt_serial_rx_fifo option" where
  "rt_dma_recv_update_get_index len f =
     (if len > rt_dma_calc_recved_len f then None
      else let f = (if is_full f \<and> len \<noteq> 0 then f\<lparr>is_full := False\<rparr> else f);
               g = ucast (ucast (get_index f) + len)
           in Some (f\<lparr>get_index := (if ucast g \<ge> bufsz then ucast (ucast g mod bufsz) else g)\<rparr>))"

definition rt_dma_recv_update_put_index :: "u32 \<Rightarrow> rt_serial_rx_fifo \<Rightarrow> rt_serial_rx_fifo" where
  "rt_dma_recv_update_put_index len f =
     (let p = ucast (ucast (put_index f) + len) :: u16;
          f = (if get_index f \<le> put_index f then
                 if ucast p \<ge> bufsz then
                   let p = ucast (ucast p mod bufsz)
                   in f\<lparr>put_index := p, is_full := is_full f \<or> p \<ge> get_index f\<rparr>
                 else f\<lparr>put_index := p\<rparr>
               else if p \<ge> get_index f then
                 f\<lparr>put_index := (if ucast p \<ge> bufsz then ucast (ucast p mod bufsz) else p), is_full := True\<rparr>
               else f\<lparr>put_index := p\<rparr>)
      in if is_full f then f\<lparr>get_index := put_index f\<rparr> else f)"

text \<open>\<open>_serial_dma_rx\<close> with a buffer: the bytes copied to the caller. The second \<open>rt_memcpy\<close>
  continues at the start of the buffer.\<close>

definition serial_dma_rx :: "u32 \<Rightarrow> rt_serial_rx_fifo \<Rightarrow> (bytes \<times> rt_serial_rx_fifo) option" where
  "serial_dma_rx len f =
     (let fifo_recved_len = rt_dma_calc_recved_len f;
          recv_len = (if sint len < sint fifo_recved_len then len else fifo_recved_len);
          g = ucast (get_index f) :: u32;
          dat = (if g + recv_len < bufsz then take (unat recv_len) (drop (unat g) (fifo_buffer f))
                 else take (unat (bufsz - g)) (drop (unat g) (fifo_buffer f)) @
                      take (unat (recv_len + g - bufsz)) (fifo_buffer f))
      in do { f \<leftarrow> rt_dma_recv_update_get_index recv_len f; Some (dat, f) })"

definition rt_serial_read :: "u32 \<Rightarrow> stm32_uart_rx \<Rightarrow> (bytes \<times> stm32_uart_rx) option" where
  "rt_serial_read len s =
     (if len = 0 then Some ([], s)
      else map_option (\<lambda>(d, f). (d, s\<lparr>serial_rx := f\<rparr>)) (serial_dma_rx len (serial_rx s)))"

section \<open>Interrupts\<close>

text \<open>\<open>RT_SERIAL_EVENT_RX_DMADONE\<close>: the length travels in the upper 24 bits of the event, an \<open>int\<close>,
  and is shifted out again with its sign. The result is the length given to the callback.\<close>

definition rt_hw_serial_isr_dmadone :: "u32 \<Rightarrow> stm32_uart_rx \<Rightarrow> u32 \<times> stm32_uart_rx" where
  "rt_hw_serial_isr_dmadone ev s =
     (let len = signed_drop_bit 8 (ev AND NOT 0xff);
          f = rt_dma_recv_update_put_index len (serial_rx s)
      in (rt_dma_calc_recved_len f, s\<lparr>serial_rx := f\<rparr>))"

text \<open>The idle-line branch of \<open>uart_isr\<close>; \<open>None\<close> in the first component when the callback is
  not called.\<close>

definition uart_isr_idle :: "stm32_uart_rx \<Rightarrow> u32 option \<times> stm32_uart_rx" where
  "uart_isr_idle s =
     (let recv_total_index = bufsz - HAL_DMA_GET_COUNTER s;
          recv_len = recv_total_index - last_index s;
          s = s\<lparr>last_index := recv_total_index\<rparr>
      in if recv_len \<noteq> 0 then
           let (len, s) = rt_hw_serial_isr_dmadone (RT_SERIAL_EVENT_RX_DMADONE OR push_bit 8 recv_len) s
           in (Some len, s)
         else (None, s))"

text \<open>A burst on a line and the pause after it: the DMA stores the bytes, the interrupt calls
  the callback \<open>rx_indicate\<close>, which reads what it is told is there.\<close>

definition uart_burst ::
  "(nat \<Rightarrow> bytes \<Rightarrow> world \<Rightarrow> world option) \<Rightarrow> bytes \<Rightarrow> stm32_uart_rx \<times> world \<Rightarrow> (stm32_uart_rx \<times> world) option" where
  "uart_burst rx_indicate bs = (\<lambda>(s, w).
     case uart_isr_idle (fold dma_byte bs s) of
       (None, s) \<Rightarrow> Some (s, w)
     | (Some len, s) \<Rightarrow> do {
         (d, s) \<leftarrow> rt_serial_read len s;
         w \<leftarrow> rx_indicate (unat len) d w;
         Some (s, w)
       })"

fun uart1_bursts :: "bytes list \<Rightarrow> stm32_uart_rx \<times> world \<Rightarrow> (stm32_uart_rx \<times> world) option" where
  "uart1_bursts [] sw = Some sw"
| "uart1_bursts (bs # bss) sw = do { sw \<leftarrow> uart_burst Uart1_input bs sw; uart1_bursts bss sw }"

section \<open>Between bursts\<close>

text \<open>At rest everything received has been read: the indices are where the DMA is.\<close>

definition rx_idle :: "stm32_uart_rx \<Rightarrow> bool" where
  "rx_idle s \<longleftrightarrow> (let f = serial_rx s; p = dma_pos s in p < 256 \<and> length (fifo_buffer f) = 256 \<and>
     put_index f = of_nat p \<and> get_index f = of_nat p \<and> \<not> is_full f \<and> last_index s = of_nat p)"

lemma bufsz_nat [simp]: "unat bufsz = 256"
  by (simp add: RT_SERIAL_RB_BUFSZ_def)

lemma rx_idle_open: "rx_idle rt_serial_open_rx"
  by (simp add: rx_idle_def rt_serial_open_rx_def)

text \<open>A length between -255 and 255 survives the trip through the event.\<close>

lemma bit_small_int: "- (2 ^ 23) \<le> k \<Longrightarrow> k < 2 ^ 23 \<Longrightarrow> 23 \<le> i \<Longrightarrow> bit k i = bit k 23" for k :: int
proof -
  assume "- (2 ^ 23) \<le> k" "k < 2 ^ 23" "23 \<le> i"
  then have "signed_take_bit 23 k = k" "min 23 i = 23" by (simp_all add: signed_take_bit_int_eq_self_iff)
  then show ?thesis by (metis bit_signed_take_bit_iff possible_bit_int)
qed

lemma event_length:
  fixes k :: int
  assumes "- (2 ^ 23) \<le> k" "k < 2 ^ 23"
  shows "signed_drop_bit 8 ((RT_SERIAL_EVENT_RX_DMADONE OR push_bit 8 (word_of_int k)) AND NOT 0xff) = (word_of_int k :: u32)"
proof (rule bit_word_eqI)
  fix i :: nat assume i: "i < LENGTH(32)"
  have lo: "bit (0xff :: int) j = (j < 8)" "bit (3 :: int) j = (j < 2)" for j
  proof -
    have "(0xff :: int) = mask 8" "(3 :: int) = mask 2" by (simp_all add: mask_eq_exp_minus_1)
    then show "bit (0xff :: int) j = (j < 8)" "bit (3 :: int) j = (j < 2)" by (simp_all only: bit_mask_iff) auto
  qed
  show "bit (signed_drop_bit 8 ((RT_SERIAL_EVENT_RX_DMADONE OR push_bit 8 (word_of_int k)) AND NOT 0xff)) i = bit (word_of_int k :: u32) i"
  proof (cases "i < 24")
    case True
    then show ?thesis using i by (auto simp: bit_simps lo RT_SERIAL_EVENT_RX_DMADONE_def)
  next
    case False
    then show ?thesis using i bit_small_int [OF assms, of i] by (auto simp: bit_simps lo RT_SERIAL_EVENT_RX_DMADONE_def)
  qed
qed

lemma dma_byte_sel:
  "dma_pos (dma_byte b s) = (dma_pos s + 1) mod 256" "last_index (dma_byte b s) = last_index s"
  "put_index (serial_rx (dma_byte b s)) = put_index (serial_rx s)" "get_index (serial_rx (dma_byte b s)) = get_index (serial_rx s)"
  "is_full (serial_rx (dma_byte b s)) = is_full (serial_rx s)"
  "fifo_buffer (serial_rx (dma_byte b s)) = (fifo_buffer (serial_rx s))[dma_pos s := b]"
  by (simp_all add: dma_byte_def)

lemma dma_bytes:
  fixes s :: stm32_uart_rx and bs :: bytes
  assumes "length (fifo_buffer (serial_rx s)) = 256" "dma_pos s < 256"
  defines "s' \<equiv> fold dma_byte bs s"
  shows "dma_pos s' = (dma_pos s + length bs) mod 256 \<and> length (fifo_buffer (serial_rx s')) = 256 \<and> last_index s' = last_index s \<and>
    put_index (serial_rx s') = put_index (serial_rx s) \<and> get_index (serial_rx s') = get_index (serial_rx s) \<and>
    is_full (serial_rx s') = is_full (serial_rx s) \<and>
    (\<forall>j<length bs. length bs \<le> j + 256 \<longrightarrow> fifo_buffer (serial_rx s') ! ((dma_pos s + j) mod 256) = bs ! j)"
  unfolding s'_def
proof (induction bs rule: rev_induct)
  case Nil
  then show ?case using assms(1,2) by simp
next
  case (snoc b bs)
  let ?t = "fold dma_byte bs s"
  have pos: "dma_pos ?t = (dma_pos s + length bs) mod 256" using snoc by blast
  have other: "(dma_pos s + j) mod 256 \<noteq> (dma_pos s + length bs) mod 256"
    if "j < length bs" "length bs < j + 256" for j
  proof
    assume eq: "(dma_pos s + j) mod 256 = (dma_pos s + length bs) mod 256"
    have "256 dvd (dma_pos s + length bs) - (dma_pos s + j)" using mod_eq_dvd_iff_nat eq that(1) by (metis add_le_cancel_left less_imp_le)
    then show False using that by (auto dest!: dvd_imp_le)
  qed
  have "fifo_buffer (serial_rx (dma_byte b ?t)) ! ((dma_pos s + j) mod 256) = (bs @ [b]) ! j"
    if "j < Suc (length bs)" "Suc (length bs) \<le> j + 256" for j
  proof (cases "j = length bs")
    case True
    then show ?thesis using snoc pos by (simp add: dma_byte_sel)
  next
    case False
    with that have j: "j < length bs" "length bs < j + 256" by auto
    then show ?thesis using snoc other [OF j] pos by (simp add: dma_byte_sel nth_append)
  qed
  then show ?case using snoc by (simp add: dma_byte_sel mod_Suc_eq)
qed

text \<open>The values of small indices.\<close>

lemma small_index: "p < 65536 \<Longrightarrow> unat (of_nat p :: u16) = p" "p < 65536 \<Longrightarrow> unat (of_nat p :: u32) = p"
  by (simp_all add: unat_of_nat)

lemma index_cast: "p < 65536 \<Longrightarrow> ucast (of_nat p :: u16) = (of_nat p :: u32)"
  "p < 65536 \<Longrightarrow> ucast (of_nat p :: u32) = (of_nat p :: u16)"
  by (simp_all add: unsigned_of_nat take_bit_nat_eq_self)

lemma index_le: "p < 256 \<Longrightarrow> q < 256 \<Longrightarrow> (of_nat p :: u16) \<le> of_nat q \<longleftrightarrow> p \<le> q"
  "p < 256 \<Longrightarrow> q < 256 \<Longrightarrow> (of_nat p :: u16) < of_nat q \<longleftrightarrow> p < q"
  "p < 256 \<Longrightarrow> \<not> bufsz \<le> (of_nat p :: u32)"
  by (simp_all add: word_le_nat_alt word_less_nat_alt small_index)

lemma index_eq: "p < 256 \<Longrightarrow> q < 256 \<Longrightarrow> (of_nat p :: u16) = of_nat q \<longleftrightarrow> p = q"
  "p < 256 \<Longrightarrow> q < 256 \<Longrightarrow> (of_nat p :: u32) = of_nat q \<longleftrightarrow> p = q"
proof -
  assume "p < 256" "q < 256"
  then have u: "unat (of_nat p :: u16) = p" "unat (of_nat q :: u16) = q" "unat (of_nat p :: u32) = p" "unat (of_nat q :: u32) = q"
    by (simp_all add: small_index)
  show "(of_nat p :: u16) = of_nat q \<longleftrightarrow> p = q" by (subst word_unat_eq_iff) (simp only: u)
  show "(of_nat p :: u32) = of_nat q \<longleftrightarrow> p = q" by (subst word_unat_eq_iff) (simp only: u)
qed

text \<open>The distance from \<open>p\<close> to \<open>q\<close> around the buffer.\<close>

definition around :: "nat \<Rightarrow> nat \<Rightarrow> nat" where
  "around p q = (if p \<le> q then q - p else 256 - (p - q))"

lemma around_mod: "p < 256 \<Longrightarrow> around p ((p + n) mod 256) = n mod 256"
proof -
  assume p: "p < 256"
  define r where "r = n mod 256"
  have "(p + n) mod 256 = (p + r) mod 256" "r < 256" by (simp_all add: r_def mod_add_right_eq)
  then have "(p + n) mod 256 = (if p + r < 256 then p + r else p + r - 256)" using p by (simp add: mod_if)
  then show ?thesis using p \<open>r < 256\<close> unfolding around_def r_def [symmetric] by auto
qed

lemma calc_len:
  assumes "p < 256" "q < 256" "p \<noteq> q" "get_index f = of_nat p" "put_index f = of_nat q"
  shows "rt_dma_calc_recved_len f = of_nat (around p q)"
  using assms
  by (auto simp: index_eq rt_dma_calc_recved_len_def serial_fifo_calc_recved_len_def around_def index_le index_cast RT_SERIAL_RB_BUFSZ_def of_nat_diff)

lemma update_put:
  assumes "p < 256" "q < 256" "get_index f = of_nat p" "put_index f = of_nat p" "\<not> is_full f"
  shows "rt_dma_recv_update_put_index (of_nat q - of_nat p) f = f\<lparr>put_index := of_nat q\<rparr>"
  using assms by (simp add: rt_dma_recv_update_put_index_def Let_def index_cast index_le)

lemma isr_idle:
  assumes "length (fifo_buffer (serial_rx s)) = 256" "p < 256" "q < 256" "dma_pos s = q" "last_index s = of_nat p"
    "get_index (serial_rx s) = of_nat p" "put_index (serial_rx s) = of_nat p" "\<not> is_full (serial_rx s)"
  shows "uart_isr_idle s = (if p = q then (None, s)
    else (Some (of_nat (around p q)), s\<lparr>last_index := of_nat q, serial_rx := (serial_rx s)\<lparr>put_index := of_nat q\<rparr>\<rparr>))"
proof (cases "p = q")
  case True
  then show ?thesis using assms by (simp add: uart_isr_idle_def HAL_DMA_GET_COUNTER_def Let_def)
next
  case False
  have len: "(of_nat q - of_nat p :: u32) = word_of_int (int q - int p)" by (simp add: word_of_int_eq_iff)
  have "signed_drop_bit 8 ((RT_SERIAL_EVENT_RX_DMADONE OR push_bit 8 (of_nat q - of_nat p)) AND NOT 0xff) = (of_nat q - of_nat p :: u32)"
    unfolding len using assms(2,3) by (intro event_length) auto
  moreover have "(of_nat q - of_nat p :: u32) \<noteq> 0" using False assms(2,3) index_eq(2) [of q p] by auto
  ultimately show ?thesis using False assms calc_len [of p q]
    by (simp add: uart_isr_idle_def HAL_DMA_GET_COUNTER_def Let_def rt_hw_serial_isr_dmadone_def update_put)
qed

lemma around_bounds: "p < 256 \<Longrightarrow> q < 256 \<Longrightarrow> p \<noteq> q \<Longrightarrow> 0 < around p q \<and> around p q < 256"
  by (auto simp: around_def)

lemma around_end: "p < 256 \<Longrightarrow> q < 256 \<Longrightarrow> p + around p q = (if p \<le> q then q else q + 256)"
  by (auto simp: around_def)

text \<open>The bytes from \<open>p\<close> on, around the end of the buffer.\<close>

definition ring :: "bytes \<Rightarrow> nat \<Rightarrow> nat \<Rightarrow> bytes" where
  "ring b p r = map (\<lambda>i. b ! ((p + i) mod 256)) [0..<r]"

lemma ring_straight: "length b = 256 \<Longrightarrow> p + r \<le> 256 \<Longrightarrow> take r (drop p b) = ring b p r"
  by (rule nth_equalityI) (auto simp: ring_def)

lemma ring_wrapped:
  "length b = 256 \<Longrightarrow> p \<le> 256 \<Longrightarrow> 256 \<le> p + r \<Longrightarrow> r \<le> 256 \<Longrightarrow>
   take (256 - p) (drop p b) @ take (p + r - 256) b = ring b p r"
proof (rule nth_equalityI, goal_cases)
  case (2 i)
  then show ?case by (cases "i < 256 - p") (auto simp: ring_def nth_append mod_if add.commute [of i p])
qed (simp add: ring_def)

lemma update_get:
  assumes "p < 256" "q < 256" "p \<noteq> q" "get_index f = of_nat p" "put_index f = of_nat q" "\<not> is_full f"
  shows "rt_dma_recv_update_get_index (of_nat (around p q)) f = Some (f\<lparr>get_index := of_nat q\<rparr>)"
proof -
  let ?r = "around p q"
  have sum: "(of_nat p + of_nat ?r :: u32) = of_nat (if p \<le> q then q else q + 256)"
    by (simp only: of_nat_add [symmetric] around_end [OF assms(1,2)])
  have "ucast (of_nat (q + 256) :: u32) = (of_nat (q + 256) :: u16)" "ucast (of_nat (q + 256) :: u16) = (of_nat (q + 256) :: u32)"
    using assms(2) index_cast [of "q + 256"] by simp_all
  moreover have "bufsz \<le> (of_nat (q + 256) :: u32)" "(of_nat (q + 256) :: u32) mod bufsz = of_nat q"
    using assms(2) small_index(2) [of "q + 256"]
    by (simp_all add: word_le_nat_alt word_unat_eq_iff unat_mod small_index del: of_nat_add)
  ultimately show ?thesis
    using assms calc_len [OF assms(1-5)] sum
    by (auto simp: rt_dma_recv_update_get_index_def Let_def index_cast index_le simp del: of_nat_add)
qed

lemma dma_rx:
  assumes "p < 256" "q < 256" "p \<noteq> q" "get_index f = of_nat p" "put_index f = of_nat q" "\<not> is_full f" "length (fifo_buffer f) = 256"
  shows "serial_dma_rx (of_nat (around p q)) f = Some (ring (fifo_buffer f) p (around p q), f\<lparr>get_index := of_nat q\<rparr>)"
proof -
  let ?r = "around p q" let ?b = "fifo_buffer f"
  have r: "0 < ?r" "?r < 256" using around_bounds [OF assms(1-3)] by auto
  have sum: "of_nat p + of_nat ?r = (of_nat (p + ?r) :: u32)" by simp
  have n: "unat (of_nat (p + ?r) :: u32) = p + ?r" using r assms(1) by (intro small_index(2)) simp
  have lt: "(of_nat p + of_nat ?r < bufsz) = (p + ?r < 256)" unfolding sum by (simp add: word_less_nat_alt n del: of_nat_add)
  have s1: "unat (bufsz - of_nat p) = 256 - p"
    using assms(1) by (subst unat_sub) (simp_all add: word_le_nat_alt small_index)
  have s2: "256 \<le> p + ?r \<Longrightarrow> unat (of_nat ?r + of_nat p - bufsz) = p + ?r - 256"
    unfolding add.commute [of "of_nat ?r"] sum using n by (subst unat_sub) (simp_all add: word_le_nat_alt del: of_nat_add)
  have "(if of_nat p + of_nat ?r < bufsz then take (unat (of_nat ?r :: u32)) (drop p ?b)
      else take (unat (bufsz - of_nat p)) (drop p ?b) @ take (unat (of_nat ?r + of_nat p - bufsz)) ?b) = ring ?b p ?r"
    using ring_straight [OF assms(7), of p ?r] ring_wrapped [OF assms(7), of p ?r] r assms(1) s2
    by (simp add: lt s1 small_index not_less)
  then show ?thesis
    using assms calc_len [OF assms(1-5)] update_get [OF assms(1-6)]
    by (simp add: serial_dma_rx_def Let_def index_cast small_index split: if_splits)
qed

text \<open>One burst, from rest to rest.\<close>

lemma burst:
  fixes bs :: bytes
  assumes "rx_idle s"
  defines "r \<equiv> length bs mod 256"
  shows "\<exists>s'. rx_idle s' \<and> uart_burst cb bs (s, w) =
    (if r = 0 then Some (s', w) else map_option (Pair s') (cb r (drop (length bs - r) bs) w))"
proof -
  define p where "p = dma_pos s"
  define t where "t = fold dma_byte bs s"
  define q where "q = (p + length bs) mod 256"
  have i: "p < 256" "length (fifo_buffer (serial_rx s)) = 256" "last_index s = of_nat p" "\<not> is_full (serial_rx s)"
    "put_index (serial_rx s) = of_nat p" "get_index (serial_rx s) = of_nat p"
    using assms(1) by (simp_all add: rx_idle_def Let_def p_def)
  have q: "q < 256" and ar: "around p q = r" using around_mod [OF i(1)] by (simp_all add: q_def r_def)
  note D = dma_bytes [of s bs, folded t_def p_def, folded q_def, OF i(2,1)]
  have cell: "\<forall>j<length bs. length bs \<le> j + 256 \<longrightarrow> fifo_buffer (serial_rx t) ! ((p + j) mod 256) = bs ! j" using D by blast
  have isr: "uart_isr_idle t = (if p = q then (None, t)
    else (Some (of_nat r), t\<lparr>last_index := of_nat q, serial_rx := (serial_rx t)\<lparr>put_index := of_nat q\<rparr>\<rparr>))"
    unfolding ar [symmetric] using D i q by (intro isr_idle) auto
  show ?thesis
  proof (cases "p = q")
    case True
    then have "r = 0" using ar by (simp add: around_def)
    moreover have "rx_idle t" using D i q True by (simp add: rx_idle_def Let_def)
    ultimately show ?thesis using isr True by (auto simp: uart_burst_def t_def)
  next
    case False
    let ?t = "t\<lparr>last_index := of_nat q, serial_rx := (serial_rx t)\<lparr>put_index := of_nat q\<rparr>\<rparr>"
    let ?t' = "t\<lparr>last_index := of_nat q, serial_rx := (serial_rx t)\<lparr>put_index := of_nat q, get_index := of_nat q\<rparr>\<rparr>"
    have r: "0 < r" "r < 256" "r \<le> length bs" using around_bounds [OF i(1) q False] ar by (auto simp: r_def)
    have "ring (fifo_buffer (serial_rx t)) p r = drop (length bs - r) bs"
    proof (rule nth_equalityI)
      fix j assume "j < length (ring (fifo_buffer (serial_rx t)) p r)"
      then have j: "j < r" by (simp add: ring_def)
      let ?j = "length bs - r + j"
      have "length bs - r = 256 * (length bs div 256)" by (simp add: r_def minus_mod_eq_mult_div)
      then have "p + ?j = p + j + 256 * (length bs div 256)" by linarith
      then have "(p + ?j) mod 256 = (p + j) mod 256" by (simp only: mod_mult_self2)
      moreover have "fifo_buffer (serial_rx t) ! ((p + ?j) mod 256) = bs ! ?j"
        by (rule cell [rule_format]) (use j r in linarith)+
      ultimately show "ring (fifo_buffer (serial_rx t)) p r ! j = drop (length bs - r) bs ! j"
        using j r by (simp add: ring_def)
    qed (use r in \<open>simp add: ring_def\<close>)
    then have "serial_dma_rx (of_nat r) (serial_rx ?t) = Some (drop (length bs - r) bs, serial_rx ?t')"
      using dma_rx [OF i(1) q False, of "serial_rx ?t"] D i ar by simp
    moreover have "(of_nat r :: u32) \<noteq> 0" "unat (of_nat r :: u32) = r" using small_index(2) [of r] r by auto
    ultimately have "uart_burst cb bs (s, w) = map_option (Pair ?t') (cb r (drop (length bs - r) bs) w)"
      using isr False by (cases "cb r (drop (length bs - r) bs) w") (simp_all add: uart_burst_def rt_serial_read_def t_def)
    moreover have "rx_idle ?t'" using D i q by (simp add: rx_idle_def Let_def)
    ultimately show ?thesis using r by auto
  qed
qed

section \<open>Properties\<close>

text \<open>
  C15: the serial driver delivers: if no burst on the hub's line is longer than 255 bytes, every
  burst reaches \<open>Uart1_input\<close> once, complete, in order and with its exact length, wherever the
  DMA stands in its circular buffer. The difference of the indices goes negative when a burst
  wraps around the buffer; the truncation to 16 bits makes up for it. The driver itself never
  fails an assertion: the stream faults only if the callback does.
\<close>

theorem uart1_stream_delivered:
  assumes "rx_idle s" "\<forall>bs\<in>set bss. 0 < length bs \<and> length bs < 256"
  shows "map_option snd (uart1_bursts bss (s, w)) = fold (\<lambda>bs r. r \<bind> Uart1_input (length bs) bs) bss (Some w)"
  using assms
proof (induction bss arbitrary: s w)
  case (Cons bs bss)
  then have n: "length bs mod 256 = length bs" "length bs \<noteq> 0" by auto
  obtain s' where s': "rx_idle s'" "uart_burst Uart1_input bs (s, w) = map_option (Pair s') (Uart1_input (length bs) bs w)"
    using burst [OF Cons.prems(1), of Uart1_input bs w] n by auto
  show ?case
  proof (cases "Uart1_input (length bs) bs w")
    case None
    have "fold (\<lambda>bs r. r \<bind> Uart1_input (length bs) bs) bss None = None" by (induction bss) auto
    with None s' show ?thesis by simp
  next
    case (Some w')
    with s' Cons.IH [OF s'(1), of w'] Cons.prems(2) show ?thesis by simp
  qed
qed simp

theorem uart1_stream_delivered_witness:
  "map_option snd (uart1_bursts [replicate 100 7, replicate 100 8, replicate 90 9] (rt_serial_open_rx, test_world)) =
     Uart1_input 100 (replicate 100 7) test_world \<bind> Uart1_input 100 (replicate 100 8) \<bind> Uart1_input 90 (replicate 90 9)"
  using uart1_stream_delivered [OF rx_idle_open, of "[replicate 100 7, replicate 100 8, replicate 90 9]" test_world] by simp

text \<open>
  What happens beyond the size of the buffer, since nothing else watches the DMA: of a
  burst of \<open>n\<close> bytes only the last \<open>n mod 256\<close> reach \<open>Uart1_input\<close>, and a burst of exactly 256 bytes
  is lost without a trace. The driver recovers with the next burst.
\<close>

theorem uart1_long_burst:
  assumes "rx_idle s"
  shows "\<exists>s'. rx_idle s' \<and> uart_burst Uart1_input bs (s, w) =
    (if 256 dvd length bs then Some (s', w)
     else map_option (Pair s') (Uart1_input (length bs mod 256) (drop (length bs - length bs mod 256) bs) w))"
  using burst [OF assms, of Uart1_input bs w] by (simp add: dvd_eq_mod_eq_0)

theorem uart1_long_burst_witness:
  "\<exists>s'. rx_idle s' \<and> uart_burst Uart1_input (replicate 256 1) (rt_serial_open_rx, test_world) = Some (s', test_world)"
  using uart1_long_burst [OF rx_idle_open, of "replicate 256 1" test_world] by simp

end
