(* ===== verification/Board_System.thy ===== *)
theory Board_System
  imports System Hub_Heap Rt_Serial
begin

text \<open>
  The firmware on its operating system: the system of \<open>System\<close>, in which frames arrive and the
  heap is any that keeps its contract, on top of the serial driver of \<open>Rt_Serial\<close> and the
  allocator of \<open>Rt_Mem\<close>. What arrives now are bursts of bytes on the two lines; what a pass of the
  communication task is given is the state of the heap.
\<close>

section \<open>The board\<close>

record board =
  brd_sys :: system
  brd_rx1 :: stm32_uart_rx
  brd_rx2 :: stm32_uart_rx

datatype wire =
    Line1 bytes
  | Line2 bytes
  | Comm_pass heap_state u8
  | Display_pass
  | Keys_pass "pin \<Rightarrow> u8"

text \<open>The first request for memory that \<open>analyzeMasterData\<close> makes for the pending message.\<close>

definition first_request :: "rx_msg \<Rightarrow> nat" where
  "first_request m = (if rx_data m ! 1 = READ_MUTI then unat (rx_data m ! 5) * 2 else 2)"

text \<open>The lines are opened by the start of the communication task; until then nothing listens.\<close>

definition board_boot :: "flash \<Rightarrow> u32 \<times> u32 \<times> u32 \<Rightarrow> (stray_object \<Rightarrow> nat \<Rightarrow> u8) \<Rightarrow> (nat \<Rightarrow> u8) \<Rightarrow> board" where
  "board_boot fl ids beyond after =
     \<lparr>brd_sys = sys_boot fl ids beyond after, brd_rx1 = rt_serial_open_rx, brd_rx2 = rt_serial_open_rx\<rparr>"

definition on_sys :: "flash_hw \<Rightarrow> input \<Rightarrow> board \<Rightarrow> board option" where
  "on_sys hw i b = map_option (\<lambda>s. b\<lparr>brd_sys := s\<rparr>) (sys_step hw i (brd_sys b))"

fun board_step :: "flash_hw \<Rightarrow> wire \<Rightarrow> board \<Rightarrow> board option" where
  "board_step hw (Line1 bs) b =
     (if sys_uart (brd_sys b) = None then Some b
      else map_option (\<lambda>(r, w). b\<lparr>brd_sys := (brd_sys b)\<lparr>sys_world := w\<rparr>, brd_rx1 := r\<rparr>)
             (uart_burst Uart1_input bs (brd_rx1 b, sys_world (brd_sys b))))"
| "board_step hw (Line2 bs) b =
     (if sys_uart (brd_sys b) = None then Some b
      else map_option (\<lambda>(r, w). b\<lparr>brd_sys := (brd_sys b)\<lparr>sys_world := w\<rparr>, brd_rx2 := r\<rparr>)
             (uart_burst Uart2_input bs (brd_rx2 b, sys_world (brd_sys b))))"
| "board_step hw (Comm_pass h io) b =
     on_sys hw (Uart_pass (mem_heap h (first_request (uart1_msg (sys_world (brd_sys b))))) io) b"
| "board_step hw Display_pass b = on_sys hw Oled_pass b"
| "board_step hw (Keys_pass pins) b = on_sys hw (Button_pass pins) b"

fun board_run :: "flash_hw \<Rightarrow> wire list \<Rightarrow> board \<Rightarrow> board option" where
  "board_run hw [] b = Some b"
| "board_run hw (i # is) b = do { b \<leftarrow> board_step hw i b; board_run hw is b }"

section \<open>Refinement of the system\<close>

text \<open>What the serial driver delivers of a burst.\<close>

definition delivered :: "bytes \<Rightarrow> bytes" where
  "delivered bs = drop (length bs - length bs mod 256) bs"

lemma length_delivered [simp]: "length (delivered bs) = length bs mod 256"
  by (simp add: delivered_def)

text \<open>The environment of the board: what is delivered fits the message buffers, a match answer of the code library
  has a brand code below 10000, and the heap is in good order.\<close>

fun wire_ok :: "wire \<Rightarrow> bool" where
  "wire_ok (Line1 bs) = admissible (Rx1 (delivered bs))"
| "wire_ok (Line2 bs) = admissible (Rx2 (delivered bs))"
| "wire_ok (Comm_pass h io) = (\<exists>bs. heap_repr h bs)"
| "wire_ok _ = True"

definition board_at :: "ui_page \<Rightarrow> board \<Rightarrow> bool" where
  "board_at p b \<longleftrightarrow> sys_at p (brd_sys b) \<and> rx_idle (brd_rx1 b) \<and> rx_idle (brd_rx2 b)"

lemma burst_step:
  assumes "rx_idle r"
  shows "\<exists>r'. rx_idle r' \<and> uart_burst cb bs (r, w) =
    (if delivered bs = [] then Some (r', w) else map_option (Pair r') (cb (length (delivered bs)) (delivered bs) w))"
proof -
  have "delivered bs = [] \<longleftrightarrow> length bs mod 256 = 0" by (metis length_0_conv length_delivered)
  with burst [OF assms, of cb bs w, folded delivered_def] show ?thesis by (simp only: length_delivered)
qed

lemma on_sys_sim:
  assumes "board_at p b" "admissible i"
  shows "\<exists>q b'. on_sys hw i b = Some b' \<and> ui_step p q \<and> board_at q b'"
proof -
  have "sys_at p (brd_sys b)" using assms(1) by (simp add: board_at_def)
  from firmware.step_sim [OF this assms(2), of hw] obtain q s' where
    "sys_step hw i (brd_sys b) = Some s'" "ui_step p q" "sys_at q s'" by blast
  with assms(1) show ?thesis by (auto simp: on_sys_def board_at_def)
qed

text \<open>A burst is a step of the system with the bytes delivered, or none.\<close>

lemma line1_sys:
  assumes "rx_idle (brd_rx1 b)"
  shows "\<exists>r. rx_idle r \<and> board_step hw (Line1 bs) b = (if delivered bs = [] then Some (b\<lparr>brd_rx1 := r\<rparr>)
    else map_option (\<lambda>s. b\<lparr>brd_sys := s, brd_rx1 := r\<rparr>) (sys_step hw (Rx1 (delivered bs)) (brd_sys b)))"
proof (cases "sys_uart (brd_sys b) = None")
  case True
  then show ?thesis using assms by (intro exI [of _ "brd_rx1 b"]) simp
next
  case False
  then obtain t where "sys_uart (brd_sys b) = Some t" by blast
  moreover obtain r where r: "rx_idle r" "uart_burst Uart1_input bs (brd_rx1 b, sys_world (brd_sys b)) =
      (if delivered bs = [] then Some (r, sys_world (brd_sys b))
       else map_option (Pair r) (Uart1_input (length (delivered bs)) (delivered bs) (sys_world (brd_sys b))))"
    using burst_step [OF assms, of Uart1_input bs "sys_world (brd_sys b)"] by blast
  ultimately show ?thesis by (intro exI [of _ r]) (simp add: option.map_comp comp_def)
qed

lemma line2_sys:
  assumes "rx_idle (brd_rx2 b)"
  shows "\<exists>r. rx_idle r \<and> board_step hw (Line2 bs) b = (if delivered bs = [] then Some (b\<lparr>brd_rx2 := r\<rparr>)
    else map_option (\<lambda>s. b\<lparr>brd_sys := s, brd_rx2 := r\<rparr>) (sys_step hw (Rx2 (delivered bs)) (brd_sys b)))"
proof (cases "sys_uart (brd_sys b) = None")
  case True
  then show ?thesis using assms by (intro exI [of _ "brd_rx2 b"]) simp
next
  case False
  then obtain t where "sys_uart (brd_sys b) = Some t" by blast
  moreover obtain r where r: "rx_idle r" "uart_burst Uart2_input bs (brd_rx2 b, sys_world (brd_sys b)) =
      (if delivered bs = [] then Some (r, sys_world (brd_sys b))
       else map_option (Pair r) (Uart2_input (length (delivered bs)) (delivered bs) (sys_world (brd_sys b))))"
    using burst_step [OF assms, of Uart2_input bs "sys_world (brd_sys b)"] by blast
  ultimately show ?thesis by (intro exI [of _ r]) (simp add: option.map_comp comp_def)
qed

lemma board_step_sim:
  assumes "board_at p b" "wire_ok i"
  shows "\<exists>q b'. board_step hw i b = Some b' \<and> ui_step p q \<and> board_at q b'"
proof (cases i)
  case (Line1 bs)
  obtain r where r: "rx_idle r" "board_step hw (Line1 bs) b = (if delivered bs = [] then Some (b\<lparr>brd_rx1 := r\<rparr>)
      else map_option (\<lambda>s. b\<lparr>brd_sys := s, brd_rx1 := r\<rparr>) (sys_step hw (Rx1 (delivered bs)) (brd_sys b)))"
    using line1_sys [of b hw bs] assms(1) by (auto simp: board_at_def)
  show ?thesis
  proof (cases "delivered bs = []")
    case True
    with r Line1 assms(1) show ?thesis by (auto simp: board_at_def intro: ui_stay simp del: board_step.simps)
  next
    case False
    with firmware.step_sim [of p "brd_sys b" "Rx1 (delivered bs)" hw] r Line1 assms show ?thesis
      by (auto simp: board_at_def simp del: board_step.simps sys_step.simps admissible.simps)
  qed
next
  case (Line2 bs)
  obtain r where r: "rx_idle r" "board_step hw (Line2 bs) b = (if delivered bs = [] then Some (b\<lparr>brd_rx2 := r\<rparr>)
      else map_option (\<lambda>s. b\<lparr>brd_sys := s, brd_rx2 := r\<rparr>) (sys_step hw (Rx2 (delivered bs)) (brd_sys b)))"
    using line2_sys [of b hw bs] assms(1) by (auto simp: board_at_def)
  show ?thesis
  proof (cases "delivered bs = []")
    case True
    with r Line2 assms(1) show ?thesis by (auto simp: board_at_def intro: ui_stay simp del: board_step.simps)
  next
    case False
    with firmware.step_sim [of p "brd_sys b" "Rx2 (delivered bs)" hw] r Line2 assms show ?thesis
      by (auto simp: board_at_def simp del: board_step.simps sys_step.simps admissible.simps)
  qed
next
  case (Comm_pass h io)
  then have "admissible (Uart_pass (mem_heap h n) io)" for n using assms(2) rt_heap_mem by auto
  with on_sys_sim [OF assms(1)] Comm_pass show ?thesis by simp
next
  case Display_pass
  with on_sys_sim [OF assms(1), of Oled_pass] show ?thesis by simp
next
  case (Keys_pass pins)
  with on_sys_sim [OF assms(1), of "Button_pass pins"] show ?thesis by simp
qed

interpretation whole_board: refined_system "board_step hw" "board_run hw" wire_ok board_at ui_step
  for hw
  by unfold_locales (simp_all add: board_step_sim Option.bind_def)

lemma board_at_boot: "board_at Home (board_boot fl ids beyond after)"
  by (simp add: board_at_def board_boot_def sys_at_boot rx_idle_open)

section \<open>Properties\<close>

text \<open>
  C3: the firmware on its operating system does not fault. From reset, whatever bursts of bytes
  arrive on the two lines, provided that the driver delivers at most 100 bytes of each and that a match answer of
  the code library has a brand code below 10000, and in whatever order the tasks run, with a heap in any good state at
  every pass, every step of the tasks, the interrupts, the serial driver and the allocator returns: the stores into the
  driver's ring, the receive buffers, the blocks of the heap and the digits of the brand code stay inside them and no
  assertion fails; afterwards the display shows a page reachable in the page tree, and both receivers
  are at rest. Excepted are the three accesses that leave their object on every run (\<open>initModuleInfo\<close>, the ninth page of
  \<open>ST7567_UpdateScreen\<close>, \<open>codeDataRecvResult\<close>), which are taken to reach memory no other variable uses.
\<close>

theorem board_never_faults:
  assumes "\<forall>i\<in>set is. wire_ok i"
  shows "\<exists>b p. board_run hw is (board_boot fl ids beyond after) = Some b \<and> ui_step\<^sup>*\<^sup>* Home p \<and>
    shows_page (sys_world (brd_sys b)) p \<and> lcd_wf (disp (sys_world (brd_sys b))) \<and> rx_idle (brd_rx1 b) \<and> rx_idle (brd_rx2 b)"
proof -
  obtain p b where "board_run hw is (board_boot fl ids beyond after) = Some b" "ui_step\<^sup>*\<^sup>* Home p" "board_at p b"
    using whole_board.run_sim [OF board_at_boot assms, of hw fl ids beyond after] by blast
  then show ?thesis by (auto simp: board_at_def sys_at_def ui_inv_def)
qed

theorem board_never_faults_witness:
  "\<exists>b. board_run ref_hw [Comm_pass demo_heap 1, Line1 [1, 3, 0, 7, 0, 1, 0x34, 0x0B], Comm_pass demo_heap 1,
      Line1 (replicate 300 0), Display_pass, Keys_pass (\<lambda>_. 0)] (board_boot (\<lambda>_. 0xFF) (1, 2, 3) (\<lambda>_ _. 0) (\<lambda>_. 0)) = Some b \<and>
     rx_idle (brd_rx1 b)"
proof -
  let ?is = "[Comm_pass demo_heap 1, Line1 [1, 3, 0, 7, 0, 1, 0x34, 0x0B], Comm_pass demo_heap 1,
      Line1 (replicate 300 0), Display_pass, Keys_pass (\<lambda>_. 0)]"
  have "\<forall>i\<in>set ?is. wire_ok i" using demo_heap_ok(1) by (auto simp: UART_MSG_SIZE_def)
  from board_never_faults [OF this, of ref_hw "\<lambda>_. 0xFF" "(1, 2, 3)" "\<lambda>_ _. 0" "\<lambda>_. 0"] show ?thesis by blast
qed

end
