(* ===== verification/Hub_Session.thy ===== *)
theory Hub_Session
  imports Board_System
begin

text \<open>
  A command of the hub from end to end: the burst on the line, the interrupt, the reply of the communication
  task, and the infrared commands it sends in the seconds that follow.
\<close>

section \<open>What a device is sent\<close>

definition dev_out :: "device \<Rightarrow> effect list \<Rightarrow> bytes list" where
  "dev_out d es = concat (map (\<lambda>e. case e of Dev_write d' bs \<Rightarrow> if d' = d then [bs] else [] | _ \<Rightarrow> []) es)"

lemma dev_out_simps [simp]:
  "dev_out d [] = []" "dev_out d (es @ fs) = dev_out d es @ dev_out d fs"
  "dev_out d (Dev_write d' bs # es) = (if d' = d then [bs] else []) @ dev_out d es"
  "dev_out d (Pin_write p v # es) = dev_out d es" "dev_out d (Mdelay n # es) = dev_out d es"
  by (simp_all add: dev_out_def)

section \<open>A quiet pass\<close>

text \<open>No message is waiting, no command of the user interface is pending, the module is registered and in match
  mode.\<close>

definition quiet :: "world \<Rightarrow> bool" where
  "quiet w \<longleftrightarrow> messageFlag (uart1_msg w) = NO \<and> messageFlag (uart2_msg w) = NO \<and>
     event (infrared_event w) = EVENT_NULL \<and> mi_select (module_info w) = SELECT_MATCH \<and>
     mi_register_state (module_info w) = REGISTER_SUCESS"

text \<open>The part of the record a command is made of, and how often it is still to be sent.\<close>

definition command :: "world \<Rightarrow> u16 \<times> u16" where
  "command w = (mi_brand_code (module_info w), mi_ctrl (module_info w))"

definition left :: "uart_task \<times> world \<Rightarrow> nat" where
  "left = (\<lambda>(t, w). if ctrl_pre t \<noteq> mi_ctrl (module_info w) then 3 else 2 - unat (sendCmdCnt t))"

text \<open>Sections of the loop that send nothing to the code library.\<close>

definition silent :: "uart_task \<times> world \<Rightarrow> uart_task \<times> world \<Rightarrow> bool" where
  "silent = (\<lambda>(t, w) (t', w').
     (quiet w \<longrightarrow> quiet w') \<and> command w' = command w \<and> ut_time1S t' = ut_time1S t \<and> ut_Timer1sTouch t' = ut_Timer1sTouch t \<and>
     ctrl_pre t' = ctrl_pre t \<and> sendCmdCnt t' = sendCmdCnt t \<and>
     dev_out UART2 (trace w') = dev_out UART2 (trace w) \<and> (\<exists>es. dev_out UART1 (trace w') = dev_out UART1 (trace w) @ es))"

lemma silent_refl [simp]: "silent s s"
  by (cases s) (simp add: silent_def)

lemma silent_trans: "silent s s1 \<Longrightarrow> silent s1 s' \<Longrightarrow> silent s s'"
  by (cases s; cases s1; cases s') (auto simp: silent_def)

lemma silent_left: "silent s s' \<Longrightarrow> left s' = left s"
  by (cases s; cases s') (auto simp: silent_def left_def command_def)

lemma silent_100ms: "silent s (uart_100ms s)"
  by (cases s) (auto simp: uart_100ms_def silent_def quiet_def command_def LED_TEST_def fw_defs io_defs)

lemma silent_register: "silent (t, w) (t, sendRegisterToMaster w)"
  by (auto simp: silent_def quiet_def command_def sendRegisterToMaster_def sendMessageToMaster_def Let_def fw_defs io_defs)

lemma silent_led: "silent (t, w) (t, uart_1s_led w)"
  by (auto simp: uart_1s_led_def silent_def quiet_def command_def LED_ON_def LED_TEST_def fw_defs io_defs)

lemma silent_task:
  assumes "ut_time1S t' = ut_time1S t" "ut_Timer1sTouch t' = ut_Timer1sTouch t" "ctrl_pre t' = ctrl_pre t" "sendCmdCnt t' = sendCmdCnt t"
  shows "silent (t, w) (t', w)"
  using assms by (simp add: silent_def)

lemma silent_event: "silent (t, w) (t, setMasterEvent e w)"
  by (simp add: silent_def quiet_def command_def fw_defs)

lemma silent_hub: "silent (t, w) (uart_1s_hub (t, w))"
proof -
  have "silent (t, w) (t\<lparr>startFlag := YES\<rparr>, sendRegisterToMaster w)"
    by (rule silent_trans [OF silent_register silent_task]) simp_all
  then have "silent (t, w) (if startFlag t = NO then (t\<lparr>startFlag := YES\<rparr>, sendRegisterToMaster w) else (t, w))" by simp
  moreover have "silent (u, v) (if connect_monitor u < 30 then (u\<lparr>connect_monitor := connect_monitor u + 1\<rparr>, v) else (u, setMasterEvent EVENT_REGISTER v))" for u v
    using silent_event silent_task by auto
  moreover obtain u v where "(if startFlag t = NO then (t\<lparr>startFlag := YES\<rparr>, sendRegisterToMaster w) else (t, w)) = (u, v)" by fastforce
  ultimately show ?thesis using silent_trans [of "(t, w)" "(u, v)"] by (simp only: uart_1s_hub_def Let_def prod.case)
qed

lemma silent_5s: "silent s (uart_5s s)"
  by (cases s) (simp add: uart_5s_def silent_event)

lemma silent_10s: "silent s (uart_10s s)"
proof (cases s)
  case (Pair t w)
  have "silent (t, w) (t\<lparr>startCheckIo := YES\<rparr>, sendRegisterToMaster w)"
    by (rule silent_trans [OF silent_register silent_task]) simp_all
  moreover have "silent (t, w) (t\<lparr>startCheckIo := YES\<rparr>, w)" by (rule silent_task) simp_all
  ultimately have "silent (t, w) (t\<lparr>startCheckIo := YES\<rparr>, if b then sendRegisterToMaster w else w)" for b by simp
  then show ?thesis by (simp add: Pair uart_10s_def)
qed

lemma silent_delay: "silent (t, w) (t, task_mdelay n w)"
  by (simp add: silent_def quiet_def command_def io_defs)

lemma silent_persist: "\<exists>s'. uart_persist hw s = Some s' \<and> silent s s'"
proof (cases s)
  case (Pair t w)
  obtain fl where "setDataToFlah hw DATA_BLOCK_START (info_bytes (module_info w)) (flash_mem w) = Some fl"
    using setDataToFlah_total by (metis length_info_bytes)
  then show ?thesis by (auto simp: Pair uart_persist_def getModuleInfo_def Let_def silent_def quiet_def command_def)
qed

text \<open>The section that sends, at the end of a one-second round.\<close>

lemma ctrl_sends:
  assumes "quiet w"
  shows "\<exists>t' w'. uart_1s_ctrl (t, w) = (t', w') \<and> quiet w' \<and> command w' = command w \<and> ut_time1S t' = ut_time1S t \<and>
    left (t', w') = left (t, w) - 1 \<and> dev_out UART1 (trace w') = dev_out UART1 (trace w) \<and>
    dev_out UART2 (trace w') = dev_out UART2 (trace w) @ replicate (min 1 (left (t, w))) (ctrl_frame (module_info w))"
proof -
  let ?w = "sendCtrlCommandToCodeData UART2 w"
  have send: "quiet ?w" "command ?w = command w" "mi_ctrl (module_info ?w) = mi_ctrl (module_info w)"
    "dev_out UART1 (trace ?w) = dev_out UART1 (trace w)" "dev_out UART2 (trace ?w) = dev_out UART2 (trace w) @ [ctrl_frame (module_info w)]"
    using assms by (simp_all add: quiet_def command_def sendCtrlCommandToCodeData_def ctrl_frame_def Let_def fw_defs io_defs)
  have cnt: "unat (sendCmdCnt t + 1) = unat (sendCmdCnt t) + 1" "unat (sendCmdCnt t) < 2" if "sendCmdCnt t < 2"
    using that by (simp_all add: word_less_nat_alt unat_plus_if')
  show ?thesis
    using assms send cnt by (auto simp: uart_1s_ctrl_def left_def getModuleInfo_def word_less_nat_alt not_less)
qed

text \<open>The rest of a pass, after the message of the hub.\<close>

definition sends :: "nat \<Rightarrow> uart_task \<times> world \<Rightarrow> uart_task \<times> world \<Rightarrow> bool" where
  "sends n = (\<lambda>(t, w) (t', w').
     quiet w' \<and> command w' = command w \<and> ut_time1S t' = ut_time1S t \<and> left (t', w') = left (t, w) - n \<and>
     dev_out UART2 (trace w') = dev_out UART2 (trace w) @ replicate (min n (left (t, w))) (ctrl_frame (module_info w)) \<and>
     (\<exists>es. dev_out UART1 (trace w') = dev_out UART1 (trace w) @ es))"

lemma ctrl_frame_command: "command w' = command w \<Longrightarrow> ctrl_frame (module_info w') = ctrl_frame (module_info w)"
  by (simp add: command_def ctrl_frame_def)

lemma silent_sends:
  assumes "silent s s1" "sends n s1 s2" "silent s2 s'"
  shows "sends n s s'"
proof (cases s; cases s1; cases s2; cases s')
  fix t w t1 w1 t2 w2 t' w' assume eq: "s = (t, w)" "s1 = (t1, w1)" "s2 = (t2, w2)" "s' = (t', w')"
  have "left s1 = left s" "left s' = left s2" using assms silent_left by auto
  then show ?thesis using assms ctrl_frame_command [of w1 w] unfolding eq by (auto simp: silent_def sends_def)
qed

lemma round_sends:
  assumes "quiet (snd s)"
  shows "sends (if ut_Timer1sTouch (fst s) = YES then 1 else 0) s (uart_1s s)"
proof (cases "ut_Timer1sTouch (fst s) = YES")
  case True
  obtain t w where s: "s = (t, w)" by fastforce
  define t0 where "t0 = t\<lparr>ut_event := getInfraredEvent w, ut_master_event := getMasterEvent w\<rparr>"
  have ac: "uart_1s_ac (t0, w) = (t0, w)" using assms by (simp add: uart_1s_ac_def t0_def s quiet_def Let_def fw_defs)
  obtain t1 w1 where hub: "uart_1s_hub (t0, uart_1s_led w) = (t1, w1)" by fastforce
  have "silent (t, w) (t0, w)" by (rule silent_task) (simp_all add: t0_def)
  moreover have "silent (t0, w) (t1, w1)" using silent_trans [OF silent_led silent_hub, of t0 w] unfolding hub .
  ultimately have pre: "silent s (t1, w1)" unfolding s by (rule silent_trans)
  then have q: "quiet w1" using assms by (simp add: silent_def s)
  from ctrl_sends [OF q, of t1] have "sends 1 (t1, w1) (uart_1s_ctrl (t1, w1))" by (auto simp: sends_def)
  from silent_sends [OF pre this silent_refl] True show ?thesis by (simp add: uart_1s_def s t0_def [symmetric] ac hub Let_def)
next
  case False
  then show ?thesis using assms by (cases s) (simp add: sends_def uart_1s_def)
qed

lemma tail_sends:
  assumes "quiet w"
  shows "\<exists>s'. Option.bind (uart_ac (t, w)) (\<lambda>s. Option.bind (uart_persist hw s) (\<lambda>s. Some (uart_periodic s))) = Some s' \<and>
    sends (if ut_Timer1sTouch t = YES then 1 else 0) (t, w) s'"
proof -
  have ac: "uart_ac (t, w) = Some (t, w)" using assms by (simp add: uart_ac_def quiet_def)
  obtain s1 where s1: "uart_persist hw (t, w) = Some s1" "silent (t, w) s1" using silent_persist by blast
  have "silent s1 (uart_100ms s1)" by (rule silent_100ms)
  with s1(2) have pre: "silent (t, w) (uart_100ms s1)" by (rule silent_trans)
  then have q: "quiet (snd (uart_100ms s1))" "ut_Timer1sTouch (fst (uart_100ms s1)) = ut_Timer1sTouch t"
    using assms by (auto simp: silent_def split: prod.splits)
  have post: "silent (uart_1s (uart_100ms s1)) (uart_periodic s1)"
    unfolding uart_periodic_def
    using silent_trans [OF silent_5s silent_10s, of "uart_1s (uart_100ms s1)"] silent_trans silent_delay
    by (auto split: prod.split)
  from silent_sends [OF pre round_sends [OF q(1), unfolded q(2)] post] ac s1 show ?thesis by simp
qed

section \<open>Passes\<close>

text \<open>The passes that fall into a new one-second round.\<close>

definition rounds :: "uart_task \<Rightarrow> nat \<Rightarrow> nat" where
  "rounds t n = (unat (ut_time1S t) + n) div 21"

lemma timers_1s:
  assumes "unat (ut_time1S t) \<le> 20"
  shows "unat (ut_time1S (uart_timers t)) \<le> 20" "(if ut_Timer1sTouch (uart_timers t) = YES then 1 else 0) + rounds (uart_timers t) n = rounds t (Suc n)"
    "left (uart_timers t, w) = left (t, w)" "ut_Timer1sTouch (uart_timers t) = YES \<longleftrightarrow> unat (ut_time1S t) = 20"
proof -
  have t: "ut_time1S (uart_timers t) = (if ut_time1S t < 20 then ut_time1S t + 1 else 0)"
    "ut_Timer1sTouch (uart_timers t) = (if ut_time1S t < 20 then NO else YES)"
    by (auto simp: uart_timers_def TimerTask_def Let_def)
  show "left (uart_timers t, w) = left (t, w)" by (simp add: uart_timers_def left_def Let_def split: prod.split)
  have less: "ut_time1S t < 20 \<longleftrightarrow> unat (ut_time1S t) < 20" by (simp add: word_less_nat_alt)
  have suc: "unat (ut_time1S t + 1) = Suc (unat (ut_time1S t))" if "ut_time1S t < 20"
    using that by (simp add: word_less_nat_alt unat_plus_if')
  show "unat (ut_time1S (uart_timers t)) \<le> 20" "ut_Timer1sTouch (uart_timers t) = YES \<longleftrightarrow> unat (ut_time1S t) = 20"
    using assms suc by (auto simp: t less)
  show "(if ut_Timer1sTouch (uart_timers t) = YES then 1 else 0) + rounds (uart_timers t) n = rounds t (Suc n)"
  proof (cases "ut_time1S t < 20")
    case True
    then show ?thesis by (simp add: t rounds_def suc)
  next
    case False
    with assms have "unat (ut_time1S t) = 20" by (simp add: less)
    then have "rounds t (Suc n) = (n + 21) div 21" by (simp add: rounds_def add.commute)
    with False show ?thesis by (simp add: t rounds_def)
  qed
qed

lemma quiet_pass:
  assumes "quiet w"
  shows "\<exists>s'. UartTaskEntry_loop hw heap io (t, w) = Some s' \<and>
    sends (if ut_Timer1sTouch (uart_timers t) = YES then 1 else 0) (uart_timers t, w) s'"
  using tail_sends [OF assms, of "uart_timers t" hw] assms
  by (simp add: UartTaskEntry_loop_def uart_io_def uart_master_def quiet_def fw_defs Let_def)

text \<open>A pass of the communication task on the board.\<close>

lemma comm_step:
  assumes "sys_uart (brd_sys b) = Some t"
  shows "board_step hw (Comm_pass h io) b =
    map_option (\<lambda>(t, w). b\<lparr>brd_sys := (brd_sys b)\<lparr>sys_world := w, sys_uart := Some t\<rparr>\<rparr>)
      (UartTaskEntry_loop hw (mem_heap h (first_request (uart1_msg (sys_world (brd_sys b))))) io (t, sys_world (brd_sys b)))"
  using assms by (auto simp: on_sys_def option.map_comp comp_def intro!: option.map_cong)

definition comm_passes :: "(heap_state \<times> u8) list \<Rightarrow> wire list" where
  "comm_passes ps = map (\<lambda>(h, io). Comm_pass h io) ps"

text \<open>The task after some passes has sent the frame \<open>n\<close> times.\<close>

definition session :: "nat \<Rightarrow> bytes \<Rightarrow> world \<Rightarrow> board \<Rightarrow> bool" where
  "session n f w b \<longleftrightarrow>
     quiet (sys_world (brd_sys b)) \<and> command (sys_world (brd_sys b)) = command w \<and>
     dev_out UART2 (trace (sys_world (brd_sys b))) = dev_out UART2 (trace w) @ replicate n f \<and>
     (\<exists>es. dev_out UART1 (trace (sys_world (brd_sys b))) = dev_out UART1 (trace w) @ es)"

lemma quiet_passes:
  assumes "sys_uart (brd_sys b) = Some t" "quiet (sys_world (brd_sys b))" "unat (ut_time1S t) \<le> 20"
  shows "\<exists>b'. board_run hw (comm_passes ps) b = Some b' \<and>
    session (min (rounds t (length ps)) (left (t, sys_world (brd_sys b)))) (ctrl_frame (module_info (sys_world (brd_sys b))))
      (sys_world (brd_sys b)) b'"
  using assms
proof (induction ps arbitrary: b t)
  case Nil
  then show ?case by (simp add: comm_passes_def session_def rounds_def)
next
  case (Cons q ps)
  obtain h io where q: "q = (h, io)" by fastforce
  let ?w = "sys_world (brd_sys b)" let ?f = "ctrl_frame (module_info ?w)"
  let ?n = "if ut_Timer1sTouch (uart_timers t) = YES then 1 else 0 :: nat"
  note tm = timers_1s [OF Cons.prems(3)]
  obtain t1 w1 where s1: "UartTaskEntry_loop hw (mem_heap h (first_request (uart1_msg ?w))) io (t, ?w) = Some (t1, w1)"
    "sends ?n (uart_timers t, ?w) (t1, w1)"
    using quiet_pass [OF Cons.prems(2), of hw _ io t] by fastforce
  then have w1: "quiet w1" "command w1 = command ?w" "ut_time1S t1 = ut_time1S (uart_timers t)" "left (t1, w1) = left (t, ?w) - ?n"
      "dev_out UART2 (trace w1) = dev_out UART2 (trace ?w) @ replicate (min ?n (left (t, ?w))) ?f"
      "\<exists>es. dev_out UART1 (trace w1) = dev_out UART1 (trace ?w) @ es"
    unfolding sends_def by (simp_all add: tm(3))
  define b1 where "b1 = b\<lparr>brd_sys := (brd_sys b)\<lparr>sys_world := w1, sys_uart := Some t1\<rparr>\<rparr>"
  have "board_step hw (Comm_pass h io) b = Some b1" unfolding comm_step [OF Cons.prems(1)] s1(1) by (simp add: b1_def)
  moreover have "sys_uart (brd_sys b1) = Some t1" "sys_world (brd_sys b1) = w1" by (simp_all add: b1_def)
  moreover have "unat (ut_time1S t1) \<le> 20" using w1(3) tm(1) by simp
  ultimately obtain b' where b': "board_run hw (comm_passes (q # ps)) b = Some b'"
    "session (min (rounds t1 (length ps)) (left (t1, w1))) (ctrl_frame (module_info w1)) w1 b'"
    using Cons.IH [of b1 t1] w1(1) by (auto simp: comm_passes_def q simp del: board_step.simps)
  have "rounds t1 (length ps) = rounds (uart_timers t) (length ps)" by (simp add: rounds_def w1(3))
  with tm(2) [of "length ps"] have r: "rounds t (length (q # ps)) = ?n + rounds t1 (length ps)" by simp
  have "min ?n l + min r (l - ?n) = min (?n + r) l" for l r by auto
  with b'(2) w1 r ctrl_frame_command [OF w1(2)]
  have "session (min (rounds t (length (q # ps))) (left (t, ?w))) ?f ?w b'"
    unfolding session_def by (auto simp flip: replicate_add)
  with b'(1) show ?case by blast
qed

section \<open>The command\<close>

text \<open>A request to write the control register.\<close>

definition ctrl_request :: "u8 \<Rightarrow> u8 \<Rightarrow> u8 \<Rightarrow> bytes" where
  "ctrl_request addr h l = seal [addr, 6, 0x01, 0x00, h, l]"

lemma ctrl_request_simps [simp]:
  "length (ctrl_request a h l) = 8" "ctrl_request a h l ! 0 = a" "ctrl_request a h l ! Suc 0 = 6" "usModbusRTU_CRC (ctrl_request a h l) = 0"
  by (simp_all add: ctrl_request_def seal_residue) (simp_all add: seal_def)

lemma request_received:
  fixes h l :: u8
  assumes "rx_idle (brd_rx1 b)" "sys_uart (brd_sys b) = Some t" "msg_ok (uart1_msg (sys_world (brd_sys b)))"
  defines "w \<equiv> sys_world (brd_sys b)"
  defines "f \<equiv> ctrl_request (mi_addr (module_info w)) h l"
  shows "\<exists>b'. board_step hw (Line1 f) b = Some b' \<and> sys_uart (brd_sys b') = Some t \<and>
    sys_world (brd_sys b') = w\<lparr>uart1_msg := \<lparr>rx_size = 8, messageFlag = YES, rx_data = f @ drop 8 (rx_data (uart1_msg w))\<rparr>\<rparr>"
proof -
  have d: "delivered f = f" by (simp add: delivered_def f_def)
  have ne: "f \<noteq> []" by (auto simp: f_def dest: arg_cong [of _ _ length])
  obtain r where "board_step hw (Line1 f) b = map_option (\<lambda>s. b\<lparr>brd_sys := s, brd_rx1 := r\<rparr>) (sys_step hw (Rx1 f) (brd_sys b))"
    using line1_sys [OF assms(1), of hw f] d ne by auto
  moreover have "sys_step hw (Rx1 f) (brd_sys b) = Some ((brd_sys b)\<lparr>sys_world :=
      w\<lparr>uart1_msg := \<lparr>rx_size = 8, messageFlag = YES, rx_data = f @ drop 8 (rx_data (uart1_msg w))\<rparr>\<rparr>\<rparr>)"
    using Uart1_input_effect [OF assms(3) [folded w_def], of f] assms(2) by (simp add: f_def w_def [symmetric])
  ultimately show ?thesis using assms(2) by (simp del: board_step.simps sys_step.simps)
qed

lemma request_handled:
  assumes heap: "rt_heap heap" "heap 0 2 = Some b0" "heap 1 7 = Some b1"
    and w: "quiet (w\<lparr>uart1_msg := m\<rparr>)" "mi_addr (module_info w) \<noteq> REGISTER_CODE"
    and msg: "messageFlag (uart1_msg w) = YES" "rx_size (uart1_msg w) = 8"
      "rx_data (uart1_msg w) = ctrl_request (mi_addr (module_info w)) h l @ rest"
  shows "\<exists>w'. uart_master heap (t, w) = Some (t\<lparr>connect_monitor := 0\<rparr>, w') \<and> quiet w' \<and>
    command w' = (mi_brand_code (module_info w), mk16 h l) \<and>
    ctrl_frame (module_info w') = ctrl_frame ((module_info w)\<lparr>mi_ctrl := mk16 h l\<rparr>) \<and>
    dev_out UART2 (trace w') = dev_out UART2 (trace w) \<and>
    dev_out UART1 (trace w') = dev_out UART1 (trace w) @ [ctrl_request (mi_addr (module_info w)) h l]"
proof -
  let ?f = "ctrl_request (mi_addr (module_info w)) h l"
  have "take 8 (?f @ rest) = seal [mi_addr (module_info w), 6, 0x01, 0x00, h, l]" "8 \<le> length (?f @ rest)"
    by (simp_all add: ctrl_request_def)
  from write_ctrl_effect [OF heap this]
  have an: "analyzeMasterData heap (?f @ rest) 8 w = Some (RT_EOK, w\<lparr>module_info := (module_info w)\<lparr>mi_ctrl := mk16 h l\<rparr>,
      trace := trace w @ master_msg ?f\<rparr>)" by simp
  have "(?f @ rest) ! 0 = mi_addr (module_info w)" by (simp add: nth_append)
  then show ?thesis
    using an msg w by (simp add: uart_master_def Let_def fw_defs)
      (simp add: quiet_def command_def ctrl_frame_def uart_registered_def upd_info_def fw_defs master_msg_def)
qed

text \<open>The pass that handles the request.\<close>

lemma request_pass:
  assumes heap: "rt_heap heap" "heap 0 2 = Some b0" "heap 1 7 = Some b1"
    and w: "quiet (w\<lparr>uart1_msg := m\<rparr>)" "mi_addr (module_info w) \<noteq> REGISTER_CODE"
    and msg: "messageFlag (uart1_msg w) = YES" "rx_size (uart1_msg w) = 8"
      "rx_data (uart1_msg w) = ctrl_request (mi_addr (module_info w)) h l @ rest"
    and new: "ctrl_pre t \<noteq> mk16 h l"
  defines "n \<equiv> if ut_Timer1sTouch (uart_timers t) = YES then 1 else 0 :: nat"
  shows "\<exists>t' w'. UartTaskEntry_loop hw heap io (t, w) = Some (t', w') \<and> quiet w' \<and> mi_ctrl (module_info w') = mk16 h l \<and>
    ut_time1S t' = ut_time1S (uart_timers t) \<and> left (t', w') = 3 - n \<and>
    ctrl_frame (module_info w') = ctrl_frame ((module_info w)\<lparr>mi_ctrl := mk16 h l\<rparr>) \<and>
    dev_out UART2 (trace w') = dev_out UART2 (trace w) @ replicate n (ctrl_frame ((module_info w)\<lparr>mi_ctrl := mk16 h l\<rparr>)) \<and>
    (\<exists>es. dev_out UART1 (trace w') = dev_out UART1 (trace w) @ ctrl_request (mi_addr (module_info w)) h l # es)"
proof -
  let ?t = "uart_timers t" let ?u = "?t\<lparr>connect_monitor := 0\<rparr>"
  have io: "uart_io io (?t, w) = (?t, w)" using w(1) by (simp add: uart_io_def quiet_def fw_defs)
  obtain w1 where w1: "uart_master heap (?t, w) = Some (?u, w1)" "quiet w1" "command w1 = (mi_brand_code (module_info w), mk16 h l)"
    "ctrl_frame (module_info w1) = ctrl_frame ((module_info w)\<lparr>mi_ctrl := mk16 h l\<rparr>)" "dev_out UART2 (trace w1) = dev_out UART2 (trace w)"
    "dev_out UART1 (trace w1) = dev_out UART1 (trace w) @ [ctrl_request (mi_addr (module_info w)) h l]"
    using request_handled [OF heap w msg, of ?t] by blast
  obtain t2 w2 where s2: "UartTaskEntry_loop hw heap io (t, w) = Some (t2, w2)" "sends n (?u, w1) (t2, w2)"
    using tail_sends [OF w1(2), of ?u hw] by (auto simp: UartTaskEntry_loop_def io w1(1) n_def)
  have "left (?u, w1) = 3"
    using new w1(3) by (simp add: left_def command_def uart_timers_def Let_def split: prod.split)
  moreover have "min n 3 = n" by (simp add: n_def)
  ultimately have w2: "quiet w2" "command w2 = command w1" "ut_time1S t2 = ut_time1S ?t" "left (t2, w2) = 3 - n"
      "dev_out UART2 (trace w2) = dev_out UART2 (trace w1) @ replicate n (ctrl_frame (module_info w1))"
      "\<exists>es. dev_out UART1 (trace w2) = dev_out UART1 (trace w1) @ es"
    using s2(2) unfolding sends_def by simp_all
  have "mi_ctrl (module_info w2) = mk16 h l" using w1(3) w2(2) by (simp add: command_def)
  with s2(1) w2 ctrl_frame_command [OF w2(2)] w1(4-6) show ?thesis by (intro exI [of _ t2] exI [of _ w2]) auto
qed

text \<open>
  C4: a command of the hub from end to end. A burst on the line that carries a write of a new control word, sent
  to a module that is registered, in match mode and has nothing else to do, whose heap has room for the two requests
  of the reply, is answered by its echo, and in the passes that follow, while no other message arrives, the code library is sent the command for that word once at every one-second
  round, three times in all and never again; nothing else is sent to it. A round ends with every 21st pass
  of the communication task.
\<close>

theorem hub_command_end_to_end:
  fixes h l :: u8
  assumes rx: "rx_idle (brd_rx1 b)" "msg_ok (uart1_msg (sys_world (brd_sys b)))"
    and task: "sys_uart (brd_sys b) = Some t" "unat (ut_time1S t) \<le> 20" "ctrl_pre t \<noteq> mk16 h l"
    and w: "quiet (sys_world (brd_sys b))" "mi_addr (module_info (sys_world (brd_sys b))) \<noteq> REGISTER_CODE"
    and heap: "heap_repr hp bs" "mem_heap hp 2 0 2 = Some b0" "mem_heap hp 2 1 7 = Some b1"
  defines "f \<equiv> ctrl_request (mi_addr (module_info (sys_world (brd_sys b)))) h l"
  shows "\<exists>b'. board_run hw (Line1 f # Comm_pass hp io # comm_passes ps) b = Some b' \<and>
    mi_ctrl (module_info (sys_world (brd_sys b'))) = mk16 h l \<and>
    (\<exists>es. dev_out UART1 (trace (sys_world (brd_sys b'))) = dev_out UART1 (trace (sys_world (brd_sys b))) @ f # es) \<and>
    dev_out UART2 (trace (sys_world (brd_sys b'))) = dev_out UART2 (trace (sys_world (brd_sys b))) @
      replicate (min 3 ((unat (ut_time1S t) + Suc (length ps)) div 21))
        (ctrl_frame ((module_info (sys_world (brd_sys b)))\<lparr>mi_ctrl := mk16 h l\<rparr>))"
proof -
  define w0 where "w0 = sys_world (brd_sys b)"
  let ?n = "if ut_Timer1sTouch (uart_timers t) = YES then 1 else 0 :: nat" let ?c = "ctrl_frame ((module_info w0)\<lparr>mi_ctrl := mk16 h l\<rparr>)"
  obtain ba where ba: "board_step hw (Line1 f) b = Some ba" "sys_uart (brd_sys ba) = Some t"
    "sys_world (brd_sys ba) = w0\<lparr>uart1_msg := \<lparr>rx_size = 8, messageFlag = YES, rx_data = f @ drop 8 (rx_data (uart1_msg w0))\<rparr>\<rparr>"
    using request_received [OF rx(1) task(1) rx(2), of hw h l] unfolding f_def w0_def by blast
  define wa where "wa = sys_world (brd_sys ba)"
  have wa: "messageFlag (uart1_msg wa) = YES" "rx_size (uart1_msg wa) = 8" "module_info wa = module_info w0" "trace wa = trace w0"
    "rx_data (uart1_msg wa) = ctrl_request (mi_addr (module_info wa)) h l @ drop 8 (rx_data (uart1_msg w0))" "wa\<lparr>uart1_msg := uart1_msg w0\<rparr> = w0"
    by (simp_all add: wa_def ba(3) f_def w0_def)
  obtain t2 w2 where w2: "UartTaskEntry_loop hw (mem_heap hp 2) io (t, wa) = Some (t2, w2)" "quiet w2" "mi_ctrl (module_info w2) = mk16 h l"
    "ut_time1S t2 = ut_time1S (uart_timers t)" "left (t2, w2) = 3 - ?n" "ctrl_frame (module_info w2) = ?c"
    "dev_out UART2 (trace w2) = dev_out UART2 (trace w0) @ replicate ?n ?c" "\<exists>es. dev_out UART1 (trace w2) = dev_out UART1 (trace w0) @ f # es"
    using request_pass [OF rt_heap_mem [OF heap(1)] heap(2,3) _ _ wa(1,2,5) task(3), of "uart1_msg w0" hw io] w wa(3,4,6)
    by (auto simp: w0_def [symmetric] f_def)
  define b2 where "b2 = ba\<lparr>brd_sys := (brd_sys ba)\<lparr>sys_world := w2, sys_uart := Some t2\<rparr>\<rparr>"
  have "first_request (uart1_msg wa) = 2" by (simp add: first_request_def wa(5) nth_append)
  then have b2: "sys_uart (brd_sys b2) = Some t2" "sys_world (brd_sys b2) = w2" "board_step hw (Comm_pass hp io) ba = Some b2"
    using w2(1) by (simp_all add: b2_def comm_step [OF ba(2)] wa_def del: board_step.simps)
  note tm = timers_1s [OF task(2)]
  have "unat (ut_time1S t2) \<le> 20" using w2(4) tm(1) by simp
  from quiet_passes [OF b2(1) _ this, of hw ps] w2(2) b2(2) obtain b' where
    b': "board_run hw (comm_passes ps) b2 = Some b'" "session (min (rounds t2 (length ps)) (3 - ?n)) ?c w2 b'"
    by (auto simp: w2(5,6))
  have "rounds t2 (length ps) = rounds (uart_timers t) (length ps)" by (simp add: rounds_def w2(4))
  with tm(2) [of "length ps"] have "rounds t (Suc (length ps)) = ?n + rounds t2 (length ps)" by simp
  then have cnt: "?n + min (rounds t2 (length ps)) (3 - ?n) = min 3 ((unat (ut_time1S t) + Suc (length ps)) div 21)"
    by (simp add: rounds_def min.commute)
  have "board_run hw (Line1 f # Comm_pass hp io # comm_passes ps) b = Some b'"
    using ba(1) b2(3) b'(1) by (simp del: board_step.simps)
  moreover have "mi_ctrl (module_info (sys_world (brd_sys b'))) = mk16 h l" using b'(2) w2(3) by (simp add: session_def command_def)
  moreover have "\<exists>es. dev_out UART1 (trace (sys_world (brd_sys b'))) = dev_out UART1 (trace w0) @ f # es"
    using b'(2) w2(8) by (auto simp: session_def)
  moreover have "dev_out UART2 (trace (sys_world (brd_sys b'))) = dev_out UART2 (trace w0) @
      replicate (min 3 ((unat (ut_time1S t) + Suc (length ps)) div 21)) ?c"
    using b'(2) w2(7) unfolding session_def cnt [symmetric] replicate_add by simp
  ultimately show ?thesis unfolding w0_def by blast
qed

text \<open>A module at rest, and the two blocks the small heap of the examples has for a write.\<close>

definition rest_board :: board where
  "rest_board = \<lparr>brd_sys = \<lparr>sys_world = test_world\<lparr>module_info := reset_info\<lparr>mi_addr := 1, mi_register_state := REGISTER_SUCESS\<rparr>\<rparr>,
     sys_uart = Some test_task, sys_oled = None, sys_button = None\<rparr>, brd_rx1 = rt_serial_open_rx, brd_rx2 = rt_serial_open_rx\<rparr>"

lemma demo_blocks: "\<exists>b0 b1. mem_heap demo_heap 2 0 2 = Some b0 \<and> mem_heap demo_heap 2 1 7 = Some b1"
proof -
  obtain h1 where h1: "rt_malloc 2 demo_heap = Some (Some 12, h1)" "heap_repr h1 [(12, True), (16, False)]"
    using rt_malloc_single [OF demo_heap_ok(1), of 2] by (auto simp: block_size_def RT_ALIGN_def add32_def taken_def)
  from demo_malloc2 [OF h1(2), of 7] obtain h2 where "rt_malloc 7 h1 = Some (Some 36, h2)"
    by (auto simp: block_size_def RT_ALIGN_def add32_def)
  with h1(1) show ?thesis by (simp add: mem_heap_def mem_block_def)
qed

theorem hub_command_end_to_end_witness:
  "\<exists>b'. board_run ref_hw (Line1 (ctrl_request 1 0xE5 0) # Comm_pass demo_heap 0 # comm_passes (replicate 100 (demo_heap, 0))) rest_board = Some b' \<and>
    (\<exists>es. dev_out UART1 (trace (sys_world (brd_sys b'))) = ctrl_request 1 0xE5 0 # es) \<and>
    dev_out UART2 (trace (sys_world (brd_sys b'))) = replicate 3 (ctrl_frame (reset_info\<lparr>mi_ctrl := mk16 0xE5 0\<rparr>))"
proof -
  obtain b0 b1 where m: "mem_heap demo_heap 2 0 2 = Some b0" "mem_heap demo_heap 2 1 7 = Some b1" using demo_blocks by blast
  have w: "rx_idle (brd_rx1 rest_board)" "msg_ok (uart1_msg (sys_world (brd_sys rest_board)))" "sys_uart (brd_sys rest_board) = Some test_task"
    "ut_time1S test_task = 0" "ctrl_pre test_task \<noteq> mk16 0xE5 0" "quiet (sys_world (brd_sys rest_board))"
    "mi_addr (module_info (sys_world (brd_sys rest_board))) = 1" "trace (sys_world (brd_sys rest_board)) = []"
    by (simp_all add: rest_board_def rx_idle_open test_world_def reset_world_def reset_msg_def msg_ok_def test_task_def quiet_def
        reset_info_def UartTaskEntry_start_def Let_def mk16_def)
  have "ctrl_frame ((module_info (sys_world (brd_sys rest_board)))\<lparr>mi_ctrl := mk16 0xE5 0\<rparr>) = ctrl_frame (reset_info\<lparr>mi_ctrl := mk16 0xE5 0\<rparr>)"
    by (simp add: rest_board_def ctrl_frame_def)
  with hub_command_end_to_end [OF w(1-3) _ w(5,6) _ demo_heap_ok(1) m, of ref_hw 0 "replicate 100 (demo_heap, 0)"] w(4,7,8)
  show ?thesis by auto
qed

section \<open>A silent hub\<close>

text \<open>What the supervision of the hub depends on.\<close>

definition hub_view :: "uart_task \<times> world \<Rightarrow> (u8 \<times> u8 \<times> u8 \<times> u8) \<times> (u8 \<times> u16 \<times> u8) \<times> u8 \<times> u8" where
  "hub_view = (\<lambda>(t, w).
     ((messageFlag (uart1_msg w), messageFlag (uart2_msg w), event (infrared_event w), mi_register_state (module_info w)),
      (startFlag t, ut_time1S t, ut_Timer1sTouch t), connect_monitor t, mater_envent w))"

text \<open>The module is registered, no message is waiting and nothing is to be sent to the code library.\<close>

definition unattended :: "world \<Rightarrow> bool" where
  "unattended w \<longleftrightarrow> messageFlag (uart1_msg w) = NO \<and> messageFlag (uart2_msg w) = NO \<and>
     event (infrared_event w) = EVENT_NULL \<and> mi_register_state (module_info w) = REGISTER_SUCESS"

lemma hub_view_sections:
  "hub_view (uart_100ms s) = hub_view s" "hub_view (uart_1s_ctrl s) = hub_view s" "hub_view (uart_10s s) = hub_view s"
  "hub_view (t, uart_1s_led w) = hub_view (t, w)" "hub_view (t, task_mdelay n w) = hub_view (t, w)"
  "mi_register_state (module_info w) = REGISTER_SUCESS \<Longrightarrow> hub_view (uart_5s (t, w)) = hub_view (t, w)"
  by (cases s, auto simp: hub_view_def uart_100ms_def uart_1s_ctrl_def uart_10s_def uart_1s_led_def uart_5s_def sendCtrlCommandToCodeData_def
      sendlearnOn_def sendlearnOff_def set_ac_def sendRegisterToMaster_def sendMessageToMaster_def LED_ON_def LED_TEST_def Let_def fw_defs io_defs)+

lemma hub_view_persist: "\<exists>s'. uart_persist hw s = Some s' \<and> hub_view s' = hub_view s"
proof (cases s)
  case (Pair t w)
  obtain fl where "setDataToFlah hw DATA_BLOCK_START (info_bytes (module_info w)) (flash_mem w) = Some fl"
    using setDataToFlah_total by (metis length_info_bytes)
  then show ?thesis by (auto simp: Pair uart_persist_def getModuleInfo_def Let_def hub_view_def)
qed

text \<open>What a one-second round does to the monitor and to the pending event.\<close>

definition hub_round :: "bool \<Rightarrow> u8 \<times> u8 \<Rightarrow> u8 \<times> u8" where
  "hub_round b = (\<lambda>(c, e). if b then if c < 30 then (c + 1, e) else (c, EVENT_REGISTER) else (c, e))"

lemma hub_view_1s:
  assumes "hub_view s = ((m1, m2, EVENT_NULL, r), (YES, x, y), ce)"
  shows "hub_view (uart_1s s) = ((m1, m2, EVENT_NULL, r), (YES, x, y), hub_round (y = YES) ce)"
proof (cases s)
  case (Pair t w)
  define t0 where "t0 = t\<lparr>ut_event := getInfraredEvent w, ut_master_event := getMasterEvent w\<rparr>"
  have ac: "uart_1s_ac (t0, w) = (t0, w)" using assms by (simp add: Pair hub_view_def uart_1s_ac_def t0_def Let_def fw_defs)
  have "hub_view (t0, uart_1s_led w) = hub_view s" by (simp add: hub_view_sections) (simp add: Pair hub_view_def t0_def)
  then have "hub_view (uart_1s_hub (t0, uart_1s_led w)) = ((m1, m2, EVENT_NULL, r), (YES, x, y), hub_round True ce)"
    using assms by (auto simp: hub_view_def uart_1s_hub_def hub_round_def Let_def fw_defs)
  moreover have "ut_Timer1sTouch t = y" using assms by (simp add: Pair hub_view_def)
  moreover have "uart_1s s = uart_1s_ctrl (uart_1s_hub (t0, uart_1s_led w))" if "ut_Timer1sTouch t = YES"
    using that by (simp add: Pair uart_1s_def t0_def [symmetric] ac Let_def split: prod.split)
  moreover have "uart_1s s = s" if "ut_Timer1sTouch t \<noteq> YES" using that by (simp add: Pair uart_1s_def)
  ultimately show ?thesis using assms by (cases "y = YES") (simp_all add: hub_view_sections hub_round_def split_beta)
qed

lemma unattended_pass:
  assumes "unattended w" "startFlag t = YES"
  shows "\<exists>t' w'. UartTaskEntry_loop hw heap io (t, w) = Some (t', w') \<and> unattended w' \<and> startFlag t' = YES \<and>
    ut_time1S t' = ut_time1S (uart_timers t) \<and>
    (connect_monitor t', mater_envent w') = hub_round (ut_Timer1sTouch (uart_timers t) = YES) (connect_monitor t, mater_envent w)"
proof -
  let ?t = "uart_timers t"
  let ?v = "\<lambda>ce. ((NO, NO, EVENT_NULL, REGISTER_SUCESS), (YES, ut_time1S ?t, ut_Timer1sTouch ?t), ce)"
  have t: "startFlag ?t = YES" "connect_monitor ?t = connect_monitor t"
    using assms(2) by (simp_all add: uart_timers_def Let_def split_beta)
  have v0: "hub_view (?t, w) = ?v (connect_monitor t, mater_envent w)" using assms(1) t by (simp add: hub_view_def unattended_def)
  have "UartTaskEntry_loop hw heap io (t, w) = Option.bind (uart_persist hw (?t, w)) (\<lambda>s. Some (uart_periodic s))"
    using assms(1) by (simp add: UartTaskEntry_loop_def uart_io_def uart_master_def uart_ac_def unattended_def fw_defs Let_def)
  moreover obtain s1 where s1: "uart_persist hw (?t, w) = Some s1" "hub_view s1 = hub_view (?t, w)" using hub_view_persist by blast
  ultimately have l: "UartTaskEntry_loop hw heap io (t, w) = Some (uart_periodic s1)" by simp
  have "hub_view (uart_100ms s1) = ?v (connect_monitor t, mater_envent w)" by (simp only: hub_view_sections s1(2) v0)
  from hub_view_1s [OF this] have v2: "hub_view (uart_1s (uart_100ms s1)) =
      ?v (hub_round (ut_Timer1sTouch ?t = YES) (connect_monitor t, mater_envent w))" .
  obtain t2 w2 where s2: "uart_1s (uart_100ms s1) = (t2, w2)" by fastforce
  have "mi_register_state (module_info w2) = REGISTER_SUCESS" using v2 by (simp add: s2 hub_view_def)
  then have "hub_view (uart_10s (uart_5s (t2, w2))) = hub_view (t2, w2)" by (simp only: hub_view_sections)
  moreover obtain t4 w4 where s4: "uart_10s (uart_5s (t2, w2)) = (t4, w4)" by fastforce
  ultimately have "hub_view (t4, task_mdelay (unat UART_PERIOD) w4) =
      ?v (hub_round (ut_Timer1sTouch ?t = YES) (connect_monitor t, mater_envent w))" using v2 by (simp add: hub_view_sections s2)
  moreover have "uart_periodic s1 = (t4, task_mdelay (unat UART_PERIOD) w4)" by (simp add: uart_periodic_def s2 s4)
  ultimately show ?thesis using l
    by (intro exI [of _ t4] exI [of _ "task_mdelay (unat UART_PERIOD) w4"]) (simp add: hub_view_def unattended_def)
qed

text \<open>How far the monitor is after \<open>n\<close> rounds.\<close>

lemma hub_round_pending:
  assumes "unat c \<le> 30" "hub_round b (c, e) = (c', e')"
  shows "unat c' \<le> 30" "e' = (if b \<and> unat c = 30 then EVENT_REGISTER else e)" "unat c' = min 30 (unat c + (if b then 1 else 0))"
proof -
  have "unat (c + 1) = unat c + 1" if "c < 30" using that by (simp add: word_less_nat_alt unat_plus_if')
  then show "unat c' \<le> 30" "e' = (if b \<and> unat c = 30 then EVENT_REGISTER else e)" "unat c' = min 30 (unat c + (if b then 1 else 0))"
    using assms by (auto simp: hub_round_def word_less_nat_alt split: if_splits)
qed

lemma unattended_passes:
  assumes "sys_uart (brd_sys b) = Some t" "unattended (sys_world (brd_sys b))" "startFlag t = YES"
    "unat (ut_time1S t) \<le> 20" "unat (connect_monitor t) \<le> 30"
  shows "\<exists>b'. board_run hw (comm_passes ps) b = Some b' \<and> mater_envent (sys_world (brd_sys b')) =
    (if 30 < unat (connect_monitor t) + rounds t (length ps) then EVENT_REGISTER else mater_envent (sys_world (brd_sys b)))"
  using assms
proof (induction ps arbitrary: b t)
  case Nil
  then show ?case by (simp add: comm_passes_def rounds_def)
next
  case (Cons q ps)
  obtain h io where q: "q = (h, io)" by fastforce
  let ?w = "sys_world (brd_sys b)" let ?f = "ut_Timer1sTouch (uart_timers t) = YES"
  note tm = timers_1s [OF Cons.prems(4)]
  obtain t1 w1 where 1: "UartTaskEntry_loop hw (mem_heap h (first_request (uart1_msg ?w))) io (t, ?w) = Some (t1, w1)" "unattended w1"
    "startFlag t1 = YES" "ut_time1S t1 = ut_time1S (uart_timers t)"
    "hub_round ?f (connect_monitor t, mater_envent ?w) = (connect_monitor t1, mater_envent w1)"
    using unattended_pass [OF Cons.prems(2,3), of hw _ io] by metis
  note r = hub_round_pending [OF Cons.prems(5) 1(5)]
  define b1 where "b1 = b\<lparr>brd_sys := (brd_sys b)\<lparr>sys_world := w1, sys_uart := Some t1\<rparr>\<rparr>"
  have "board_step hw (Comm_pass h io) b = Some b1" unfolding comm_step [OF Cons.prems(1)] 1(1) by (simp add: b1_def)
  moreover have "sys_uart (brd_sys b1) = Some t1" "sys_world (brd_sys b1) = w1" by (simp_all add: b1_def)
  moreover have "unat (ut_time1S t1) \<le> 20" using 1(4) tm(1) by simp
  ultimately obtain b' where b': "board_run hw (comm_passes (q # ps)) b = Some b'" "mater_envent (sys_world (brd_sys b')) =
      (if 30 < unat (connect_monitor t1) + rounds t1 (length ps) then EVENT_REGISTER else mater_envent w1)"
    using Cons.IH [of b1 t1] 1(2,3) r(1) by (auto simp: comm_passes_def q simp del: board_step.simps)
  have "rounds t1 (length ps) = rounds (uart_timers t) (length ps)" by (simp add: rounds_def 1(4))
  with tm(2) [of "length ps"] have "rounds t (length (q # ps)) = (if ?f then 1 else 0) + rounds t1 (length ps)" by simp
  then show ?case using b' r(2,3) Cons.prems(5) by (intro exI [of _ b']) auto
qed

text \<open>
  C36: a silent hub is noticed. While a registered module gets no message and has nothing to send to the code library,
  and its first registration request is out, the passes of the communication task leave the pending event of the hub
  alone until the connection monitor has counted 30 one-second rounds; with the next round the registration event
  becomes pending, and it stays so. A round ends with every 21st pass; the monitor starts at zero.
\<close>

theorem hub_silence_reregisters:
  assumes "sys_uart (brd_sys b) = Some t" "unattended (sys_world (brd_sys b))" "startFlag t = YES"
    and "unat (ut_time1S t) \<le> 20" "connect_monitor t = 0" "mater_envent (sys_world (brd_sys b)) = EVENT_CLEAN"
  shows "\<exists>b'. board_run hw (comm_passes ps) b = Some b' \<and> mater_envent (sys_world (brd_sys b')) =
    (if (unat (ut_time1S t) + length ps) div 21 \<le> 30 then EVENT_CLEAN else EVENT_REGISTER)"
  using unattended_passes [OF assms(1-4), of hw ps] assms(5,6) by (auto simp: rounds_def)

theorem hub_silence_reregisters_witness:
  "\<exists>b. board_run ref_hw (comm_passes (replicate 651 (demo_heap, 0)))
       (rest_board\<lparr>brd_sys := (brd_sys rest_board)\<lparr>sys_uart := Some (test_task\<lparr>startFlag := YES\<rparr>)\<rparr>\<rparr>) = Some b \<and>
     mater_envent (sys_world (brd_sys b)) = EVENT_REGISTER"
proof -
  let ?t = "test_task\<lparr>startFlag := YES\<rparr>"
  have w: "unattended (sys_world (brd_sys rest_board))" "mater_envent (sys_world (brd_sys rest_board)) = EVENT_CLEAN"
    "ut_time1S ?t = 0" "connect_monitor ?t = 0"
    by (simp_all add: rest_board_def unattended_def test_world_def reset_world_def reset_msg_def reset_info_def test_task_def
        UartTaskEntry_start_def Let_def)
  with hub_silence_reregisters [of "rest_board\<lparr>brd_sys := (brd_sys rest_board)\<lparr>sys_uart := Some ?t\<rparr>\<rparr>" ?t ref_hw "replicate 651 (demo_heap, 0)"]
  show ?thesis by simp
qed

end
