(* ===== verification/Rt_Format.thy ===== *)
theory Rt_Format
  imports Rt_Kservice
begin

text \<open>
  Formatted output of the kernel, \<^verbatim>\<open>rt-thread/src/kservice.c\<close>: \<open>print_number\<close>, \<open>rt_vsnprintf\<close> and what is built on
  them. The configuration has precisions (\<open>RT_PRINTF_PRECISION\<close>), no
  \<open>long long\<close> and no prefix for \<open>#\<close>.

  The code writes every character with the same two statements, \<^verbatim>\<open>if (buf < end) *buf = c; ++ buf;\<close>. The model
  of the routines takes them as an argument \<open>put\<close>, so the same definitions describe the text (\<open>put\<close> appends to
  a list) and the buffer (\<open>put_to\<close>): \<open>vformat_eq\<close> says that every \<open>put\<close> is handed the same text.

  A format and a string argument are the bytes up to the terminator. Counters are integers: one that left the
  range of \<open>int\<close> would need a text of \<open>2^31\<close> characters, for which \<open>rt_vsnprintf\<close> has no result (\<open>None\<close>). An
  argument of the wrong kind, a missing one and an overflow in \<open>skip_atoi\<close> or in \<open>num = -num\<close> are \<open>None\<close> too.
\<close>

definition chars :: "string \<Rightarrow> bytes" where
  "chars s = map of_char s"

lemma length_chars [simp]: "length (chars s) = length s"
  by (simp add: chars_def)

text \<open>An argument: an integer, a character or a pointer to anything (32 bits); or a string, \<open>None\<close> for a null pointer.\<close>

datatype varg = Num u32 | Str "bytes option"

section \<open>Numbers\<close>

definition ISDIGIT :: "u8 \<Rightarrow> bool" where
  "ISDIGIT c \<longleftrightarrow> (ucast c - 48 :: u32) < 10"

definition divide_num :: "u32 \<Rightarrow> nat \<Rightarrow> nat \<times> u32" where
  "divide_num n base = (if base = 10 then (unat (n mod 10), n div 10) else (unat (n mod 16), n div 16))"

fun skip_atoi :: "int \<Rightarrow> bytes \<Rightarrow> (int \<times> bytes) option" where
  "skip_atoi i [] = Some (i, [])"
| "skip_atoi i (c # s) =
     (if ISDIGIT c then if i * 10 + uint c < 2 ^ 31 then skip_atoi (i * 10 + uint c - 48) s else None
      else Some (i, c # s))"

definition ZEROPAD :: u8 where "ZEROPAD = push_bit 0 1"
definition SIGN :: u8 where "SIGN = push_bit 1 1"
definition PLUS :: u8 where "PLUS = push_bit 2 1"
definition SPACE :: u8 where "SPACE = push_bit 3 1"
definition LEFT :: u8 where "LEFT = push_bit 4 1"
definition SPECIAL :: u8 where "SPECIAL = push_bit 5 1"
definition LARGE :: u8 where "LARGE = push_bit 6 1"

abbreviation has :: "u8 \<Rightarrow> u8 \<Rightarrow> bool" where
  "has flags f \<equiv> flags AND f \<noteq> 0"

definition small_digits :: bytes where "small_digits = chars ''0123456789abcdef''"
definition large_digits :: bytes where "large_digits = chars ''0123456789ABCDEF''"

text \<open>\<^verbatim>\<open>while (lim < n--)\<close> and \<^verbatim>\<open>while (--n > 0)\<close> around \<^verbatim>\<open>put\<close>, with the value the counter is left with.\<close>

function fill :: "(u8 \<Rightarrow> 's \<Rightarrow> 's) \<Rightarrow> u8 \<Rightarrow> int \<Rightarrow> int \<Rightarrow> 's \<Rightarrow> int \<times> 's" where
  "fill put c lim n s = (if lim < n then fill put c lim (n - 1) (put c s) else (n - 1, s))"
  by pat_completeness auto
termination by (relation "measure (\<lambda>(put, c, lim, n, s). nat (n - lim))") auto

function fill_pre :: "(u8 \<Rightarrow> 's \<Rightarrow> 's) \<Rightarrow> u8 \<Rightarrow> int \<Rightarrow> 's \<Rightarrow> int \<times> 's" where
  "fill_pre put c n s = (if n - 1 > 0 then fill_pre put c (n - 1) (put c s) else (n - 1, s))"
  by pat_completeness auto
termination by (relation "measure (\<lambda>(put, c, n, s). nat n)") auto

text \<open>\<^verbatim>\<open>while (num != 0) tmp[i++] = digits[divide(&num, base)]\<close>; \<open>tmp\<close> has 16 characters.\<close>

lemma divide_num_less: "n \<noteq> 0 \<Longrightarrow> unat (snd (divide_num n base)) < unat n"
  by (auto simp: divide_num_def unat_div_distrib unat_gt_0)

function digit_loop :: "bytes \<Rightarrow> nat \<Rightarrow> u32 \<Rightarrow> bytes \<Rightarrow> bytes option" where
  "digit_loop digits base num tmp =
     (if num = 0 then Some tmp
      else if length tmp < 16
      then digit_loop digits base (snd (divide_num num base)) (tmp @ [digits ! fst (divide_num num base)])
      else None)"
  by pat_completeness auto
termination by (relation "measure (\<lambda>(digits, base, num, tmp). unat num)") (auto simp: divide_num_less)

declare fill.simps [simp del] fill_pre.simps [simp del] digit_loop.simps [simp del]

definition print_number ::
  "(u8 \<Rightarrow> 's \<Rightarrow> 's) \<Rightarrow> u32 \<Rightarrow> nat \<Rightarrow> int \<Rightarrow> int \<Rightarrow> u8 \<Rightarrow> 's \<Rightarrow> 's option" where
  "print_number put num base s precision type st =
     (let precision_bak = precision;
          digits = if has type LARGE then large_digits else small_digits;
          type = if has type LEFT then type AND NOT ZEROPAD else type;
          c = if has type ZEROPAD then of_char CHR ''0'' else of_char CHR '' '';
          negative = has type SIGN \<and> sint num < 0;
          sign = if has type SIGN
                 then if sint num < 0 then of_char CHR ''-''
                      else if has type PLUS then of_char CHR ''+''
                      else if has type SPACE then of_char CHR '' '' else 0
                 else 0
      in do {
        num \<leftarrow> (if negative then if sint num = - (2 ^ 31) then None else Some (- num) else Some num);
        tmp \<leftarrow> (if num = 0 then Some [of_char CHR ''0''] else digit_loop digits base num []);
        let i = int (length tmp);
        let precision = (if i > precision then i else precision);
        let size = s - precision;
        let (size, st) = (if has type (ZEROPAD OR LEFT) then (size, st)
                          else fill put (of_char CHR '' '') 0 (if sign \<noteq> 0 \<and> size > 0 then size - 1 else size) st);
        let (size, st) = (if sign \<noteq> 0 then (size - 1, put sign st) else (size, st));
        let (size, st) = (if has type LEFT then (size, st) else fill put c 0 size st);
        let st = snd (fill put (of_char CHR ''0'') i precision st);
        let st = (if precision_bak \<noteq> 0 then fold put (rev tmp) st else st);
        Some (snd (fill put (of_char CHR '' '') 0 size st))
      })"

section \<open>One conversion\<close>

text \<open>\<open>*fmt\<close>: the next character of the format, 0 at its end.\<close>

definition peek :: "bytes \<Rightarrow> u8" where
  "peek fmt = (case fmt of [] \<Rightarrow> 0 | c # _ \<Rightarrow> c)"

fun get_flags :: "bytes \<Rightarrow> u8 \<Rightarrow> u8 \<times> bytes" where
  "get_flags [] flags = (flags, [])"
| "get_flags (c # fmt) flags =
     (if c = of_char CHR ''-'' then get_flags fmt (flags OR LEFT)
      else if c = of_char CHR ''+'' then get_flags fmt (flags OR PLUS)
      else if c = of_char CHR '' '' then get_flags fmt (flags OR SPACE)
      else if c = of_char CHR ''#'' then get_flags fmt (flags OR SPECIAL)
      else if c = of_char CHR ''0'' then get_flags fmt (flags OR ZEROPAD)
      else (flags, c # fmt))"

definition get_width :: "bytes \<Rightarrow> varg list \<Rightarrow> u8 \<Rightarrow> (int \<times> u8 \<times> bytes \<times> varg list) option" where
  "get_width fmt args flags =
     (if ISDIGIT (peek fmt) then map_option (\<lambda>(n, fmt). (n, flags, fmt, args)) (skip_atoi 0 fmt)
      else if peek fmt = of_char CHR ''*'' then
        case args of
          Num n # args \<Rightarrow>
            if sint n < 0 then if sint n = - (2 ^ 31) then None else Some (- sint n, flags OR LEFT, tl fmt, args)
            else Some (sint n, flags, tl fmt, args)
        | _ \<Rightarrow> None
      else Some (-1, flags, fmt, args))"

definition get_precision :: "bytes \<Rightarrow> varg list \<Rightarrow> (int \<times> bytes \<times> varg list) option" where
  "get_precision fmt args =
     (if peek fmt = of_char CHR ''.'' then
        let fmt = tl fmt in
        if ISDIGIT (peek fmt) then map_option (\<lambda>(n, fmt). (if n < 0 then 0 else n, fmt, args)) (skip_atoi 0 fmt)
        else if peek fmt = of_char CHR ''*'' then
          case args of
            Num n # args \<Rightarrow> Some (if sint n < 0 then 0 else sint n, tl fmt, args)
          | _ \<Rightarrow> None
        else Some (0, fmt, args)
      else Some (-1, fmt, args))"

definition get_qualifier :: "bytes \<Rightarrow> u8 \<times> bytes" where
  "get_qualifier fmt =
     (if peek fmt = of_char CHR ''h'' \<or> peek fmt = of_char CHR ''l'' then (peek fmt, tl fmt) else (0, fmt))"

definition put_char_field :: "(u8 \<Rightarrow> 's \<Rightarrow> 's) \<Rightarrow> u8 \<Rightarrow> int \<Rightarrow> u32 \<Rightarrow> 's \<Rightarrow> 's" where
  "put_char_field put flags field_width n st =
     (let (field_width, st) = if has flags LEFT then (field_width, st)
                              else fill_pre put (of_char CHR '' '') field_width st
      in snd (fill_pre put (of_char CHR '' '') field_width (put (ucast n) st)))"

definition put_string_field :: "(u8 \<Rightarrow> 's \<Rightarrow> 's) \<Rightarrow> u8 \<Rightarrow> int \<Rightarrow> int \<Rightarrow> bytes option \<Rightarrow> 's \<Rightarrow> 's" where
  "put_string_field put flags field_width precision arg st =
     (let s = takeWhile (\<lambda>c. c \<noteq> 0) (case arg of None \<Rightarrow> chars ''(NULL)'' | Some s \<Rightarrow> s);
          len = if precision > 0 \<and> int (length s) > precision then precision else int (length s);
          (field_width, st) = if has flags LEFT then (field_width, st)
                              else fill put (of_char CHR '' '') len field_width st;
          st = fold put (take (nat len) s) st
      in snd (fill put (of_char CHR '' '') len field_width st))"

text \<open>The integer of a conversion: cut to 16 bits after \<open>h\<close> and extended by its sign for a signed conversion.\<close>

definition get_num :: "u8 \<Rightarrow> u8 \<Rightarrow> u32 \<Rightarrow> u32" where
  "get_num qualifier flags n =
     (if qualifier = of_char CHR ''h''
      then if has flags SIGN then signed_take_bit 15 n else take_bit 16 n
      else n)"

text \<open>Base and flags of an integer conversion.\<close>

definition int_conversion :: "u8 \<Rightarrow> u8 \<Rightarrow> (nat \<times> u8) option" where
  "int_conversion c flags =
     (if c = of_char CHR ''o'' then Some (8, flags)
      else if c = of_char CHR ''X'' then Some (16, flags OR LARGE)
      else if c = of_char CHR ''x'' then Some (16, flags)
      else if c = of_char CHR ''d'' \<or> c = of_char CHR ''i'' then Some (10, flags OR SIGN)
      else if c = of_char CHR ''u'' then Some (10, flags)
      else None)"

text \<open>The body of the loop of \<open>rt_vsnprintf\<close> from the character after \<open>%\<close>: the rest of the format, of the arguments,
  and the output.\<close>

definition conversion ::
  "(u8 \<Rightarrow> 's \<Rightarrow> 's) \<Rightarrow> bytes \<Rightarrow> varg list \<Rightarrow> 's \<Rightarrow> (bytes \<times> varg list \<times> 's) option" where
  "conversion put fmt args st =
     (let (flags, fmt) = get_flags fmt 0 in do {
        (field_width, flags, fmt, args) \<leftarrow> get_width fmt args flags;
        (precision, fmt, args) \<leftarrow> get_precision fmt args;
        let (qualifier, fmt) = get_qualifier fmt;
        let c = peek fmt;
        if c = of_char CHR ''c'' then
          (case args of
             Num n # args \<Rightarrow> Some (tl fmt, args, put_char_field put flags field_width n st)
           | _ \<Rightarrow> None)
        else if c = of_char CHR ''s'' then
          (case args of
             Str s # args \<Rightarrow> Some (tl fmt, args, put_string_field put flags field_width precision s st)
           | _ \<Rightarrow> None)
        else if c = of_char CHR ''p'' then
          (case args of
             Num n # args \<Rightarrow>
               map_option (\<lambda>st. (tl fmt, args, st))
                 (if field_width = -1 then print_number put n 16 8 precision (flags OR ZEROPAD) st
                  else print_number put n 16 field_width precision flags st)
           | _ \<Rightarrow> None)
        else if c = of_char CHR ''%'' then Some (tl fmt, args, put (of_char CHR ''%'') st)
        else case int_conversion c flags of
          None \<Rightarrow>
            (if c \<noteq> 0 then Some (tl fmt, args, put c (put (of_char CHR ''%'') st))
             else Some (fmt, args, put (of_char CHR ''%'') st))
        | Some (base, flags) \<Rightarrow>
            (case args of
               Num n # args \<Rightarrow>
                 map_option (\<lambda>st. (tl fmt, args, st))
                   (print_number put (get_num qualifier flags n) base field_width precision flags st)
             | _ \<Rightarrow> None)
      })"

lemma get_flags_length: "length (snd (get_flags fmt flags)) \<le> length fmt"
  by (induction fmt flags rule: get_flags.induct) auto

lemma skip_atoi_length: "skip_atoi i s = Some (n, s') \<Longrightarrow> length s' \<le> length s"
  by (induction i s rule: skip_atoi.induct) (auto split: if_splits)

lemma get_width_length: "get_width fmt args flags = Some (w, fl, fmt', as) \<Longrightarrow> length fmt' \<le> length fmt"
  by (auto simp: get_width_def split: if_splits list.splits varg.splits dest: skip_atoi_length)

lemma get_precision_length: "get_precision fmt args = Some (p, fmt', as) \<Longrightarrow> length fmt' \<le> length fmt"
  using le_trans [OF skip_atoi_length, of _ "tl fmt" _ _ "length fmt"]
  by (fastforce simp: get_precision_def Let_def split: if_splits list.splits varg.splits)

lemma conversion_length: "conversion put fmt args st = Some (fmt', as, st') \<Longrightarrow> length fmt' \<le> length fmt"
proof -
  assume a: "conversion put fmt args st = Some (fmt', as, st')"
  obtain fl f1 where f1: "get_flags fmt 0 = (fl, f1)" by (cases "get_flags fmt 0")
  from a obtain w fl2 f2 a2 where f2: "get_width f1 args fl = Some (w, fl2, f2, a2)"
    by (auto simp: conversion_def f1 bind_eq_Some_conv)
  from a obtain p f3 a3 where f3: "get_precision f2 a2 = Some (p, f3, a3)"
    by (auto simp: conversion_def f1 f2 bind_eq_Some_conv)
  obtain q f4 where f4: "get_qualifier f3 = (q, f4)" by (cases "get_qualifier f3")
  from a have "fmt' = tl f4 \<or> fmt' = f4"
    by (auto simp: conversion_def f1 f2 f3 f4 Let_def split: if_splits list.splits varg.splits option.splits prod.splits)
  moreover have "length f4 \<le> length f3" using f4 by (auto simp: get_qualifier_def split: if_splits)
  ultimately show ?thesis
    using get_flags_length [of fmt 0] get_width_length [OF f2] get_precision_length [OF f3] f1 by auto
qed

section \<open>The loop and the buffer\<close>

function vformat :: "(u8 \<Rightarrow> 's \<Rightarrow> 's) \<Rightarrow> bytes \<Rightarrow> varg list \<Rightarrow> 's \<Rightarrow> 's option" where
  "vformat put fmt args st =
     (if peek fmt = 0 then Some st
      else if peek fmt \<noteq> of_char CHR ''%'' then vformat put (tl fmt) args (put (peek fmt) st)
      else case conversion put (tl fmt) args st of
             None \<Rightarrow> None
           | Some (fmt, args, st) \<Rightarrow> vformat put fmt args st)"
  by pat_completeness auto
termination
  by (relation "measure (\<lambda>(put, fmt, args, st). length fmt)")
    (auto simp: peek_def split: list.splits dest!: conversion_length)

declare vformat.simps [simp del]

text \<open>\<^verbatim>\<open>if (str < end) *str = c; ++ str;\<close>\<close>

definition put_to :: "nat \<Rightarrow> u8 \<Rightarrow> nat \<times> mem \<Rightarrow> nat \<times> mem" where
  "put_to e c = (\<lambda>(str, m). (str + 1, if str < e then m(str := c) else m))"

definition rt_vsnprintf :: "nat \<Rightarrow> nat \<Rightarrow> bytes \<Rightarrow> varg list \<Rightarrow> mem \<Rightarrow> (nat \<times> mem) option" where
  "rt_vsnprintf buf sz fmt args m =
     (let e = (buf + sz) mod 2 ^ 32;
          (e, sz) = if e < buf then (2 ^ 32 - 1, 2 ^ 32 - 1 - buf) else (e, sz)
      in case vformat (put_to e) fmt args (buf, m) of
           None \<Rightarrow> None
         | Some (str, m) \<Rightarrow>
             if str - buf < 2 ^ 31 \<and> str < 2 ^ 32
             then Some (str - buf, if sz > 0 then if str < e then m(str := 0) else m(e - 1 := 0) else m)
             else None)"

definition rt_snprintf :: "nat \<Rightarrow> nat \<Rightarrow> bytes \<Rightarrow> varg list \<Rightarrow> mem \<Rightarrow> (nat \<times> mem) option" where
  "rt_snprintf buf sz fmt args m = rt_vsnprintf buf sz fmt args m"

definition rt_vsprintf :: "nat \<Rightarrow> bytes \<Rightarrow> varg list \<Rightarrow> mem \<Rightarrow> (nat \<times> mem) option" where
  "rt_vsprintf buf format arg_ptr m = rt_vsnprintf buf (2 ^ 32 - 1) format arg_ptr m"

definition rt_sprintf :: "nat \<Rightarrow> bytes \<Rightarrow> varg list \<Rightarrow> mem \<Rightarrow> (nat \<times> mem) option" where
  "rt_sprintf buf format args m = rt_vsprintf buf format args m"

section \<open>The text of a number\<close>

subsection \<open>Flags\<close>

lemma has_bit:
  "has x ZEROPAD \<longleftrightarrow> bit x 0" "has x SIGN \<longleftrightarrow> bit x 1" "has x PLUS \<longleftrightarrow> bit x 2" "has x SPACE \<longleftrightarrow> bit x 3"
  "has x LEFT \<longleftrightarrow> bit x 4" "has x LARGE \<longleftrightarrow> bit x 6"
  using and_exp_eq_0_iff_not_bit [of x 0] and_exp_eq_0_iff_not_bit [of x 1] and_exp_eq_0_iff_not_bit [of x 2]
    and_exp_eq_0_iff_not_bit [of x 3] and_exp_eq_0_iff_not_bit [of x 4] and_exp_eq_0_iff_not_bit [of x 6]
  by (simp_all add: ZEROPAD_def SIGN_def PLUS_def SPACE_def LEFT_def LARGE_def)

lemma has_pad: "has x (ZEROPAD OR LEFT) \<longleftrightarrow> has x ZEROPAD \<or> has x LEFT"
  by (simp add: bit.conj_disj_distrib or_eq_0_iff)

lemma drop_zeropad:
  "(x AND NOT ZEROPAD) AND ZEROPAD = 0" "(x AND NOT ZEROPAD) AND LEFT = x AND LEFT" "(x AND NOT ZEROPAD) AND SIGN = x AND SIGN"
  "(x AND NOT ZEROPAD) AND PLUS = x AND PLUS" "(x AND NOT ZEROPAD) AND SPACE = x AND SPACE"
  by (rule bit_word_eqI; auto simp: bit_simps ZEROPAD_def SIGN_def PLUS_def SPACE_def LEFT_def bit_numeral_rec split: nat.splits)+

subsection \<open>Loops\<close>

lemma fill_eq: "fill put c lim n s = (min lim n - 1, fold put (replicate (nat (n - lim)) c) s)"
proof (induction "nat (n - lim)" arbitrary: n s)
  case 0
  then show ?case by (simp add: fill.simps min_def)
next
  case (Suc k)
  have "nat (n - lim) = Suc (nat (n - 1 - lim))" using Suc.hyps(2) by linarith
  with Suc show ?case by (subst fill.simps) (auto simp: min_def)
qed

lemma fill_pre_eq: "fill_pre put c n s = (min 0 (n - 1), fold put (replicate (nat (n - 1)) c) s)"
proof (induction "nat (n - 1)" arbitrary: n s)
  case 0
  then show ?case by (simp add: fill_pre.simps min_def)
next
  case (Suc k)
  have "nat (n - 1) = Suc (nat (n - 1 - 1))" using Suc.hyps(2) by linarith
  with Suc show ?case by (subst fill_pre.simps) (auto simp: min_def)
qed

subsection \<open>Digits\<close>

text \<open>The digits of a number, the most significant first.\<close>

fun nat_text :: "bytes \<Rightarrow> nat \<Rightarrow> nat \<Rightarrow> bytes" where
  "nat_text ds b n = (if n < b \<or> b \<le> 1 then [ds ! n] else nat_text ds b (n div b) @ [ds ! (n mod b)])"

declare nat_text.simps [simp del]

lemma nat_text_nonempty [simp]: "nat_text ds b n \<noteq> []"
  by (subst nat_text.simps) simp

lemma nat_text_pos: "0 < length (nat_text ds b n)"
  by simp

lemma nat_text_length: "n < b ^ k \<Longrightarrow> 0 < k \<Longrightarrow> length (nat_text ds b n) \<le> k"
proof (induction k arbitrary: n)
  case (Suc k)
  show ?case
  proof (cases "n < b \<or> b \<le> 1")
    case False
    then have "n div b < b ^ k" "0 < k" using Suc.prems(1) by (auto simp: less_mult_imp_div_less mult.commute intro!: gr0I)
    then show ?thesis using Suc.IH False by (subst nat_text.simps) simp
  qed (simp add: nat_text.simps)
qed simp

definition radix :: "nat \<Rightarrow> nat" where
  "radix base = (if base = 10 then 10 else 16)"

lemma divide_num_nat: "fst (divide_num n base) = unat n mod radix base" "unat (snd (divide_num n base)) = unat n div radix base"
  by (simp_all add: divide_num_def radix_def unat_mod_distrib unat_div_distrib)

lemma digit_loop_eq:
  "n \<noteq> 0 \<Longrightarrow> length tmp + length (nat_text ds (radix base) (unat n)) \<le> 16 \<Longrightarrow>
    digit_loop ds base n tmp = Some (tmp @ rev (nat_text ds (radix base) (unat n)))"
proof (induction ds base n tmp rule: digit_loop.induct)
  case (1 ds base n tmp)
  let ?q = "snd (divide_num n base)" let ?d = "fst (divide_num n base)"
  have b: "\<not> radix base \<le> 1" by (simp add: radix_def)
  have len: "length tmp < 16" using 1(3) nat_text_pos [of ds "radix base" "unat n"] by linarith
  have step: "digit_loop ds base n tmp = digit_loop ds base ?q (tmp @ [ds ! ?d])"
    using 1(2) len by (subst digit_loop.simps) simp
  show ?case
  proof (cases "unat n < radix base")
    case True
    then have "?q = 0" by (simp add: unat_eq_zero [symmetric] divide_num_nat)
    then have "digit_loop ds base ?q (tmp @ [ds ! ?d]) = Some (tmp @ [ds ! ?d])" by (simp add: digit_loop.simps)
    then show ?thesis using True by (simp add: step nat_text.simps [of _ _ "unat n"] divide_num_nat)
  next
    case False
    then have q: "?q \<noteq> 0" using b by (simp add: unat_eq_zero [symmetric] divide_num_nat div_eq_0_iff)
    have t: "nat_text ds (radix base) (unat n) = nat_text ds (radix base) (unat ?q) @ [ds ! ?d]"
      using False b by (subst nat_text.simps) (simp add: divide_num_nat)
    show ?thesis using 1(1) [OF 1(2) len q] 1(3) by (simp add: step t)
  qed
qed

lemma unat_lt: "unat (n :: u32) < 2 ^ 32"
  using unsigned_less [of n] by simp

lemma number_digits_length: "length (nat_text ds (radix base) (unat (n :: u32))) \<le> 10"
proof (rule nat_text_length)
  have "unat n < 10 ^ 10" using unat_lt [of n] by simp
  also have "10 ^ 10 \<le> radix base ^ 10" by (intro power_mono) (auto simp: radix_def)
  finally show "unat n < radix base ^ 10" .
qed simp

lemma number_digits:
  assumes "ds ! 0 = of_char CHR ''0''"
  shows "(if n = 0 then Some [of_char CHR ''0''] else digit_loop ds base n []) = Some (rev (nat_text ds (radix base) (unat n)))"
proof (cases "n = 0")
  case False
  then show ?thesis using digit_loop_eq [of n "[]" ds base] number_digits_length [of ds base n] by simp
qed (simp add: nat_text.simps assms radix_def)

subsection \<open>Layout\<close>

text \<open>The layout of a number: sign and digits (at least \<open>p\<close> of them) in a field of \<open>s\<close> columns, filled with blanks on the
  left, with zeros behind the sign, or with blanks on the right. With precision 0 the digits are left out.\<close>

definition sign_text :: "u32 \<Rightarrow> u8 \<Rightarrow> bytes" where
  "sign_text num type =
     (if has type SIGN
      then if sint num < 0 then chars ''-'' else if has type PLUS then chars ''+'' else if has type SPACE then chars '' '' else []
      else [])"

definition magnitude :: "u32 \<Rightarrow> u8 \<Rightarrow> u32" where
  "magnitude num type = (if has type SIGN \<and> sint num < 0 then - num else num)"

definition digits_text :: "u32 \<Rightarrow> nat \<Rightarrow> u8 \<Rightarrow> bytes" where
  "digits_text num base type =
     nat_text (if has type LARGE then large_digits else small_digits) (radix base) (unat (magnitude num type))"

definition number_text :: "u32 \<Rightarrow> nat \<Rightarrow> int \<Rightarrow> int \<Rightarrow> u8 \<Rightarrow> bytes option" where
  "number_text num base s p type =
     (let sign = sign_text num type;
          ds = digits_text num base type;
          body = replicate (nat p - length ds) (of_char CHR ''0'') @ (if p = 0 then [] else ds);
          pad = nat (s - max p (int (length ds)) - int (length sign))
      in if has type SIGN \<and> sint num = - (2 ^ 31) then None
         else Some (if has type LEFT then sign @ body @ replicate pad (of_char CHR '' '')
                    else if has type ZEROPAD then sign @ replicate pad (of_char CHR ''0'') @ body
                    else replicate pad (of_char CHR '' '') @ sign @ body))"

lemma digits_table: "small_digits ! 0 = of_char CHR ''0''" "large_digits ! 0 = of_char CHR ''0''"
  by (simp_all add: small_digits_def large_digits_def chars_def)

lemma layout_eq:
  "(let i = int (length ds); precision = (if i > p then i else p); size = s - precision;
        (size, st) = (if zp \<or> lf then (size, st)
                      else fill put (of_char CHR '' '') 0 (if sg \<noteq> 0 \<and> size > 0 then size - 1 else size) st);
        (size, st) = (if sg \<noteq> 0 then (size - 1, put sg st) else (size, st));
        (size, st) = (if lf then (size, st) else fill put (if zp \<and> \<not> lf then of_char CHR ''0'' else of_char CHR '' '') 0 size st);
        st = snd (fill put (of_char CHR ''0'') i precision st);
        st = (if p \<noteq> 0 then fold put ds st else st)
    in Some (snd (fill put (of_char CHR '' '') 0 size st))) =
   (let sign = (if sg = 0 then [] else [sg :: u8]);
        body = replicate (nat p - length ds) (of_char CHR ''0'') @ (if p = 0 then [] else ds);
        pad = nat (s - max p (int (length ds)) - int (length sign))
    in Some (fold put (if lf then sign @ body @ replicate pad (of_char CHR '' '')
                       else if zp then sign @ replicate pad (of_char CHR ''0'') @ body
                       else replicate pad (of_char CHR '' '') @ sign @ body) st))"
proof -
  define i where "i = int (length ds)"
  define q where "q = max p i"
  have q: "(if i > p then i else p) = q" "nat (q - i) = nat p - length ds" by (auto simp: q_def i_def)
  have n: "nat (min 0 x - 1) = 0" "nat (min 0 x - 2) = 0" for x by auto
  show ?thesis unfolding Let_def i_def [symmetric] q_def [symmetric] q(1)
    by (cases "sg = 0"; cases lf; cases zp) (simp_all add: q(2) fill_eq n)
qed

lemma print_number_eq:
  "print_number put num base s p type st = map_option (\<lambda>t. fold put t st) (number_text num base s p type)"
proof -
  let ?ds = "if has type LARGE then large_digits else small_digits"
  have d: "(if n = 0 then Some [of_char CHR ''0''] else digit_loop ?ds base n []) = Some (rev (nat_text ?ds (radix base) (unat n)))" for n
    by (rule number_digits) (simp add: digits_table)
  have t: "nat_text ?ds (radix base) (unat (if has type SIGN \<and> sint num < 0 then - num else num)) = digits_text num base type"
    by (simp add: digits_text_def magnitude_def)
  define type' where "type' = (if has type LEFT then type AND NOT ZEROPAD else type)"
  have f: "has type' LEFT = has type LEFT" "has type' SIGN = has type SIGN" "has type' PLUS = has type PLUS"
    "has type' SPACE = has type SPACE" "has type' ZEROPAD = (has type ZEROPAD \<and> \<not> has type LEFT)"
    "has type' (ZEROPAD OR LEFT) = (has type ZEROPAD \<or> has type LEFT)"
    unfolding has_pad by (auto simp: type'_def drop_zeropad)
  show ?thesis
  proof (cases "has type SIGN \<and> sint num = - (2 ^ 31)")
    case True
    then show ?thesis unfolding print_number_def number_text_def Let_def type'_def [symmetric] f by simp
  next
    case False
    then have m: "(if has type SIGN \<and> sint num < 0 then if sint num = - (2 ^ 31) then None else Some (- num) else Some num) = Some (magnitude num type)"
      by (auto simp: magnitude_def)
    define sg :: u8 where "sg = (if has type SIGN
                 then if sint num < 0 then of_char CHR ''-''
                      else if has type PLUS then of_char CHR ''+''
                      else if has type SPACE then of_char CHR '' '' else 0
                 else 0)"
    have sg: "sign_text num type = (if sg = 0 then [] else [sg])" by (simp add: sign_text_def sg_def chars_def)
    note * = layout_eq [where ds = "digits_text num base type" and p = p and s = s and zp = "has type ZEROPAD" and lf = "has type LEFT"
        and put = put and sg = sg and st = st, unfolded Let_def]
    show ?thesis unfolding print_number_def number_text_def Let_def type'_def [symmetric] f m bind.bind_lunit d t [folded magnitude_def]
       length_rev rev_rev_ident sg_def [symmetric] sg if_not_P [OF False] option.map *  ..
  qed
qed

section \<open>Any output is the text\<close>

text \<open>Whatever \<open>put\<close> does, the routines hand it the characters of one text in order. Appending to a list gives the text.\<close>

abbreviation app :: "u8 \<Rightarrow> bytes \<Rightarrow> bytes" where
  "app c t \<equiv> t @ [c]"

lemma fold_app [simp]: "fold app cs t = t @ cs"
  by (induction cs arbitrary: t) auto

lemma char_field_fold: "put_char_field put fl w n st = fold put (put_char_field app fl w n []) st"
  by (simp add: put_char_field_def fill_pre_eq del: fold_replicate)

lemma string_field_fold: "put_string_field put fl w p s st = fold put (put_string_field app fl w p s []) st"
  by (simp add: put_string_field_def fill_eq Let_def del: fold_replicate)

lemma print_number_fold: "print_number put num base s p type st = map_option (\<lambda>t. fold put t st) (print_number app num base s p type [])"
  by (simp add: print_number_eq option.map_comp comp_def)

lemma conversion_fold:
  "conversion put fmt args st = map_option (\<lambda>(fmt, args, t). (fmt, args, fold put t st)) (conversion app fmt args [])"
proof -
  obtain fl f1 where f1: "get_flags fmt 0 = (fl, f1)" by (cases "get_flags fmt 0")
  show ?thesis
  proof (cases "get_width f1 args fl")
    case (Some a)
    obtain w fl2 f2 a2 where f2: "get_width f1 args fl = Some (w, fl2, f2, a2)" using Some by (cases a) auto
    show ?thesis
    proof (cases "get_precision f2 a2")
      case (Some b)
      obtain p f3 a3 where f3: "get_precision f2 a2 = Some (p, f3, a3)" using Some by (cases b) auto
      obtain q f4 where f4: "get_qualifier f3 = (q, f4)" by (cases "get_qualifier f3")
      note pn = print_number_fold [of put _ _ _ _ _ st]
      show ?thesis
        by (simp add: conversion_def f1 f2 f3 f4 Let_def pn char_field_fold [of put _ _ _ st] string_field_fold [of put _ _ _ _ st]
            option.map_comp comp_def split: list.split varg.split option.split)
    qed (simp add: conversion_def f1 f2)
  qed (simp add: conversion_def f1)
qed

definition format :: "bytes \<Rightarrow> varg list \<Rightarrow> bytes option" where
  "format fmt args = vformat app fmt args []"

lemma vformat_fold: "vformat put fmt args (fold put u st) = map_option (\<lambda>t. fold put t st) (vformat app fmt args u)"
proof (induction fmt arbitrary: args u rule: measure_induct_rule [where f = length])
  case (less fmt)
  show ?case
  proof (cases "peek fmt = 0")
    case False
    then have l: "length (tl fmt) < length fmt" by (cases fmt) (auto simp: peek_def)
    note s = vformat.simps [of put fmt] vformat.simps [of app fmt]
    show ?thesis
    proof (cases "peek fmt = of_char CHR ''%''")
      case True
      show ?thesis
      proof (cases "conversion app (tl fmt) args []")
        case None
        then show ?thesis using True False
          by (simp add: s conversion_fold [of put _ _ "fold put u st"] conversion_fold [of app _ _ u])
      next
        case (Some r)
        obtain f a t where r: "conversion app (tl fmt) args [] = Some (f, a, t)" using Some by (cases r) auto
        from less [of f a "u @ t"] conversion_length [OF r] l
        show ?thesis using True False r
          by (simp add: s conversion_fold [of put _ _ "fold put u st"] conversion_fold [of app _ _ u])
      qed
    next
      case 2: False
      from less [OF l, of args "u @ [peek fmt]"] show ?thesis using False 2 by (simp add: s)
    qed
  qed (simp add: vformat.simps)
qed

lemma vformat_eq: "vformat put fmt args st = map_option (\<lambda>t. fold put t st) (format fmt args)"
  using vformat_fold [of put fmt args "[]" st] by (simp add: format_def)

section \<open>The buffer\<close>

definition written :: "nat \<Rightarrow> bytes \<Rightarrow> mem \<Rightarrow> mem" where
  "written buf xs m = (\<lambda>x. if buf \<le> x \<and> x < buf + length xs then xs ! (x - buf) else m x)"

lemma written_Nil [simp]: "written buf [] m = m"
  by (auto simp: written_def fun_eq_iff)

lemma written_snoc: "(written buf t m)(buf + length t := c) = written buf (t @ [c]) m"
  by (auto simp: written_def fun_eq_iff nth_append)

lemma written_last: "(written buf (t @ [c]) m)(buf + length t := d) = written buf (t @ [d]) m"
  by (auto simp: written_def fun_eq_iff nth_append)

lemma map_written: "k \<le> length t \<Longrightarrow> map (written buf t m) [buf ..< buf + k] = take k t"
  by (auto simp: written_def intro!: nth_equalityI)

lemma put_to_eq: "put_to e c (str, m) = (str + 1, if str < e then m(str := c) else m)"
  by (simp add: put_to_def)

lemma fold_put_to: "fold (put_to e) t (buf, m) = (buf + length t, written buf (take (e - buf) t) m)"
proof (induction t rule: rev_induct)
  case (snoc c t)
  show ?case
  proof (cases "buf + length t < e")
    case True
    then have "take (e - buf) (t @ [c]) = t @ [c]" "take (e - buf) t = t" by simp_all
    then show ?thesis using True snoc written_snoc [of buf t m c] by (simp add: put_to_eq)
  qed (simp add: snoc put_to_eq)
qed simp

lemma rt_vsnprintf_eq:
  assumes "buf + sz < 2 ^ 32"
  shows "rt_vsnprintf buf sz fmt args m =
    (case format fmt args of
       None \<Rightarrow> None
     | Some t \<Rightarrow> if length t < 2 ^ 31 \<and> buf + length t < 2 ^ 32
                 then Some (length t, if sz = 0 then m else written buf (take (sz - 1) t @ [0]) m)
                 else None)"
proof (cases "format fmt args")
  case None
  then show ?thesis by (simp add: rt_vsnprintf_def vformat_eq)
next
  case (Some t)
  have v: "rt_vsnprintf buf sz fmt args m =
    (if length t < 2 ^ 31 \<and> buf + length t < 2 ^ 32
     then Some (length t, let m' = written buf (take sz t) m in
       if sz > 0 then if length t < sz then m'(buf + length t := 0) else m'(buf + sz - 1 := 0) else m')
     else None)" using assms Some by (simp add: rt_vsnprintf_def vformat_eq fold_put_to Let_def)
  have "(written buf (take sz t) m)(buf + sz - 1 := 0) = written buf (take (sz - 1) t @ [0]) m" if "0 < sz" "sz \<le> length t"
  proof -
    have "take sz t = take (sz - 1) t @ [t ! (sz - 1)]" using that take_Suc_conv_app_nth [of "sz - 1" t] by simp
    then show ?thesis using that written_last [of buf "take (sz - 1) t"] by simp
  qed
  then show ?thesis using Some written_snoc [of buf t m 0] by (auto simp: v Let_def)
qed

lemma sprintf_exact:
  assumes "format fmt args = Some t" "length t < 2 ^ 31" "buf + length t < 2 ^ 32 - 1"
  shows "rt_sprintf buf fmt args m = Some (length t, written buf (t @ [0]) m)"
proof -
  have "rt_vsnprintf buf (2 ^ 32 - 1) fmt args m = rt_vsnprintf buf (2 ^ 32 - 1 - buf) fmt args m"
    using assms(3) by (cases "buf = 0") (auto simp: rt_vsnprintf_def Let_def mod_if)
  moreover have "take (2 ^ 32 - 1 - buf - 1) t = t" using assms(3) by simp
  ultimately show ?thesis using assms rt_vsnprintf_eq [of buf "2 ^ 32 - 1 - buf" fmt args m]
    by (simp add: rt_sprintf_def rt_vsprintf_def)
qed

lemma tidle_text: "format (chars ''tidle%d'') [Num 0] = Some (chars ''tidle0'')"
  by code_simp

lemma mixed_text:
  "format (chars ''<%-4x|%+05i|%.3s|%%>'') [Num 0xAB, Num 42, Str (Some (chars ''firmware''))] = Some (chars ''<ab  |+0042|fir|%>'')"
  by code_simp

text \<open>A precision of 0 drops every digit of a number, also of one that is not zero, and does not limit a string; \<open>%o\<close> prints
  hexadecimal digits.\<close>

lemma precision_0_number: "format (chars ''%.0d'') [Num 5] = Some []"
  by code_simp

lemma precision_0_string: "format (chars ''%.*s'') [Num 0, Str (Some (chars ''abc''))] = Some (chars ''abc'')"
  by code_simp

lemma octal_is_hex: "format (chars ''%o'') [Num 64] = Some (chars ''40'')"
  by code_simp

text \<open>
  C19: \<open>rt_vsnprintf\<close> writes the text, cut to the size of the buffer, and the terminator, and nothing else: the
  memory changes in the first \<open>sz\<close> bytes of the buffer only, there is a terminator within them if there is room
  for one, and the result is the length of the whole text.
\<close>

theorem vsnprintf_exact:
  assumes "buf + sz < 2 ^ 32"
  shows "rt_vsnprintf buf sz fmt args m =
    (case format fmt args of
       None \<Rightarrow> None
     | Some t \<Rightarrow> if length t < 2 ^ 31 \<and> buf + length t < 2 ^ 32
                 then Some (length t, if sz = 0 then m else written buf (take (sz - 1) t @ [0]) m)
                 else None)"
  using assms by (rule rt_vsnprintf_eq)

theorem vsnprintf_exact_witness:
  "\<exists>m'. rt_vsnprintf 0x20000000 5 (chars ''tidle%d'') [Num 0] (\<lambda>_. 1) = Some (6, m') \<and>
     map m' [0x20000000 ..< 0x20000000 + 5] = chars ''tidl'' @ [0] \<and> m' (0x20000000 + 5) = 1"
proof -
  have "rt_vsnprintf 0x20000000 5 (chars ''tidle%d'') [Num 0] (\<lambda>_. 1) =
      Some (6, written 0x20000000 (take 4 (chars ''tidle0'') @ [0]) (\<lambda>_. 1))"
    using vsnprintf_exact [where buf = "0x20000000" and sz = 5 and fmt = "chars ''tidle%d''" and args = "[Num 0]" and m = "\<lambda>_. 1"]
    by (simp add: tidle_text)
  then show ?thesis by (simp add: chars_def written_def)
qed

section \<open>Decimal numbers\<close>

abbreviation dec :: "nat \<Rightarrow> bytes" where
  "dec n \<equiv> nat_text small_digits 10 n"

lemma uint_digit: "k < 10 \<Longrightarrow> uint (small_digits ! k) = 48 + int k"
proof -
  assume "k < 10"
  then have "k \<in> {0, 1, 2, 3, 4, 5, 6, 7, 8, 9}" by auto
  then show ?thesis by (auto simp: small_digits_def chars_def)
qed

lemma uint_ucast8: "uint (ucast c :: u32) = uint (c :: u8)"
proof -
  have "uint c < 2 ^ LENGTH(8)" by (rule unsigned_less)
  then show ?thesis by (simp add: unsigned_ucast_eq take_bit_eq_mod)
qed

lemma ISDIGIT_iff: "ISDIGIT c \<longleftrightarrow> 48 \<le> uint c \<and> uint c < 58"
proof -
  have b: "uint c < 2 ^ LENGTH(8)" by (rule unsigned_less)
  have "uint (ucast c - 48 :: u32) = (uint c - 48) mod 2 ^ 32"
    by (simp add: uint_word_ariths uint_ucast8)
  moreover have "(uint c - 48) mod 2 ^ 32 = (if 48 \<le> uint c then uint c - 48 else uint c - 48 + 2 ^ 32)"
  proof (cases "48 \<le> uint c")
    case True
    then show ?thesis using b by simp
  next
    case False
    then have "(uint c - 48 + 2 ^ 32) mod 2 ^ 32 = uint c - 48 + 2 ^ 32" by (intro mod_pos_pos_trivial) simp_all
    then show ?thesis using False by (metis mod_add_self2)
  qed
  moreover have "0 \<le> uint c" by (rule unsigned_greater_eq)
  then have "\<not> 4294967238 + uint c < 0" by linarith
  ultimately show ?thesis unfolding ISDIGIT_def word_less_def by simp
qed

text \<open>The first digit of a positive number is not zero.\<close>

lemma dec_hd: "0 < w \<Longrightarrow> \<exists>d cs. dec w = d # cs \<and> 48 < uint d \<and> uint d < 58"
proof (induction w rule: less_induct)
  case (less w)
  show ?case
  proof (cases "w < 10")
    case True
    then show ?thesis using less.prems by (subst nat_text.simps) (simp add: uint_digit)
  next
    case False
    then have "0 < w div 10" by (simp add: div_greater_zero_iff)
    with less.IH [of "w div 10"] False obtain d cs where "dec (w div 10) = d # cs" "48 < uint d \<and> uint d < 58" by auto
    then show ?thesis using False by (subst nat_text.simps) simp
  qed
qed

lemma skip_atoi_dec:
  "0 \<le> i \<Longrightarrow> i * 10 ^ length (dec n) + int n + 48 < 2 ^ 31 \<Longrightarrow>
   skip_atoi i (dec n @ rest) = skip_atoi (i * 10 ^ length (dec n) + int n) rest"
proof (induction n arbitrary: rest rule: less_induct)
  case (less n)
  show ?case
  proof (cases "n < 10")
    case True
    then show ?thesis using less.prems by (simp add: nat_text.simps [of _ _ n] ISDIGIT_iff uint_digit)
  next
    case False
    define j where "j = i * 10 ^ length (dec (n div 10)) + int (n div 10)"
    have t: "dec n = dec (n div 10) @ [small_digits ! (n mod 10)]" using False by (subst nat_text.simps) simp
    have n: "j * 10 + int (n mod 10) = i * 10 ^ length (dec n) + int n" unfolding t j_def by (simp add: algebra_simps of_nat_div of_nat_mod)
    moreover have "0 \<le> j" using less.prems(1) by (simp add: j_def)
    ultimately have "j + 48 < 2 ^ 31" using less.prems by linarith
    then have "skip_atoi i (dec n @ rest) = skip_atoi j (small_digits ! (n mod 10) # rest)"
      using less.IH [of "n div 10" "small_digits ! (n mod 10) # rest"] False less.prems(1) by (simp add: t j_def)
    then show ?thesis using n less.prems(2) by (simp add: ISDIGIT_iff uint_digit algebra_simps)
  qed
qed

lemma unat_abs_sint: "unat (if sint n < 0 then - n else n) = nat \<bar>sint (n :: u32)\<bar>"
proof -
  define k where "k = sint n"
  have n: "n = word_of_int k" by (simp add: k_def)
  have k: "\<bar>k\<bar> < 2 ^ 32" using sint_greater_eq [of n] sint_less [of n] by (simp add: k_def)
  have "(if k < 0 then - n else n) = word_of_int \<bar>k\<bar>" by (simp add: n)
  moreover have "uint (word_of_int \<bar>k\<bar> :: u32) = \<bar>k\<bar>" unfolding uint_word_of_int using k by simp
  ultimately have "uint (if k < 0 then - n else n) = \<bar>k\<bar>" by simp
  then show ?thesis by (simp add: k_def unat_eq_nat_uint)
qed

text \<open>A conversion with a field width, and nothing else, of an integer.\<close>

lemma int_conversion_other:
  "int_conversion c fl = Some r \<Longrightarrow> c \<noteq> 0 \<and> \<not> ISDIGIT c \<and> c \<noteq> of_char CHR ''.'' \<and> c \<noteq> of_char CHR ''h'' \<and> c \<noteq> of_char CHR ''l'' \<and>
     c \<noteq> of_char CHR ''c'' \<and> c \<noteq> of_char CHR ''s'' \<and> c \<noteq> of_char CHR ''p'' \<and> c \<noteq> of_char CHR ''%''"
  by (auto simp: int_conversion_def ISDIGIT_iff split: if_splits)

lemma format_field:
  assumes w: "0 < w" "w + 48 < 2 ^ 31" and c: "int_conversion c 0 = Some (base, fl)"
  shows "format (of_char CHR ''%'' # dec w @ [c]) [Num n] = number_text n base (int w) (-1) fl"
proof -
  note k = int_conversion_other [OF c]
  obtain d cs where d: "dec w = d # cs" "48 < uint d" "uint d < 58" using dec_hd [OF w(1)] by blast
  have f: "get_flags (dec w @ [c]) 0 = (0, dec w @ [c])" using d by auto
  have "skip_atoi 0 (dec w @ [c]) = Some (int w, [c])" using skip_atoi_dec [of 0 w "[c]"] w k by simp
  then have g: "get_width (dec w @ [c]) [Num n] 0 = Some (int w, 0, [c], [Num n])"
    using d by (simp add: get_width_def peek_def ISDIGIT_iff)
  have "conversion app (dec w @ [c]) [Num n] [] = map_option (\<lambda>st. ([], [], st)) (number_text n base (int w) (-1) fl)"
    using k c by (simp add: conversion_def f g get_precision_def get_qualifier_def peek_def print_number_eq option.map_comp comp_def get_num_def)
  then show ?thesis
    by (cases "number_text n base (int w) (-1) fl") (simp_all add: format_def vformat.simps peek_def)
qed

definition right_aligned :: "nat \<Rightarrow> bytes \<Rightarrow> bytes" where
  "right_aligned w t = replicate (w - length t) (of_char CHR '' '') @ t"

lemma number_text_aligned:
  assumes "\<not> has fl LEFT" "\<not> has fl ZEROPAD" "\<not> (has fl SIGN \<and> sint n = - (2 ^ 31))"
  shows "number_text n base (int w) (-1) fl = Some (right_aligned w (sign_text n fl @ digits_text n base fl))"
proof -
  have "nat (int w - int a - int b) = w - (b + a)" for a b by linarith
  then show ?thesis using assms by (auto simp: number_text_def Let_def right_aligned_def)
qed

text \<open>
  C20: a field width is read as the number it spells, and an integer comes out right-aligned in such a field, as its
  decimal (or hexadecimal) digits with a minus sign where it is negative, and never cut; the reader of numbers,
  \<open>skip_atoi\<close>, gives the number back.
\<close>

theorem number_field_roundtrip:
  assumes "0 < w" "w + 48 < 2 ^ 31" "sint n \<noteq> - (2 ^ 31)" "k + 48 < 2 ^ 31"
  shows "format (of_char CHR ''%'' # dec w @ chars ''u'') [Num n] = Some (right_aligned w (dec (unat n))) \<and>
    format (of_char CHR ''%'' # dec w @ chars ''d'') [Num n] =
      Some (right_aligned w ((if sint n < 0 then chars ''-'' else []) @ dec (nat \<bar>sint n\<bar>))) \<and>
    format (of_char CHR ''%'' # dec w @ chars ''x'') [Num n] = Some (right_aligned w (nat_text small_digits 16 (unat n))) \<and>
    skip_atoi 0 (dec k) = Some (int k, [])"
proof -
  have c: "int_conversion (of_char CHR ''u'') 0 = Some (10, 0)" "int_conversion (of_char CHR ''d'') 0 = Some (10, SIGN)"
    "int_conversion (of_char CHR ''x'') 0 = Some (16, 0)" by (simp_all add: int_conversion_def)
  have s: "has SIGN SIGN" "\<not> has SIGN LEFT" "\<not> has SIGN ZEROPAD" "\<not> has SIGN PLUS" "\<not> has SIGN SPACE" "\<not> has SIGN LARGE"
    by (simp_all add: SIGN_def LEFT_def ZEROPAD_def PLUS_def SPACE_def LARGE_def)
  have r: "radix 10 = 10" "radix 16 = 16" by (simp_all add: radix_def)
  note f = format_field [OF assms(1,2)] and d = sign_text_def digits_text_def magnitude_def r
  have "format (of_char CHR ''%'' # dec w @ chars ''u'') [Num n] = Some (right_aligned w (dec (unat n)))"
    using f [OF c(1), of n] number_text_aligned [of 0 n 10 w] by (simp add: chars_def d)
  moreover have "format (of_char CHR ''%'' # dec w @ chars ''x'') [Num n] = Some (right_aligned w (nat_text small_digits 16 (unat n)))"
    using f [OF c(3), of n] number_text_aligned [of 0 n 16 w] by (simp add: chars_def d)
  moreover have "format (of_char CHR ''%'' # dec w @ chars ''d'') [Num n] =
      Some (right_aligned w ((if sint n < 0 then chars ''-'' else []) @ dec (nat \<bar>sint n\<bar>)))"
    using f [OF c(2), of n] number_text_aligned [OF s(2,3), of n 10 w] assms(3) s unat_abs_sint [of n]
    by (simp add: chars_def d)
  moreover have "skip_atoi 0 (dec k) = Some (int k, [])" using skip_atoi_dec [of 0 k "[]"] assms(4) by simp
  ultimately show ?thesis by blast
qed

theorem number_field_roundtrip_witness:
  "format (of_char CHR ''%'' # dec 7 @ chars ''d'') [Num (- 42)] = Some (chars ''    -42'') \<and> skip_atoi 0 (dec 42) = Some (42, [])"
proof -
  have t: "dec 42 = chars ''42''" by code_simp
  have r: "replicate 4 (32 :: u8) = [32, 32, 32, 32]" by (simp add: eval_nat_numeral)
  have "sint (- 42 :: u32) = - 42" by simp
  with number_field_roundtrip [of 7 "- 42" 42] t r show ?thesis by (simp add: right_aligned_def chars_def)
qed

end
