(* ===== verification/Rt_Console.thy ===== *)
theory Rt_Console
  imports Rt_Format Firmware_State
begin

text \<open>
  The console: \<open>rt_kputs\<close>, \<open>rt_kprintf\<close> and \<open>rt_show_version\<close> of \<^verbatim>\<open>rt-thread/src/kservice.c\<close>, and \<open>debugPrint\<close> of
  \<^verbatim>\<open>applications/main.c\<close>. What reaches the console is a list of calls: the write to the console device with the open flags it
  has during the write (they are restored after it), or \<open>rt_hw_console_output\<close> with the address of the text while there
  is no console device. The console device is \<open>None\<close> or its open flags; \<open>log\<close> is the address of \<open>rt_log_buf\<close>.
\<close>

definition RT_CONSOLEBUF_SIZE :: nat where [simp]: "RT_CONSOLEBUF_SIZE = 256"
definition RT_DEVICE_FLAG_STREAM :: u16 where "RT_DEVICE_FLAG_STREAM = 0x040"

datatype console_call = Device_write u16 bytes | Hw_output nat

definition rt_kputs :: "u16 option \<Rightarrow> nat option \<Rightarrow> mem \<Rightarrow> console_call list option" where
  "rt_kputs console str m =
     (case str of
        None \<Rightarrow> Some []
      | Some str \<Rightarrow>
          (case console of
             None \<Rightarrow> Some [Hw_output str]
           | Some open_flag \<Rightarrow>
               map_option (\<lambda>n. [Device_write (open_flag OR RT_DEVICE_FLAG_STREAM) (map m [str ..< str + n])]) (rt_strlen str m)))"

definition rt_kprintf :: "u16 option \<Rightarrow> nat \<Rightarrow> bytes \<Rightarrow> varg list \<Rightarrow> mem \<Rightarrow> (console_call \<times> mem) option" where
  "rt_kprintf console log fmt args m =
     (case rt_vsnprintf log (RT_CONSOLEBUF_SIZE - 1) fmt args m of
        None \<Rightarrow> None
      | Some (n, m) \<Rightarrow>
          let len = if n > RT_CONSOLEBUF_SIZE - 1 then RT_CONSOLEBUF_SIZE - 1 else n
          in Some (case console of
                     None \<Rightarrow> Hw_output log
                   | Some open_flag \<Rightarrow> Device_write (open_flag OR RT_DEVICE_FLAG_STREAM) (map m [log ..< log + len]),
                   m))"

text \<open>Several calls of \<open>rt_kprintf\<close> in a row.\<close>

fun kprintfs :: "u16 option \<Rightarrow> nat \<Rightarrow> (bytes \<times> varg list) list \<Rightarrow> mem \<Rightarrow> (console_call list \<times> mem) option" where
  "kprintfs console log [] m = Some ([], m)"
| "kprintfs console log ((fmt, args) # ps) m = do {
     (c, m) \<leftarrow> rt_kprintf console log fmt args m;
     (cs, m) \<leftarrow> kprintfs console log ps m;
     Some (c # cs, m)
   }"

text \<open>\<open>build\<close> stands for \<^verbatim>\<open>__DATE__\<close>.\<close>

definition rt_show_version :: "u16 option \<Rightarrow> nat \<Rightarrow> bytes \<Rightarrow> mem \<Rightarrow> (console_call list \<times> mem) option" where
  "rt_show_version console log build = kprintfs console log
     [([10, 32, 92] @ chars '' | /'' @ [10], []),
      (chars ''- RT -     Thread Operating System'' @ [10], []),
      (chars '' / | '' @ [92] @ chars ''     %d.%d.%d build %s'' @ [10], [Num 4, Num 0, Num 3, Str (Some build)]),
      (chars '' 2006 - 2020 Copyright by rt-thread team'' @ [10], [])]"

datatype debug_effect = Pin pin u8 | Console console_call

text \<open>\<open>obj\<close> is the object behind the pointer: reading past it is undefined, also in the search for the end of the
  string.\<close>

definition debugPrint :: "u16 option \<Rightarrow> nat \<Rightarrow> int \<Rightarrow> bytes \<Rightarrow> u8 \<Rightarrow> mem \<Rightarrow> (debug_effect list \<times> mem) option" where
  "debugPrint console log i obj len m = do {
     (cs, m) \<leftarrow>
       (if i = 0 then
          if unat len \<le> length obj
          then kprintfs console log
                 (map (\<lambda>b. (chars ''%x '', [Num (ucast b)])) (take (unat len) obj) @ [([13, 10], [])]) m
          else None
        else if i = 1 then
          if 0 \<in> set obj
          then kprintfs console log [(chars ''%.*s'' @ [13, 10], [Num (ucast len), Str (Some obj)])] m
          else None
        else Some ([], m));
     Some (Pin UART1_EN YES # map Console cs @ [Pin UART1_EN NO], m)
   }"

section \<open>What reaches the console\<close>

text \<open>Up to 254 characters are sent as they are. Of a longer text the first 254 are sent, and a terminator after them.\<close>

lemma rt_kprintf_sent:
  assumes "format fmt args = Some t" "length t < 2 ^ 31" "log + 256 + length t < 2 ^ 32"
  shows "\<exists>m'. rt_kprintf (Some f) log fmt args m =
    Some (Device_write (f OR RT_DEVICE_FLAG_STREAM) (if length t < 255 then t else take 254 t @ [0]), m')"
proof -
  let ?m = "written log (take 254 t @ [0]) m"
  have "rt_vsnprintf log 255 fmt args m = Some (length t, ?m)"
    using assms rt_vsnprintf_eq [of log 255 fmt args m] by simp
  moreover have "map ?m [log ..< log + min 255 (length t)] = (if length t < 255 then t else take 254 t @ [0])"
    by (subst map_written) auto
  ultimately show ?thesis by (auto simp: rt_kprintf_def min_def)
qed

definition console_bytes :: "debug_effect list \<Rightarrow> bytes" where
  "console_bytes es = concat (map (\<lambda>e. case e of Console (Device_write _ bs) \<Rightarrow> bs | _ \<Rightarrow> []) es)"

lemma kprintfs_sent:
  assumes "\<forall>(fmt, args)\<in>set ps. \<exists>t. format fmt args = Some t \<and> length t < 255" "log + 512 < 2 ^ 32"
  shows "\<exists>cs m'. kprintfs (Some f) log ps m = Some (cs, m') \<and>
    console_bytes (map Console cs) = concat (map (\<lambda>(fmt, args). the (format fmt args)) ps)"
  using assms(1)
proof (induction ps arbitrary: m)
  case (Cons p ps)
  obtain fmt args where p: "p = (fmt, args)" by force
  with Cons.prems obtain t where t: "format fmt args = Some t" "length t < 255" by auto
  then obtain m1 where "rt_kprintf (Some f) log fmt args m = Some (Device_write (f OR RT_DEVICE_FLAG_STREAM) t, m1)"
    using rt_kprintf_sent [of fmt args t log f m] assms(2) by auto
  moreover obtain cs m' where "kprintfs (Some f) log ps m1 = Some (cs, m')"
    "console_bytes (map Console cs) = concat (map (\<lambda>(fmt, args). the (format fmt args)) ps)" using Cons by fastforce
  ultimately show ?case using t by (simp add: p console_bytes_def)
qed (simp add: console_bytes_def)

lemma format_hex: "format (chars ''%x '') [Num n] = Some (nat_text small_digits 16 (unat n) @ [32])"
proof -
  have "number_text n 16 (-1) (-1) 0 = Some (nat_text small_digits 16 (unat n))"
    by (simp add: number_text_def sign_text_def digits_text_def magnitude_def radix_def Let_def)
  then show ?thesis
    by (simp add: format_def vformat.simps peek_def chars_def conversion_def get_width_def get_precision_def get_qualifier_def
        ISDIGIT_iff int_conversion_def print_number_eq get_num_def)
qed

text \<open>\<open>debugPrint\<close> in mode 0 prints the bytes in hexadecimal, each followed by a blank, and an end of line.\<close>

lemma debugPrint_hex:
  assumes "unat len \<le> length obj" "log + 512 < 2 ^ 32"
  shows "\<exists>es m'. debugPrint (Some f) log 0 obj len m = Some (es, m') \<and>
    console_bytes es = concat (map (\<lambda>b. nat_text small_digits 16 (unat b) @ [32]) (take (unat len) obj)) @ [13, 10]"
proof -
  let ?ps = "map (\<lambda>b. (chars ''%x '', [Num (ucast b)])) (take (unat len) obj) @ [([13, 10], [])]"
  have u: "unat (ucast b :: u32) = unat b" for b :: u8 by (simp only: unat_eq_nat_uint uint_ucast8)
  have e: "format [13, 10] [] = Some [13, 10]" by (simp add: format_def vformat.simps peek_def)
  have l: "length (nat_text small_digits 16 (unat b)) \<le> 10" for b :: u8
    using number_digits_length [of small_digits 16 "ucast b"] by (simp add: radix_def u)
  have "\<forall>(fmt, args)\<in>set ?ps. \<exists>t. format fmt args = Some t \<and> length t < 255"
    using l by (fastforce simp: format_hex e u intro: le_less_trans)
  from kprintfs_sent [OF this assms(2), of f m] obtain cs m' where
    "kprintfs (Some f) log ?ps m = Some (cs, m')"
    "console_bytes (map Console cs) = concat (map (\<lambda>b. nat_text small_digits 16 (unat b) @ [32]) (take (unat len) obj)) @ [13, 10]"
    by (auto simp: format_hex e u comp_def)
  then show ?thesis using assms(1) by (auto simp: debugPrint_def console_bytes_def)
qed

end
