(* ===== verification/Rt_Sched.thy ===== *)
theory Rt_Sched
  imports Base
begin

text \<open>
  The scheduling core of the RT-Thread kernel the firmware runs on, in its single-processor
  configuration with 32 priorities: the ready queues and the bitmap over them
  (\<^verbatim>\<open>rt-thread/src/scheduler.c\<close>), the list of running timers (\<^verbatim>\<open>timer.c\<close>), the system tick
  (\<^verbatim>\<open>clock.c\<close>) and the thread operations on top of them (\<^verbatim>\<open>thread.c\<close>).

  Threads are numbered. A thread's list node \<open>tlist\<close> is linked into at most one list at a time,
  so the lists that can hold it are one function from list heads to lists of threads and
  \<open>rt_list_remove\<close> takes the thread out of whichever it is in. The only timers that exist in this
  firmware are the ones embedded in the threads, so a timer is named by its thread; they are
  hard one-shot timers. A failed \<open>RT_ASSERT\<close> and a use of a null or dangling pointer is \<open>None\<close>. The
  processor's context switch is the change of \<open>rt_current_thread\<close>; hooks, debug output and the stack
  check are left out, and each definition is one stretch of code that runs with interrupts
  disabled, or a sequence of such stretches.
\<close>

section \<open>State\<close>

record rt_timer =
  timer_flag :: u8
  timer_init_tick :: u32
  timeout_tick :: u32

record rt_thread =
  stat :: u8
  current_priority :: u8
  init_priority :: u8
  number_mask :: u32
  init_tick :: u32
  remaining_tick :: u32
  error :: int
  thread_timer :: rt_timer

record rt_semaphore =
  sem_value :: u16
  sem_flag :: u8

text \<open>The lists a thread can be linked into: the ready queue of a priority, and the
  \<open>suspend_thread\<close> list of a semaphore.\<close>

datatype rt_list_head = Priority_table nat | Suspend_thread nat

record kernel =
  thr :: "nat \<Rightarrow> rt_thread"
  lists :: "rt_list_head \<Rightarrow> nat list"
  ready_priority_group :: u32
  rt_current_thread :: "nat option"
  rt_current_priority :: u8
  scheduler_lock_nest :: s16
  rt_tick :: u32
  rt_timer_list :: "nat list"
  expired_list :: "nat list"
  sems :: "nat \<Rightarrow> rt_semaphore"

definition RT_THREAD_PRIORITY_MAX :: nat where [simp]: "RT_THREAD_PRIORITY_MAX = 32"
definition RT_TICK_PER_SECOND :: int where [simp]: "RT_TICK_PER_SECOND = 1000"
definition RT_TICK_MAX :: u32 where [simp]: "RT_TICK_MAX = 0xFFFFFFFF"
definition RT_THREAD_INIT :: u8 where [simp]: "RT_THREAD_INIT = 0"
definition RT_THREAD_READY :: u8 where [simp]: "RT_THREAD_READY = 1"
definition RT_THREAD_SUSPEND :: u8 where [simp]: "RT_THREAD_SUSPEND = 2"
definition RT_THREAD_RUNNING :: u8 where [simp]: "RT_THREAD_RUNNING = 3"
definition RT_THREAD_STAT_MASK :: u8 where [simp]: "RT_THREAD_STAT_MASK = 7"
definition RT_THREAD_STAT_YIELD :: u8 where [simp]: "RT_THREAD_STAT_YIELD = 8"
definition RT_TIMER_FLAG_ACTIVATED :: u8 where [simp]: "RT_TIMER_FLAG_ACTIVATED = 1"
definition RT_TIMER_FLAG_PERIODIC :: u8 where [simp]: "RT_TIMER_FLAG_PERIODIC = 2"
definition RT_ETIMEOUT :: int where [simp]: "RT_ETIMEOUT = 2"
definition RT_EFULL :: int where [simp]: "RT_EFULL = 3"
declare RT_EOK_def [simp] RT_ERROR_def [simp]

text \<open>\<^verbatim>\<open>thread->stat & RT_THREAD_STAT_MASK\<close>, and its replacement in the status byte.\<close>

definition stat_of :: "rt_thread \<Rightarrow> u8" where
  "stat_of t = stat t AND RT_THREAD_STAT_MASK"

definition with_stat :: "u8 \<Rightarrow> rt_thread \<Rightarrow> rt_thread" where
  "with_stat v t = t\<lparr>stat := v OR (stat t AND NOT RT_THREAD_STAT_MASK)\<rparr>"

definition yielding :: "rt_thread \<Rightarrow> bool" where
  "yielding t \<longleftrightarrow> stat t AND RT_THREAD_STAT_YIELD \<noteq> 0"

definition upd_thr :: "nat \<Rightarrow> (rt_thread \<Rightarrow> rt_thread) \<Rightarrow> kernel \<Rightarrow> kernel" where
  "upd_thr t f k = k\<lparr>thr := (thr k)(t := f (thr k t))\<rparr>"

definition upd_timer :: "nat \<Rightarrow> (rt_timer \<Rightarrow> rt_timer) \<Rightarrow> kernel \<Rightarrow> kernel" where
  "upd_timer t f = upd_thr t (thread_timer_update f)"

definition rt_list_remove :: "nat \<Rightarrow> kernel \<Rightarrow> kernel" where
  "rt_list_remove t k = k\<lparr>lists := (\<lambda>h. remove1 t (lists k h))\<rparr>"

text \<open>\<open>rt_list_insert_before\<close> the head of a list: at its end.\<close>

definition rt_list_insert_before :: "rt_list_head \<Rightarrow> nat \<Rightarrow> kernel \<Rightarrow> kernel" where
  "rt_list_insert_before h t k = k\<lparr>lists := (lists k)(h := lists k h @ [t])\<rparr>"

section \<open>The scheduler\<close>

text \<open>Find first set, counting from 1: the version of \<^verbatim>\<open>kservice.c\<close> with a table for a byte, and the
  one for this processor, \<open>__builtin_ffs\<close>, which is what is compiled.\<close>

definition lowest_bit_bitmap :: "nat list" where
  "lowest_bit_bitmap =
    [0, 0, 1, 0, 2, 0, 1, 0, 3, 0, 1, 0, 2, 0, 1, 0,
     4, 0, 1, 0, 2, 0, 1, 0, 3, 0, 1, 0, 2, 0, 1, 0,
     5, 0, 1, 0, 2, 0, 1, 0, 3, 0, 1, 0, 2, 0, 1, 0,
     4, 0, 1, 0, 2, 0, 1, 0, 3, 0, 1, 0, 2, 0, 1, 0,
     6, 0, 1, 0, 2, 0, 1, 0, 3, 0, 1, 0, 2, 0, 1, 0,
     4, 0, 1, 0, 2, 0, 1, 0, 3, 0, 1, 0, 2, 0, 1, 0,
     5, 0, 1, 0, 2, 0, 1, 0, 3, 0, 1, 0, 2, 0, 1, 0,
     4, 0, 1, 0, 2, 0, 1, 0, 3, 0, 1, 0, 2, 0, 1, 0,
     7, 0, 1, 0, 2, 0, 1, 0, 3, 0, 1, 0, 2, 0, 1, 0,
     4, 0, 1, 0, 2, 0, 1, 0, 3, 0, 1, 0, 2, 0, 1, 0,
     5, 0, 1, 0, 2, 0, 1, 0, 3, 0, 1, 0, 2, 0, 1, 0,
     4, 0, 1, 0, 2, 0, 1, 0, 3, 0, 1, 0, 2, 0, 1, 0,
     6, 0, 1, 0, 2, 0, 1, 0, 3, 0, 1, 0, 2, 0, 1, 0,
     4, 0, 1, 0, 2, 0, 1, 0, 3, 0, 1, 0, 2, 0, 1, 0,
     5, 0, 1, 0, 2, 0, 1, 0, 3, 0, 1, 0, 2, 0, 1, 0,
     4, 0, 1, 0, 2, 0, 1, 0, 3, 0, 1, 0, 2, 0, 1, 0]"

definition rt_ffs_table :: "u32 \<Rightarrow> nat" where
  "rt_ffs_table value =
     (if value = 0 then 0
      else if value AND 0xff \<noteq> 0 then lowest_bit_bitmap ! unat (value AND 0xff) + 1
      else if value AND 0xff00 \<noteq> 0 then lowest_bit_bitmap ! unat (drop_bit 8 (value AND 0xff00)) + 9
      else if value AND 0xff0000 \<noteq> 0 then lowest_bit_bitmap ! unat (drop_bit 16 (value AND 0xff0000)) + 17
      else lowest_bit_bitmap ! unat (drop_bit 24 (value AND 0xff000000)) + 25)"

definition rt_ffs :: "u32 \<Rightarrow> nat" where
  "rt_ffs value = (case find (\<lambda>i. bit value i) [0..<32] of None \<Rightarrow> 0 | Some i \<Rightarrow> i + 1)"

definition get_highest_priority_thread :: "kernel \<Rightarrow> (nat \<times> nat) option" where
  "get_highest_priority_thread k =
     (case rt_ffs (ready_priority_group k) of
        0 \<Rightarrow> None
      | Suc highest_ready_priority \<Rightarrow>
          (case lists k (Priority_table highest_ready_priority) of
             [] \<Rightarrow> None
           | t # _ \<Rightarrow> Some (t, highest_ready_priority)))"

definition rt_schedule_insert_thread :: "nat \<Rightarrow> kernel \<Rightarrow> kernel" where
  "rt_schedule_insert_thread t k =
     (if rt_current_thread k = Some t then upd_thr t (with_stat RT_THREAD_RUNNING) k
      else let k = upd_thr t (with_stat RT_THREAD_READY) k;
               k = rt_list_insert_before (Priority_table (unat (current_priority (thr k t)))) t k
           in k\<lparr>ready_priority_group := ready_priority_group k OR number_mask (thr k t)\<rparr>)"

definition rt_schedule_remove_thread :: "nat \<Rightarrow> kernel \<Rightarrow> kernel" where
  "rt_schedule_remove_thread t k =
     (let k = rt_list_remove t k in
      if lists k (Priority_table (unat (current_priority (thr k t)))) = []
      then k\<lparr>ready_priority_group := ready_priority_group k AND NOT (number_mask (thr k t))\<rparr>
      else k)"

text \<open>The choice of \<open>rt_schedule\<close>: the thread to run, and whether the current one goes back to the
  ready queue.\<close>

definition next_thread :: "nat \<Rightarrow> kernel \<Rightarrow> nat \<times> nat \<Rightarrow> nat \<times> bool" where
  "next_thread c k best = (case best of (to, highest_ready_priority) \<Rightarrow>
     if stat_of (thr k c) = RT_THREAD_RUNNING
     then if unat (current_priority (thr k c)) < highest_ready_priority then (c, False)
          else if unat (current_priority (thr k c)) = highest_ready_priority \<and> \<not> yielding (thr k c) then (c, False)
          else (to, True)
     else (to, False))"

definition clear_yield :: "rt_thread \<Rightarrow> rt_thread" where
  "clear_yield t = t\<lparr>stat := stat t AND NOT RT_THREAD_STAT_YIELD\<rparr>"

definition switch_to :: "nat \<Rightarrow> kernel \<Rightarrow> kernel" where
  "switch_to t k = upd_thr t (with_stat RT_THREAD_RUNNING) (rt_schedule_remove_thread t k)"

definition rt_schedule :: "kernel \<Rightarrow> kernel option" where
  "rt_schedule k =
     (if scheduler_lock_nest k = 0 \<and> ready_priority_group k \<noteq> 0
      then do {
        best \<leftarrow> get_highest_priority_thread k;
        c \<leftarrow> rt_current_thread k;
        let (to, need_insert_from_thread) = next_thread c k best;
        let k = (if stat_of (thr k c) = RT_THREAD_RUNNING then upd_thr c clear_yield k else k);
        if to \<noteq> c
        then let k = k\<lparr>rt_current_priority := of_nat (snd best), rt_current_thread := Some to\<rparr>;
                 k = (if need_insert_from_thread then rt_schedule_insert_thread c k else k)
             in Some (switch_to to k)
        else Some (switch_to c k)
      }
      else Some k)"

definition rt_enter_critical :: "kernel \<Rightarrow> kernel" where
  "rt_enter_critical k = k\<lparr>scheduler_lock_nest := scheduler_lock_nest k + 1\<rparr>"

definition rt_exit_critical :: "kernel \<Rightarrow> kernel option" where
  "rt_exit_critical k =
     (let k = k\<lparr>scheduler_lock_nest := scheduler_lock_nest k - 1\<rparr> in
      if sint (scheduler_lock_nest k) \<le> 0
      then let k = k\<lparr>scheduler_lock_nest := 0\<rparr>
           in (if rt_current_thread k \<noteq> None then rt_schedule k else Some k)
      else Some k)"

definition rt_critical_level :: "kernel \<Rightarrow> u16" where
  "rt_critical_level k = scheduler_lock_nest k"

section \<open>Timers\<close>

definition rt_timer_init :: "u32 \<Rightarrow> u8 \<Rightarrow> rt_timer" where
  "rt_timer_init time flag =
     \<lparr>timer_flag = flag AND NOT RT_TIMER_FLAG_ACTIVATED, timer_init_tick = time, timeout_tick = 0\<rparr>"

definition rt_timer_list_next_timeout :: "kernel \<Rightarrow> u32" where
  "rt_timer_list_next_timeout k =
     (case rt_timer_list k of [] \<Rightarrow> RT_TICK_MAX | t # _ \<Rightarrow> timeout_tick (thread_timer (thr k t)))"

text \<open>A timer's list node is in the list of running timers, in the local list of \<open>rt_timer_check\<close>
  (\<open>expired_list\<close>), or in none.\<close>

definition rt_timer_remove :: "nat \<Rightarrow> kernel \<Rightarrow> kernel" where
  "rt_timer_remove t k = k\<lparr>rt_timer_list := remove1 t (rt_timer_list k), expired_list := remove1 t (expired_list k)\<rparr>"

definition set_flag :: "u8 \<Rightarrow> rt_timer \<Rightarrow> rt_timer" where
  "set_flag m tm = tm\<lparr>timer_flag := timer_flag tm OR m\<rparr>"

definition clear_flag :: "u8 \<Rightarrow> rt_timer \<Rightarrow> rt_timer" where
  "clear_flag m tm = tm\<lparr>timer_flag := timer_flag tm AND NOT m\<rparr>"

definition has_flag :: "u8 \<Rightarrow> rt_timer \<Rightarrow> bool" where
  "has_flag m tm \<longleftrightarrow> timer_flag tm AND m \<noteq> 0"

text \<open>The search for the place of a timer: after those that end earlier or at the same tick.\<close>

fun timer_insert :: "(nat \<Rightarrow> u32) \<Rightarrow> nat \<Rightarrow> nat list \<Rightarrow> nat list" where
  "timer_insert timeout x [] = [x]"
| "timer_insert timeout x (t # ts) =
     (if timeout t - timeout x = 0 then t # timer_insert timeout x ts
      else if timeout t - timeout x < RT_TICK_MAX div 2 then x # t # ts
      else t # timer_insert timeout x ts)"

definition rt_timer_start :: "nat \<Rightarrow> kernel \<Rightarrow> kernel option" where
  "rt_timer_start t k =
     (let k = upd_timer t (clear_flag RT_TIMER_FLAG_ACTIVATED) (rt_timer_remove t k) in
      if timer_init_tick (thread_timer (thr k t)) < RT_TICK_MAX div 2
      then let k = upd_timer t (\<lambda>tm. tm\<lparr>timeout_tick := rt_tick k + timer_init_tick tm\<rparr>) k;
               k = k\<lparr>rt_timer_list := timer_insert (\<lambda>i. timeout_tick (thread_timer (thr k i))) t (rt_timer_list k)\<rparr>
           in Some (upd_timer t (set_flag RT_TIMER_FLAG_ACTIVATED) k)
      else None)"

definition rt_timer_stop :: "nat \<Rightarrow> kernel \<Rightarrow> int \<times> kernel" where
  "rt_timer_stop t k =
     (if \<not> has_flag RT_TIMER_FLAG_ACTIVATED (thread_timer (thr k t)) then (- RT_ERROR, k)
      else (RT_EOK, upd_timer t (clear_flag RT_TIMER_FLAG_ACTIVATED) (rt_timer_remove t k)))"

text \<open>The commands of \<open>rt_timer_control\<close>; the ones that read return the value stored through \<open>arg\<close>.\<close>

datatype timer_cmd = Set_time u32 | Get_time | Set_oneshot | Set_periodic | Get_state

definition rt_timer_control :: "nat \<Rightarrow> timer_cmd \<Rightarrow> kernel \<Rightarrow> u32 option \<times> kernel" where
  "rt_timer_control t cmd k =
     (case cmd of
        Get_time \<Rightarrow> (Some (timer_init_tick (thread_timer (thr k t))), k)
      | Set_time v \<Rightarrow> (None, upd_timer t (\<lambda>tm. tm\<lparr>timer_init_tick := v\<rparr>) k)
      | Set_oneshot \<Rightarrow> (None, upd_timer t (clear_flag RT_TIMER_FLAG_PERIODIC) k)
      | Set_periodic \<Rightarrow> (None, upd_timer t (set_flag RT_TIMER_FLAG_PERIODIC) k)
      | Get_state \<Rightarrow> (Some (if has_flag RT_TIMER_FLAG_ACTIVATED (thread_timer (thr k t)) then 1 else 0), k))"

section \<open>Threads\<close>

definition rt_thread_init :: "nat \<Rightarrow> u8 \<Rightarrow> u32 \<Rightarrow> kernel \<Rightarrow> kernel option" where
  "rt_thread_init t priority tick k =
     (if unat priority < RT_THREAD_PRIORITY_MAX
      then Some (upd_thr t (\<lambda>_. \<lparr>stat = RT_THREAD_INIT, current_priority = priority, init_priority = priority,
             number_mask = 0, init_tick = tick, remaining_tick = tick, error = RT_EOK,
             thread_timer = rt_timer_init 0 0\<rparr>) k)
      else None)"

definition rt_thread_resume :: "nat \<Rightarrow> kernel \<Rightarrow> int \<times> kernel" where
  "rt_thread_resume t k =
     (if stat_of (thr k t) \<noteq> RT_THREAD_SUSPEND then (- RT_ERROR, k)
      else (RT_EOK, rt_schedule_insert_thread t (snd (rt_timer_stop t (rt_list_remove t k)))))"

definition rt_thread_suspend :: "nat \<Rightarrow> kernel \<Rightarrow> (int \<times> kernel) option" where
  "rt_thread_suspend t k =
     (let st = stat_of (thr k t) in
      if st \<noteq> RT_THREAD_READY \<and> st \<noteq> RT_THREAD_RUNNING then Some (- RT_ERROR, k)
      else if st = RT_THREAD_RUNNING \<and> rt_current_thread k \<noteq> Some t then None
      else let k = upd_thr t (with_stat RT_THREAD_SUSPEND) (rt_schedule_remove_thread t k)
           in Some (RT_EOK, snd (rt_timer_stop t k)))"

definition rt_thread_startup :: "nat \<Rightarrow> kernel \<Rightarrow> kernel option" where
  "rt_thread_startup t k =
     (if stat_of (thr k t) = RT_THREAD_INIT
      then let k = upd_thr t (\<lambda>th. th\<lparr>current_priority := init_priority th\<rparr>) k;
               k = upd_thr t (\<lambda>th. th\<lparr>number_mask := push_bit (unat (current_priority th)) 1, stat := RT_THREAD_SUSPEND\<rparr>) k;
               k = snd (rt_thread_resume t k)
           in (if rt_current_thread k \<noteq> None then rt_schedule k else Some k)
      else None)"

definition rt_thread_yield :: "kernel \<Rightarrow> kernel option" where
  "rt_thread_yield k =
     do { t \<leftarrow> rt_current_thread k;
          rt_schedule (upd_thr t (\<lambda>th. th\<lparr>remaining_tick := init_tick th, stat := stat th OR RT_THREAD_STAT_YIELD\<rparr>) k) }"

text \<open>\<open>rt_thread_sleep\<close> in three stretches: up to the point where it enables interrupts again, the
  call of \<open>rt_schedule\<close>, and what it does when it runs again.\<close>

definition start_thread_timer :: "nat \<Rightarrow> u32 \<Rightarrow> kernel \<Rightarrow> kernel option" where
  "start_thread_timer t tick k = rt_timer_start t (snd (rt_timer_control t (Set_time tick) k))"

definition rt_thread_sleep_suspend :: "u32 \<Rightarrow> kernel \<Rightarrow> kernel option" where
  "rt_thread_sleep_suspend tick k =
     do { t \<leftarrow> rt_current_thread k;
          (_, k) \<leftarrow> rt_thread_suspend t k;
          start_thread_timer t tick k }"

definition rt_thread_sleep_return :: "nat \<Rightarrow> kernel \<Rightarrow> kernel" where
  "rt_thread_sleep_return t =
     upd_thr t (\<lambda>th. if error th = - RT_ETIMEOUT then th\<lparr>error := RT_EOK\<rparr> else th)"

definition rt_thread_sleep :: "u32 \<Rightarrow> kernel \<Rightarrow> kernel option" where
  "rt_thread_sleep tick k = do { k \<leftarrow> rt_thread_sleep_suspend tick k; rt_schedule k }"

text \<open>\<open>rt_thread_delay_until\<close>, with the tick count of the last wake-up: the call, which returns the new tick
  count or goes to sleep, and its return when the thread runs again.\<close>

definition rt_thread_delay_until :: "u32 \<Rightarrow> u32 \<Rightarrow> kernel \<Rightarrow> (u32 option \<times> kernel) option" where
  "rt_thread_delay_until tick inc_tick k =
     do { t \<leftarrow> rt_current_thread k;
          if rt_tick k - tick < inc_tick
          then do { (_, k') \<leftarrow> rt_thread_suspend t k;
                    k' \<leftarrow> start_thread_timer t (tick + inc_tick - rt_tick k) k';
                    k' \<leftarrow> rt_schedule k';
                    Some (None, k') }
          else Some (Some (rt_tick k), k) }"

definition rt_thread_delay_until_return :: "nat \<Rightarrow> kernel \<Rightarrow> u32 \<times> kernel" where
  "rt_thread_delay_until_return t k = (rt_tick k, rt_thread_sleep_return t k)"

definition rt_tick_from_millisecond :: "32 word \<Rightarrow> u32" where
  "rt_tick_from_millisecond ms =
     (if sint ms < 0 then 0xFFFFFFFF
      else let tick = word_of_int (RT_TICK_PER_SECOND * (sint ms div 1000))
           in tick + word_of_int ((RT_TICK_PER_SECOND * (sint ms mod 1000) + 999) div 1000))"

definition rt_thread_mdelay :: "32 word \<Rightarrow> kernel \<Rightarrow> kernel option" where
  "rt_thread_mdelay ms k = rt_thread_sleep (rt_tick_from_millisecond ms) k"

definition rt_thread_timeout :: "nat \<Rightarrow> kernel \<Rightarrow> kernel option" where
  "rt_thread_timeout t k =
     (if stat_of (thr k t) = RT_THREAD_SUSPEND
      then let k = upd_thr t (\<lambda>th. th\<lparr>error := - RT_ETIMEOUT\<rparr>) k
           in rt_schedule (rt_schedule_insert_thread t (rt_list_remove t k))
      else None)"

section \<open>The system tick\<close>

text \<open>One round of the loop of \<open>rt_timer_check\<close> for the first timer of the list.\<close>

definition timer_expire :: "nat \<Rightarrow> kernel \<Rightarrow> kernel option" where
  "timer_expire t k =
     (let k = rt_timer_remove t k;
          k = (if has_flag RT_TIMER_FLAG_PERIODIC (thread_timer (thr k t)) then k
               else upd_timer t (clear_flag RT_TIMER_FLAG_ACTIVATED) k);
          k = k\<lparr>expired_list := t # expired_list k\<rparr>
      in do {
        k \<leftarrow> rt_thread_timeout t k;
        if expired_list k = [] then Some k
        else let k = rt_timer_remove t k in
             if has_flag RT_TIMER_FLAG_PERIODIC (thread_timer (thr k t)) \<and>
                has_flag RT_TIMER_FLAG_ACTIVATED (thread_timer (thr k t))
             then rt_timer_start t (upd_timer t (clear_flag RT_TIMER_FLAG_ACTIVATED) k)
             else Some k
      })"

partial_function (option) rt_timer_check :: "kernel \<Rightarrow> kernel option" where
  "rt_timer_check k =
     (case rt_timer_list k of
        [] \<Rightarrow> Some k
      | t # _ \<Rightarrow>
          if rt_tick k - timeout_tick (thread_timer (thr k t)) < RT_TICK_MAX div 2
          then Option.bind (timer_expire t k) rt_timer_check
          else Some k)"

definition rt_tick_increase :: "kernel \<Rightarrow> kernel option" where
  "rt_tick_increase k =
     (let k = k\<lparr>rt_tick := rt_tick k + 1\<rparr> in
      do {
        t \<leftarrow> rt_current_thread k;
        let k = upd_thr t (\<lambda>th. th\<lparr>remaining_tick := remaining_tick th - 1\<rparr>) k;
        k \<leftarrow> (if remaining_tick (thr k t) = 0
             then rt_schedule (upd_thr t (\<lambda>th. th\<lparr>remaining_tick := init_tick th, stat := stat th OR RT_THREAD_STAT_YIELD\<rparr>) k)
             else Some k);
        rt_timer_check k
      })"

text \<open>The tick the vendor library measures its timeouts with, from \<^verbatim>\<open>drivers/drv_common.c\<close>.\<close>

definition HAL_GetTick :: "kernel \<Rightarrow> u32" where
  "HAL_GetTick k = rt_tick k * 1000 div word_of_int RT_TICK_PER_SECOND"

section \<open>Start-up\<close>

definition rt_system_scheduler_start :: "kernel \<Rightarrow> kernel option" where
  "rt_system_scheduler_start k =
     do { (to, _) \<leftarrow> get_highest_priority_thread k;
          let k = rt_schedule_remove_thread to (k\<lparr>rt_current_thread := Some to\<rparr>);
          Some (upd_thr to (\<lambda>th. th\<lparr>stat := RT_THREAD_RUNNING\<rparr>) k) }"

end
