(* ===== verification/Rt_Sched_Queues.thy ===== *)
theory Rt_Sched_Queues
  imports Rt_Sched
begin

text \<open>
  The ready queues of the scheduler. The invariant \<open>queues_ok\<close> says that the queue of a priority holds
  exactly the ready threads of that priority, each once, that the bitmap has a bit for exactly the
  non-empty queues, and that a thread waiting in a list is suspended. It is kept by linking and
  unlinking a thread, and under it \<open>rt_schedule\<close> finds the first thread of the best queue.
\<close>

section \<open>Fields\<close>

lemma fields_upd_thr [simp]:
  "thr (upd_thr t f k) x = (if x = t then f (thr k t) else thr k x)"
  "lists (upd_thr t f k) = lists k"
  "ready_priority_group (upd_thr t f k) = ready_priority_group k"
  "rt_current_thread (upd_thr t f k) = rt_current_thread k"
  "rt_current_priority (upd_thr t f k) = rt_current_priority k"
  "scheduler_lock_nest (upd_thr t f k) = scheduler_lock_nest k"
  "rt_tick (upd_thr t f k) = rt_tick k"
  "rt_timer_list (upd_thr t f k) = rt_timer_list k"
  "expired_list (upd_thr t f k) = expired_list k"
  "sems (upd_thr t f k) = sems k"
  by (simp_all add: upd_thr_def)

lemma stat_of_with_stat [simp]: "v AND 7 = v \<Longrightarrow> stat_of (with_stat v t) = v"
  by (simp add: stat_of_def with_stat_def and.assoc bit.conj_disj_distrib2)

lemma yielding_with_stat [simp]: "v AND 8 = 0 \<Longrightarrow> yielding (with_stat v t) = yielding t"
  by (simp add: yielding_def with_stat_def and.assoc bit.conj_disj_distrib2)

lemma stat_of_clear_yield [simp]: "stat_of (clear_yield t) = stat_of t"
  by (simp add: stat_of_def clear_yield_def and.assoc)

lemma yielding_clear_yield [simp]: "\<not> yielding (clear_yield t)"
  by (simp add: yielding_def clear_yield_def and.assoc)

lemma stat_of_set_yield [simp]: "stat_of (t\<lparr>stat := stat t OR 8\<rparr>) = stat_of t"
  by (simp add: stat_of_def and.assoc bit.conj_disj_distrib2)

lemma yielding_set_yield [simp]: "yielding (t\<lparr>stat := stat t OR 8\<rparr>)"
  by (simp add: yielding_def and.assoc bit.conj_disj_distrib2)

lemma stat_of_updates [simp]:
  "stat_of (t\<lparr>remaining_tick := r\<rparr>) = stat_of t"
  "stat_of (t\<lparr>error := e\<rparr>) = stat_of t"
  "stat_of (thread_timer_update f t) = stat_of t"
  "stat_of (t\<lparr>current_priority := p\<rparr>) = stat_of t"
  "stat_of (t\<lparr>number_mask := m\<rparr>) = stat_of t"
  "yielding (t\<lparr>remaining_tick := r\<rparr>) = yielding t"
  by (simp_all add: stat_of_def yielding_def)

lemma with_stat_fields [simp]:
  "current_priority (with_stat v t) = current_priority t"
  "init_priority (with_stat v t) = init_priority t"
  "number_mask (with_stat v t) = number_mask t"
  "init_tick (with_stat v t) = init_tick t"
  "remaining_tick (with_stat v t) = remaining_tick t"
  "error (with_stat v t) = error t"
  "thread_timer (with_stat v t) = thread_timer t"
  by (simp_all add: with_stat_def)

lemma clear_yield_fields [simp]:
  "current_priority (clear_yield t) = current_priority t"
  "init_priority (clear_yield t) = init_priority t"
  "number_mask (clear_yield t) = number_mask t"
  "init_tick (clear_yield t) = init_tick t"
  "remaining_tick (clear_yield t) = remaining_tick t"
  "error (clear_yield t) = error t"
  "thread_timer (clear_yield t) = thread_timer t"
  by (simp_all add: clear_yield_def)

text \<open>The views of a thread the scheduler works with.\<close>

abbreviation st :: "kernel \<Rightarrow> nat \<Rightarrow> u8" where "st k t \<equiv> stat_of (thr k t)"
abbreviation prio :: "kernel \<Rightarrow> nat \<Rightarrow> nat" where "prio k t \<equiv> unat (current_priority (thr k t))"
abbreviation queue :: "kernel \<Rightarrow> nat \<Rightarrow> nat list" where "queue k p \<equiv> lists k (Priority_table p)"
abbreviation waiters :: "kernel \<Rightarrow> nat \<Rightarrow> nat list" where "waiters k s \<equiv> lists k (Suspend_thread s)"

section \<open>Find first set\<close>

lemma rt_ffs_eq: "rt_ffs v = Suc p \<longleftrightarrow> p < 32 \<and> bit v p \<and> (\<forall>q<p. \<not> bit v q)"
proof
  assume "rt_ffs v = Suc p"
  then have "find (bit v) [0..<32] = Some p" by (simp add: rt_ffs_def split: option.splits)
  then show "p < 32 \<and> bit v p \<and> (\<forall>q<p. \<not> bit v q)" by (auto simp: find_Some_iff)
next
  assume p: "p < 32 \<and> bit v p \<and> (\<forall>q<p. \<not> bit v q)"
  then have "find (bit v) [0..<32] = Some p" by (auto simp: find_Some_iff)
  then show "rt_ffs v = Suc p" by (simp add: rt_ffs_def)
qed

lemma rt_ffs_0: "rt_ffs v = 0 \<longleftrightarrow> v = 0"
proof -
  have "rt_ffs v = 0 \<longleftrightarrow> (\<forall>i<32. \<not> bit v i)"
    by (auto simp: rt_ffs_def find_None_iff find_Some_iff split: option.splits)
  also have "\<dots> \<longleftrightarrow> v = 0" by (auto simp: bit_eq_iff dest: bit_imp_le_length)
  finally show ?thesis .
qed

text \<open>The table for a byte agrees with the definition.\<close>

lemma lowest_bit_bitmap_rec:
  "list_all (\<lambda>b. lowest_bit_bitmap ! (b + b) = Suc (lowest_bit_bitmap ! b)) [1..<128]"
  "list_all (\<lambda>b. lowest_bit_bitmap ! Suc (b + b) = 0) [0..<128]"
  by code_simp+

lemma lowest_bit_bitmap_ok:
  assumes "0 < b" "b < 2 ^ n" "n \<le> 8"
  shows "lowest_bit_bitmap ! b < n \<and> bit b (lowest_bit_bitmap ! b) \<and> (\<forall>q<lowest_bit_bitmap ! b. \<not> bit b q)"
  using assms
proof (induction n arbitrary: b)
  case (Suc n)
  have "(2 :: nat) ^ n \<le> 2 ^ 7" using Suc.prems(3) by (intro power_increasing) auto
  then have b: "b div 2 < 2 ^ n" "b div 2 < 128" using Suc.prems(2) by auto
  show ?case
  proof (cases "odd b")
    case True
    then have odd: "b = Suc (b div 2 + b div 2)" by presburger
    have "lowest_bit_bitmap ! Suc (b div 2 + b div 2) = 0"
      using lowest_bit_bitmap_rec(2) b(2) by (simp add: list_all_iff)
    then have "lowest_bit_bitmap ! b = 0" by (subst odd)
    with True show ?thesis by (simp add: bit_0)
  next
    case False
    then have h: "0 < b div 2" "b = b div 2 + b div 2" using Suc.prems(1) by auto
    have "lowest_bit_bitmap ! (b div 2 + b div 2) = Suc (lowest_bit_bitmap ! (b div 2))"
      using lowest_bit_bitmap_rec(1) b(2) h(1) by (simp add: list_all_iff)
    then have t: "lowest_bit_bitmap ! b = Suc (lowest_bit_bitmap ! (b div 2))" using h(2) by metis
    have "\<not> bit b q" if "q < Suc (lowest_bit_bitmap ! (b div 2))" for q
      using that False Suc.IH [OF h(1) b(1)] Suc.prems(3) by (cases q) (auto simp: bit_0 bit_Suc)
    with Suc.IH [OF h(1) b(1)] Suc.prems(3) show ?thesis by (simp add: t bit_Suc)
  qed
qed simp

lemma ffs_byte:
  fixes v :: u32
  assumes j: "j + 8 \<le> 32" and nz: "v AND push_bit j (mask 8) \<noteq> 0" and low: "\<And>q. q < j \<Longrightarrow> \<not> bit v q"
  shows "rt_ffs v = lowest_bit_bitmap ! unat (drop_bit j (v AND push_bit j (mask 8))) + (j + 1)"
proof -
  define b where "b = unat (drop_bit j (v AND push_bit j (mask 8)))"
  define m where "m = lowest_bit_bitmap ! b"
  have bits: "bit b q \<longleftrightarrow> q < 8 \<and> bit v (j + q)" for q
    using j by (auto simp: b_def bit_simps)
  have "b = take_bit 8 b" by (rule bit_eqI) (auto simp: bit_take_bit_iff bits)
  then have "b < 256" using take_bit_nat_less_exp [of 8 b] by simp
  moreover have "b \<noteq> 0"
  proof
    assume "b = 0"
    then have "\<not> bit v (j + q)" if "q < 8" for q using bits [of q] that by simp
    then have "v AND push_bit j (mask 8) = 0"
      by (auto simp: bit_eq_iff bit_simps) (metis add_diff_inverse_nat not_less)
    with nz show False by simp
  qed
  ultimately have m: "m < 8" "bit b m" "\<And>q. q < m \<Longrightarrow> \<not> bit b q"
    using lowest_bit_bitmap_ok [of b 8] by (auto simp: m_def)
  have "\<not> bit v q" if "q < m + j" for q
    using low [of q] m(3) [of "q - j"] bits [of "q - j"] that m(1) by (cases "q < j") auto
  then have "rt_ffs v = Suc (m + j)" using m bits j by (auto simp: rt_ffs_eq add.commute)
  then show ?thesis by (simp add: m_def b_def)
qed

lemma low_bits_0:
  fixes v :: u32
  assumes "v AND push_bit j (mask 8) = 0" "j \<le> q" "q < j + 8"
  shows "\<not> bit v q"
proof
  assume "bit v q"
  then have "bit (v AND push_bit j (mask 8)) q" using assms(2,3) bit_imp_le_length [of v q] by (simp add: bit_simps less_diff_conv2)
  with assms(1) show False by simp
qed

text \<open>C25: The find-first-set routine with the byte table and the one of the processor port agree on every value.\<close>

theorem rt_ffs_table_eq: "rt_ffs_table value = rt_ffs value"
proof -
  have c: "(0xff :: u32) = push_bit 0 (mask 8)" "(0xff00 :: u32) = push_bit 8 (mask 8)" "(0xff0000 :: u32) = push_bit 16 (mask 8)"
    "(0xff000000 :: u32) = push_bit 24 (mask 8)" by (simp_all add: mask_eq_exp_minus_1)
  note z = low_bits_0 [of "value"]
  show ?thesis
  proof (cases "value = 0")
    case False
    show ?thesis
    proof (cases "value AND 0xff = 0")
      case False
      with ffs_byte [of 0 "value"] show ?thesis using \<open>value \<noteq> 0\<close> by (simp add: rt_ffs_table_def c(1) del: push_bit_0_id)
    next
      case b0: True
      then have l0: "\<not> bit value q" if "q < 8" for q using z [of 0 q] that c(1) by simp
      show ?thesis
      proof (cases "value AND 0xff00 = 0")
        case False
        with ffs_byte [of 8 "value"] l0 b0 show ?thesis using \<open>value \<noteq> 0\<close> by (simp add: rt_ffs_table_def c(2))
      next
        case b1: True
        then have l1: "\<not> bit value q" if "q < 16" for q using z [of 8 q] l0 [of q] that c(2) by (cases "q < 8") auto
        show ?thesis
        proof (cases "value AND 0xff0000 = 0")
          case False
          with ffs_byte [of 16 "value"] l1 b0 b1 show ?thesis using \<open>value \<noteq> 0\<close> by (simp add: rt_ffs_table_def c(3))
        next
          case b2: True
          then have l2: "\<not> bit value q" if "q < 24" for q using z [of 16 q] l1 [of q] that c(3) by (cases "q < 16") auto
          have "value AND 0xff000000 \<noteq> 0"
          proof
            assume "value AND 0xff000000 = 0"
            then have "\<not> bit value q" for q
              using z [of 24 q] l2 [of q] c(4) bit_imp_le_length [of "value" q] by (cases "q < 24") auto
            with \<open>value \<noteq> 0\<close> show False by (auto simp: bit_eq_iff)
          qed
          with ffs_byte [of 24 "value"] l2 b0 b1 b2 show ?thesis using \<open>value \<noteq> 0\<close> by (simp add: rt_ffs_table_def c(4))
        qed
      qed
    qed
  qed (simp add: rt_ffs_table_def rt_ffs_0)
qed

section \<open>The invariant of the queues\<close>

definition queues_ok :: "kernel \<Rightarrow> bool" where
  "queues_ok k \<longleftrightarrow>
     (\<forall>p t. t \<in> set (queue k p) \<longleftrightarrow> st k t = RT_THREAD_READY \<and> prio k t = p) \<and>
     (\<forall>s t. t \<in> set (waiters k s) \<longrightarrow> st k t = RT_THREAD_SUSPEND) \<and>
     (\<forall>s s' t. t \<in> set (waiters k s) \<longrightarrow> t \<in> set (waiters k s') \<longrightarrow> s = s') \<and>
     (\<forall>h. distinct (lists k h)) \<and>
     (\<forall>p<32. bit (ready_priority_group k) p \<longleftrightarrow> queue k p \<noteq> []) \<and>
     (\<forall>t. st k t \<in> {RT_THREAD_READY, RT_THREAD_SUSPEND, RT_THREAD_RUNNING} \<longrightarrow>
        prio k t < 32 \<and> number_mask (thr k t) = push_bit (prio k t) 1) \<and>
     (\<forall>t. unat (init_priority (thr k t)) < 32)"

lemma queues_okD:
  assumes "queues_ok k"
  shows "t \<in> set (queue k p) \<longleftrightarrow> st k t = 1 \<and> prio k t = p"
    and "t \<in> set (waiters k s) \<Longrightarrow> st k t = 2"
    and "t \<in> set (waiters k s) \<Longrightarrow> t \<in> set (waiters k s') \<Longrightarrow> s = s'"
    and "distinct (lists k h)"
    and "p < 32 \<Longrightarrow> bit (ready_priority_group k) p \<longleftrightarrow> queue k p \<noteq> []"
    and "st k t \<in> {1, 2, 3} \<Longrightarrow> prio k t < 32 \<and> number_mask (thr k t) = push_bit (prio k t) 1"
    and "unat (init_priority (thr k t)) < 32"
  using assms by (auto simp: queues_ok_def)

lemma bit_group_insert:
  fixes g :: u32
  shows
  "q < 32 \<Longrightarrow> bit (g OR 2 ^ p) q \<longleftrightarrow> bit g q \<or> q = p"
  by (auto simp: bit_simps)

lemma bit_group_remove:
  fixes g :: u32
  shows
  "q < 32 \<Longrightarrow> bit (g AND NOT (2 ^ p)) q \<longleftrightarrow> bit g q \<and> q \<noteq> p"
  by (auto simp: bit_simps)

lemma queues_ok_empty_queue:
  assumes "queues_ok k" "32 \<le> p"
  shows "queue k p = []"
proof -
  have "t \<notin> set (queue k p)" for t
    using queues_okD(1) [OF assms(1), of t p] queues_okD(6) [OF assms(1), of t] assms(2) by auto
  then show ?thesis by (cases "queue k p") auto
qed

text \<open>An update of a thread that the scheduler does not see.\<close>

lemma queues_ok_cong:
  assumes "queues_ok k" "lists k' = lists k" "ready_priority_group k' = ready_priority_group k"
    and "\<And>t. st k' t = st k t" "\<And>t. current_priority (thr k' t) = current_priority (thr k t)"
    and "\<And>t. number_mask (thr k' t) = number_mask (thr k t)"
    and "\<And>t. init_priority (thr k' t) = init_priority (thr k t)"
  shows "queues_ok k'"
  using assms by (simp add: queues_ok_def)

lemma queues_ok_upd_thr:
  assumes "queues_ok k" "stat_of (f (thr k t)) = st k t" "current_priority (f (thr k t)) = current_priority (thr k t)"
    "number_mask (f (thr k t)) = number_mask (thr k t)" "init_priority (f (thr k t)) = init_priority (thr k t)"
  shows "queues_ok (upd_thr t f k)"
  using assms by (intro queues_ok_cong [OF assms(1)]) auto

lemma queues_ok_unlink: "queues_ok k \<Longrightarrow> st k t \<noteq> 1 \<Longrightarrow> queues_ok (rt_list_remove t k)"
  by (auto simp: queues_ok_def rt_list_remove_def remove1_idem)

text \<open>Linking a thread into its ready queue, and unlinking it.\<close>

lemma queues_ok_insert:
  assumes k: "queues_ok k" and t: "st k t \<in> {2, 3}" "\<And>s. t \<notin> set (waiters k s)" "rt_current_thread k \<noteq> Some t"
  shows "queues_ok (rt_schedule_insert_thread t k)"
proof -
  from queues_okD(6) [OF k] t(1) have p: "prio k t < 32" "number_mask (thr k t) = push_bit (prio k t) 1" by auto
  from queues_okD(1) [OF k, of t "prio k t"] t(1) have nin: "t \<notin> set (queue k (prio k t))" by auto
  show ?thesis
    using k t p nin
    unfolding queues_ok_def rt_schedule_insert_thread_def rt_list_insert_before_def
    by (auto simp: Let_def bit_group_insert)
qed

lemma queues_ok_remove:
  assumes k: "queues_ok k" and t: "st k t \<in> {1, 2, 3}" and v: "v = 2 \<or> v = 3"
  shows "queues_ok (upd_thr t (with_stat v) (rt_schedule_remove_thread t k))"
proof -
  let ?k = "upd_thr t (with_stat v) (rt_schedule_remove_thread t k)"
  from queues_okD(6) [OF k t] have p: "prio k t < 32" "number_mask (thr k t) = push_bit (prio k t) 1" by auto
  have thr: "thr ?k x = (if x = t then with_stat v (thr k t) else thr k x)"
    and lists: "lists ?k h = remove1 t (lists k h)" for x h
    by (auto simp: rt_schedule_remove_thread_def rt_list_remove_def Let_def)
  have other: "t \<notin> set (queue k q)" if "q \<noteq> prio k t" for q using queues_okD(1) [OF k] that by auto
  have group: "bit (ready_priority_group ?k) q \<longleftrightarrow> queue ?k q \<noteq> []" if "q < 32" for q
    using queues_okD(5) [OF k that] that other [of q] p
    by (cases "q = prio k t")
      (auto simp: rt_schedule_remove_thread_def rt_list_remove_def Let_def bit_group_remove remove1_idem)
  show ?thesis
    using k t v p group unfolding queues_ok_def thr lists
    by (auto simp: remove1_idem split: if_splits)
qed

section \<open>The best ready thread\<close>

definition best_ready :: "kernel \<Rightarrow> nat \<times> nat \<Rightarrow> bool" where
  "best_ready k best \<longleftrightarrow> (case best of (t, p) \<Rightarrow>
     queue k p \<noteq> [] \<and> hd (queue k p) = t \<and> st k t = 1 \<and> prio k t = p \<and> p < 32 \<and> (\<forall>x. st k x = 1 \<longrightarrow> p \<le> prio k x))"

lemma ready_group_0:
  assumes "queues_ok k"
  shows "ready_priority_group k = 0 \<longleftrightarrow> (\<forall>t. st k t \<noteq> 1)"
proof
  assume g: "ready_priority_group k = 0"
  show "\<forall>t. st k t \<noteq> 1"
  proof (intro allI notI)
    fix t assume "st k t = 1"
    with queues_okD(1) [OF assms, of t "prio k t"] queues_okD(5) [OF assms, of "prio k t"]
      queues_okD(6) [OF assms, of t] g show False by auto
  qed
next
  assume none: "\<forall>t. st k t \<noteq> 1"
  have "queue k p = []" for p
    using none queues_okD(1) [OF assms, of "hd (queue k p)" p] by (cases "queue k p") auto
  with queues_okD(5) [OF assms] show "ready_priority_group k = 0"
    by (auto simp: bit_eq_iff dest: bit_imp_le_length)
qed

lemma get_highest_ok:
  assumes k: "queues_ok k" and g: "ready_priority_group k \<noteq> 0"
  shows "\<exists>best. get_highest_priority_thread k = Some best \<and> best_ready k best"
proof -
  from g obtain p where p: "rt_ffs (ready_priority_group k) = Suc p"
    by (cases "rt_ffs (ready_priority_group k)") (auto simp: rt_ffs_0)
  then have bits: "p < 32" "bit (ready_priority_group k) p" "\<forall>q<p. \<not> bit (ready_priority_group k) q"
    by (auto simp: rt_ffs_eq)
  with queues_okD(5) [OF k] obtain t ts where q: "queue k p = t # ts" by (cases "queue k p") auto
  have "p \<le> prio k x" if "st k x = 1" for x
    using that queues_okD(1) [OF k, of x "prio k x"] queues_okD(5) [OF k, of "prio k x"]
      queues_okD(6) [OF k, of x] bits(3) by (metis insertI1 linorder_not_less list.set(1) equals0D)
  with q p bits queues_okD(1) [OF k, of t p] show ?thesis
    by (auto simp: get_highest_priority_thread_def best_ready_def)
qed

end
