(* ===== verification/Rt_Sched_Props.thy ===== *)
theory Rt_Sched_Props
  imports Rt_Sched_Queues
begin

text \<open>
  What a call of \<open>rt_schedule\<close> does. The invariant \<open>sched_ok\<close> adds to the one of the queues that only
  the current thread is running and that the current thread is running or has just been
  suspended. The outcome of a call is one of three: nothing changes (the scheduler is locked or no
  thread is ready), the current thread stays, or the first thread of the best queue takes over and the
  current one, if it was running, goes to the end of its queue.
\<close>

section \<open>The invariant\<close>

definition cur_ok :: "kernel \<Rightarrow> bool" where
  "cur_ok k \<longleftrightarrow>
     (\<forall>t. st k t = RT_THREAD_RUNNING \<longrightarrow> rt_current_thread k = Some t) \<and>
     (\<forall>c. rt_current_thread k = Some c \<longrightarrow> st k c = RT_THREAD_SUSPEND \<or> st k c = RT_THREAD_RUNNING)"

definition sched_ok :: "kernel \<Rightarrow> bool" where
  "sched_ok k \<longleftrightarrow> queues_ok k \<and> cur_ok k"

text \<open>What the scheduler leaves alone: everything but the running and ready states.\<close>

definition kept_stat :: "u8 \<Rightarrow> u8 \<Rightarrow> bool" where
  "kept_stat a b \<longleftrightarrow> (if a \<in> {1, 3} then b \<in> {1, 3} else b = a)"

lemma kept_stat_simps [simp]:
  "kept_stat a a" "kept_stat 2 b \<longleftrightarrow> b = 2" "kept_stat 0 b \<longleftrightarrow> b = 0"
  "kept_stat 1 b \<longleftrightarrow> b = 1 \<or> b = 3" "kept_stat 3 b \<longleftrightarrow> b = 1 \<or> b = 3"
  by (auto simp: kept_stat_def)

lemma kept_stat_trans: "kept_stat a b \<Longrightarrow> kept_stat b c \<Longrightarrow> kept_stat a c"
  by (auto simp: kept_stat_def split: if_splits)

lemma kept_stat_suspended: "kept_stat a b \<Longrightarrow> b = 2 \<longleftrightarrow> a = 2"
  by (auto simp: kept_stat_def split: if_splits)

lemma kept_stat_zero: "kept_stat a b \<Longrightarrow> b = 0 \<longleftrightarrow> a = 0"
  by (auto simp: kept_stat_def split: if_splits)

definition sched_frame :: "kernel \<Rightarrow> kernel \<Rightarrow> bool" where
  "sched_frame k k' \<longleftrightarrow>
     (\<forall>t. thread_timer (thr k' t) = thread_timer (thr k t) \<and> current_priority (thr k' t) = current_priority (thr k t) \<and>
          number_mask (thr k' t) = number_mask (thr k t) \<and> init_priority (thr k' t) = init_priority (thr k t) \<and>
          init_tick (thr k' t) = init_tick (thr k t) \<and> remaining_tick (thr k' t) = remaining_tick (thr k t) \<and>
          error (thr k' t) = error (thr k t) \<and>
          kept_stat (st k t) (st k' t)) \<and>
     (\<forall>s. waiters k' s = waiters k s) \<and>
     scheduler_lock_nest k' = scheduler_lock_nest k \<and> rt_tick k' = rt_tick k \<and>
     rt_timer_list k' = rt_timer_list k \<and> expired_list k' = expired_list k \<and> sems k' = sems k \<and>
     (rt_current_thread k' = None \<longleftrightarrow> rt_current_thread k = None)"

lemma sched_frame_refl [simp]: "sched_frame k k"
  by (simp add: sched_frame_def)

lemma sched_frameD:
  assumes "sched_frame k k'"
  shows "thread_timer (thr k' t) = thread_timer (thr k t)" "current_priority (thr k' t) = current_priority (thr k t)"
    "number_mask (thr k' t) = number_mask (thr k t)" "init_priority (thr k' t) = init_priority (thr k t)"
    "init_tick (thr k' t) = init_tick (thr k t)" "remaining_tick (thr k' t) = remaining_tick (thr k t)"
    "error (thr k' t) = error (thr k t)"
    "kept_stat (st k t) (st k' t)"
    "waiters k' s = waiters k s" "scheduler_lock_nest k' = scheduler_lock_nest k" "rt_tick k' = rt_tick k"
    "rt_timer_list k' = rt_timer_list k" "expired_list k' = expired_list k" "sems k' = sems k"
    "rt_current_thread k' = None \<longleftrightarrow> rt_current_thread k = None"
    "st k t = 2 \<Longrightarrow> st k' t = 2"
  using assms unfolding sched_frame_def by (simp_all, metis kept_stat_suspended)

lemma cur_ok_not_ready: "cur_ok k \<Longrightarrow> rt_current_thread k = Some c \<Longrightarrow> st k t = 1 \<Longrightarrow> t \<noteq> c"
  unfolding cur_ok_def by force

lemma cur_ok_running: "cur_ok k \<Longrightarrow> rt_current_thread k = Some c \<Longrightarrow> st k t = 3 \<Longrightarrow> t = c"
  unfolding cur_ok_def by force

section \<open>Outcomes\<close>

definition stays :: "nat \<Rightarrow> kernel \<Rightarrow> kernel \<Rightarrow> bool" where
  "stays c k k' \<longleftrightarrow>
     lists k' = lists k \<and> rt_current_thread k' = Some c \<and> \<not> yielding (thr k' c) \<and>
     (\<forall>t. st k' t = st k t) \<and> st k c = 3 \<and>
     (\<forall>t. st k t = 1 \<longrightarrow> prio k c < prio k t \<or> prio k c = prio k t \<and> \<not> yielding (thr k c))"

definition switches :: "nat \<Rightarrow> kernel \<Rightarrow> kernel \<Rightarrow> bool" where
  "switches c k k' \<longleftrightarrow> (\<exists>t p. best_ready k (t, p) \<and> t \<noteq> c \<and> rt_current_thread k' = Some t \<and>
     (st k c = 3 \<longrightarrow> p < prio k c \<or> p = prio k c \<and> yielding (thr k c)) \<and>
     (\<forall>x. st k' x = (if x = t then 3 else if x = c \<and> st k c = 3 then 1 else st k x)) \<and>
     (\<forall>q. queue k' q = (if q = p then tl (queue k p) else queue k q) @ (if st k c = 3 \<and> q = prio k c then [c] else [])))"

lemma stay_ok:
  assumes k: "sched_ok k" and c: "rt_current_thread k = Some c" "st k c = 3"
    and best: "\<forall>t. st k t = 1 \<longrightarrow> prio k c < prio k t \<or> prio k c = prio k t \<and> \<not> yielding (thr k c)"
  shows "sched_ok (switch_to c (upd_thr c clear_yield k)) \<and> sched_frame k (switch_to c (upd_thr c clear_yield k)) \<and>
         stays c k (switch_to c (upd_thr c clear_yield k))"
proof -
  let ?k = "upd_thr c clear_yield k" and ?k' = "switch_to c (upd_thr c clear_yield k)"
  from k have q: "queues_ok k" and cur: "cur_ok k" by (auto simp: sched_ok_def)
  have q1: "queues_ok ?k" by (rule queues_ok_upd_thr [OF q]) auto
  have q2: "queues_ok ?k'" unfolding switch_to_def RT_THREAD_RUNNING_def
    using c by (intro queues_ok_remove [OF q1]) auto
  have nin: "c \<notin> set (lists k h)" for h
    using queues_okD(1) [OF q, of c] queues_okD(2) [OF q, of c] c(2) by (cases h) auto
  have thr: "thr ?k' x = (if x = c then with_stat 3 (clear_yield (thr k c)) else thr k x)" for x
    by (auto simp: switch_to_def rt_schedule_remove_thread_def rt_list_remove_def Let_def)
  have rest: "lists ?k' = lists k" "rt_current_thread ?k' = rt_current_thread k"
    "scheduler_lock_nest ?k' = scheduler_lock_nest k" "rt_tick ?k' = rt_tick k"
    "rt_timer_list ?k' = rt_timer_list k" "expired_list ?k' = expired_list k" "sems ?k' = sems k"
    using nin by (auto simp: switch_to_def rt_schedule_remove_thread_def rt_list_remove_def Let_def remove1_idem)
  have st': "st ?k' x = st k x" for x using c by (simp add: thr)
  have "cur_ok ?k'" using cur by (simp add: cur_ok_def st' rest)
  moreover have "sched_frame k ?k'" unfolding sched_frame_def rest st' by (simp add: thr)
  moreover have "stays c k ?k'" unfolding stays_def rest st' using c best by (simp add: thr)
  ultimately show ?thesis using q2 by (simp add: sched_ok_def)
qed

lemma switch_ok:
  assumes k: "sched_ok k" and c: "rt_current_thread k = Some c" and b: "best_ready k (t, p)"
    and better: "st k c = 3 \<Longrightarrow> p < prio k c \<or> p = prio k c \<and> yielding (thr k c)"
    and k': "k' = switch_to t
       ((if st k c = 3 then rt_schedule_insert_thread c else (\<lambda>k. k))
          ((if st k c = 3 then upd_thr c clear_yield k else k)\<lparr>rt_current_priority := pr, rt_current_thread := Some t\<rparr>))"
  shows "sched_ok k' \<and> sched_frame k k' \<and> switches c k k'"
proof -
  from k have q: "queues_ok k" and cur: "cur_ok k" by (auto simp: sched_ok_def)
  from b have t: "st k t = 1" "prio k t = p" "queue k p \<noteq> []" "hd (queue k p) = t" by (auto simp: best_ready_def)
  from cur_ok_not_ready [OF cur c t(1)] have tc: "t \<noteq> c" .
  define k1 where "k1 = (if st k c = 3 then upd_thr c clear_yield k else k)\<lparr>rt_current_priority := pr, rt_current_thread := Some t\<rparr>"
  define k2 where "k2 = (if st k c = 3 then rt_schedule_insert_thread c else (\<lambda>k. k)) k1"
  have k'2: "k' = switch_to t k2" by (simp add: k' k1_def k2_def)
  have q1: "queues_ok k1" by (rule queues_ok_cong [OF q]) (simp_all add: k1_def)
  have nin: "c \<notin> set (lists k h)" if "st k c = 3" for h
    using queues_okD(1) [OF q, of c] queues_okD(2) [OF q, of c] that by (cases h) auto
  have q2: "queues_ok k2"
  proof (cases "st k c = 3")
    case True
    then have "queues_ok (rt_schedule_insert_thread c k1)"
      using tc nin [OF True] by (intro queues_ok_insert [OF q1]) (auto simp: k1_def)
    with True show ?thesis by (simp add: k2_def)
  qed (use q1 in \<open>simp add: k2_def\<close>)
  have st2: "st k2 x = (if x = c \<and> st k c = 3 then 1 else st k x)"
    and data2: "thread_timer (thr k2 x) = thread_timer (thr k x)" "current_priority (thr k2 x) = current_priority (thr k x)"
      "number_mask (thr k2 x) = number_mask (thr k x)" "init_priority (thr k2 x) = init_priority (thr k x)"
      "init_tick (thr k2 x) = init_tick (thr k x)" "remaining_tick (thr k2 x) = remaining_tick (thr k x)"
      "error (thr k2 x) = error (thr k x)" for x
    using tc by (auto simp: k2_def k1_def rt_schedule_insert_thread_def rt_list_insert_before_def Let_def)
  have lists2: "lists k2 h = lists k h @ (if st k c = 3 \<and> h = Priority_table (prio k c) then [c] else [])" for h
    using tc by (auto simp: k2_def k1_def rt_schedule_insert_thread_def rt_list_insert_before_def Let_def)
  have rest2: "rt_current_thread k2 = Some t" "scheduler_lock_nest k2 = scheduler_lock_nest k" "rt_tick k2 = rt_tick k"
    "rt_timer_list k2 = rt_timer_list k" "expired_list k2 = expired_list k" "sems k2 = sems k"
    using tc by (auto simp: k2_def k1_def rt_schedule_insert_thread_def rt_list_insert_before_def Let_def)
  have thr: "thr k' x = (if x = t then with_stat 3 (thr k2 t) else thr k2 x)" for x
    by (auto simp: k'2 switch_to_def rt_schedule_remove_thread_def rt_list_remove_def Let_def)
  have rest: "lists k' h = remove1 t (lists k2 h)" "rt_current_thread k' = rt_current_thread k2"
    "scheduler_lock_nest k' = scheduler_lock_nest k2" "rt_tick k' = rt_tick k2"
    "rt_timer_list k' = rt_timer_list k2" "expired_list k' = expired_list k2" "sems k' = sems k2" for h
    by (auto simp: k'2 switch_to_def rt_schedule_remove_thread_def rt_list_remove_def Let_def)
  have q3: "queues_ok k'" unfolding k'2 switch_to_def RT_THREAD_RUNNING_def
    by (rule queues_ok_remove [OF q2]) (use st2 t in auto)
  have st3: "st k' x = (if x = t then 3 else if x = c \<and> st k c = 3 then 1 else st k x)" for x
    unfolding thr using st2 by simp
  have w: "waiters k' s = waiters k s" for s
  proof -
    from queues_okD(2) [OF q, of t s] t(1) have "t \<notin> set (waiters k s)" by auto
    then show ?thesis by (simp add: rest lists2 remove1_idem)
  qed
  have qs: "queue k' r = (if r = p then tl (queue k p) else queue k r) @ (if st k c = 3 \<and> r = prio k c then [c] else [])" for r
  proof (cases "r = p")
    case True
    from t(3,4) obtain ts where "queue k p = t # ts" by (metis list.exhaust_sel)
    with True tc show ?thesis by (simp add: rest lists2)
  next
    case False
    with queues_okD(1) [OF q, of t r] t(2) have "t \<notin> set (queue k r)" by simp
    with False tc show ?thesis by (simp add: rest lists2 remove1_idem remove1_append)
  qed
  have cur': "cur_ok k'"
    unfolding cur_ok_def rest(2) rest2(1) st3 using cur_ok_running [OF cur c] by (simp split: if_splits) blast
  have fr: "sched_frame k k'"
    unfolding sched_frame_def w st3 rest(2-) rest2 using c t(1) by (simp add: thr data2)
  have sw: "switches c k k'"
    unfolding switches_def by (intro exI [of _ t] exI [of _ p] conjI allI impI b tc st3 qs better) (simp_all add: rest rest2)
  from q3 cur' fr sw show ?thesis by (simp add: sched_ok_def)
qed

text \<open>A call of \<open>rt_schedule\<close> returns, keeps the invariant and has one of the three outcomes.\<close>

theorem rt_schedule_cases:
  assumes k: "sched_ok k" and c: "rt_current_thread k = Some c"
  shows "\<exists>k'. rt_schedule k = Some k' \<and> sched_ok k' \<and> sched_frame k k' \<and>
    (if scheduler_lock_nest k \<noteq> 0 \<or> (\<forall>t. st k t \<noteq> 1) then k' = k else stays c k k' \<or> switches c k k')"
proof (cases "scheduler_lock_nest k \<noteq> 0 \<or> (\<forall>t. st k t \<noteq> 1)")
  case True
  moreover from True k have "scheduler_lock_nest k \<noteq> 0 \<or> ready_priority_group k = 0"
    using ready_group_0 [of k] by (auto simp: sched_ok_def)
  ultimately show ?thesis using k by (auto simp: rt_schedule_def)
next
  case False
  from k have q: "queues_ok k" by (simp add: sched_ok_def)
  from False ready_group_0 [OF q] have g: "scheduler_lock_nest k = 0" "ready_priority_group k \<noteq> 0" by auto
  from get_highest_ok [OF q g(2)] obtain t p where
    h: "get_highest_priority_thread k = Some (t, p)" and b: "best_ready k (t, p)" by auto
  from b have "st k t = 1" by (simp add: best_ready_def)
  with cur_ok_not_ready c k have tc: "t \<noteq> c" unfolding sched_ok_def by blast
  let ?stay = "st k c = 3 \<and> (prio k c < p \<or> prio k c = p \<and> \<not> yielding (thr k c))"
  show ?thesis
  proof (cases ?stay)
    case True
    then have "next_thread c k (t, p) = (c, False)" by (auto simp: next_thread_def)
    with True g h c have "rt_schedule k = Some (switch_to c (upd_thr c clear_yield k))"
      by (simp add: rt_schedule_def)
    moreover from b True have "\<forall>x. st k x = 1 \<longrightarrow> prio k c < prio k x \<or> prio k c = prio k x \<and> \<not> yielding (thr k c)"
      unfolding best_ready_def by fastforce
    ultimately show ?thesis using stay_ok [OF k c] True False by (simp only: if_False simp_thms) blast
  next
    case no: False
    then have nt: "next_thread c k (t, p) = (t, st k c = 3)" by (auto simp: next_thread_def)
    define k' where "k' = switch_to t
       ((if st k c = 3 then rt_schedule_insert_thread c else (\<lambda>k. k))
          ((if st k c = 3 then upd_thr c clear_yield k else k)\<lparr>rt_current_priority := of_nat p, rt_current_thread := Some t\<rparr>))"
    have "rt_schedule k = Some k'"
      using g h c tc by (simp add: rt_schedule_def nt k'_def)
    moreover have "st k c = 3 \<Longrightarrow> p < prio k c \<or> p = prio k c \<and> yielding (thr k c)" using no by auto
    ultimately show ?thesis using switch_ok [OF k c b _ k'_def] False by (simp only: if_False simp_thms) blast
  qed
qed

end
