(* ===== verification/Rt_Sched_Timers.thy ===== *)
theory Rt_Sched_Timers
  imports Rt_Sched_Props
begin

text \<open>
  The list of running timers and the system tick. Ticks are 32-bit and wrap around; the time a timer has
  left is a difference of ticks, and the list is sorted by it. The invariant \<open>timers_ok\<close> is kept by
  starting and stopping a timer and by a tick, and a tick wakes exactly the threads whose time
  is up.
\<close>

section \<open>Fields\<close>

lemma flag_simps [simp]:
  "\<not> has_flag 1 (clear_flag 1 tm)" "has_flag 2 (clear_flag 1 tm) = has_flag 2 tm"
  "has_flag 1 (set_flag 1 tm)" "has_flag 2 (set_flag 1 tm) = has_flag 2 tm"
  "timeout_tick (clear_flag m tm) = timeout_tick tm" "timeout_tick (set_flag m tm) = timeout_tick tm"
  "timer_init_tick (clear_flag m tm) = timer_init_tick tm" "timer_init_tick (set_flag m tm) = timer_init_tick tm"
  "has_flag m (tm\<lparr>timeout_tick := v\<rparr>) = has_flag m tm" "has_flag m (tm\<lparr>timer_init_tick := v\<rparr>) = has_flag m tm"
  by (simp_all add: has_flag_def clear_flag_def set_flag_def and.assoc bit.conj_disj_distrib2)

lemma fields_timer_remove [simp]:
  "thr (rt_timer_remove t k) = thr k" "lists (rt_timer_remove t k) = lists k"
  "ready_priority_group (rt_timer_remove t k) = ready_priority_group k"
  "rt_current_thread (rt_timer_remove t k) = rt_current_thread k"
  "scheduler_lock_nest (rt_timer_remove t k) = scheduler_lock_nest k"
  "rt_tick (rt_timer_remove t k) = rt_tick k" "sems (rt_timer_remove t k) = sems k"
  "rt_timer_list (rt_timer_remove t k) = remove1 t (rt_timer_list k)"
  "expired_list (rt_timer_remove t k) = remove1 t (expired_list k)"
  by (simp_all add: rt_timer_remove_def)

lemma remove1_filter: "distinct xs \<Longrightarrow> remove1 t xs = filter (\<lambda>x. x \<noteq> t) xs"
  by (induction xs) (auto simp: remove1_idem)

abbreviation tm :: "kernel \<Rightarrow> nat \<Rightarrow> rt_timer" where "tm k t \<equiv> thread_timer (thr k t)"

section \<open>The order of the list\<close>

text \<open>The time a timer has left, counted from the tick before the current one, so that a timer
  that ended with the last tick still has a place in the order.\<close>

definition due :: "kernel \<Rightarrow> nat \<Rightarrow> nat" where
  "due k t = unat (timeout_tick (tm k t) - (rt_tick k - 1))"

lemma tick_less:
  fixes A C :: u32
  assumes "unat A \<le> 0x7FFFFFFF" "unat C \<le> 0x7FFFFFFF" "1 \<le> unat C"
  shows "A - C < 0x7FFFFFFF \<longleftrightarrow> unat C \<le> unat A"
  using assms by (cases "unat C \<le> unat A") (simp_all add: word_less_nat_alt unat_sub_if_size word_size)

lemma timer_insert_sorted:
  fixes b :: u32 and f :: "nat \<Rightarrow> u32"
  defines "d \<equiv> \<lambda>t. unat (f t - b)"
  assumes "\<forall>t\<in>set ts. d t \<le> 0x7FFFFFFF" "1 \<le> d x" "d x \<le> 0x7FFFFFFF"
  shows "timer_insert f x ts = takeWhile (\<lambda>t. d t \<le> d x) ts @ x # dropWhile (\<lambda>t. d t \<le> d x) ts"
  using assms(2)
proof (induction ts)
  case (Cons t ts)
  have diff: "f t - f x = (f t - b) - (f x - b)" by simp
  have "f t - f x = 0 \<longleftrightarrow> d t = d x" by (simp add: d_def word_unat_eq_iff [symmetric])
  moreover have "f t - f x < 0x7FFFFFFF \<longleftrightarrow> d x \<le> d t"
    unfolding diff d_def using Cons.prems assms(3,4) by (intro tick_less) (auto simp: d_def)
  ultimately show ?case using Cons by auto
qed simp

lemma set_timer_insert [simp]: "set (timer_insert f x ts) = insert x (set ts)"
  by (induction ts) auto

lemma distinct_timer_insert: "distinct ts \<Longrightarrow> x \<notin> set ts \<Longrightarrow> distinct (timer_insert f x ts)"
  by (induction ts) auto

lemma sorted_insert_after:
  fixes d :: "nat \<Rightarrow> nat"
  assumes "sorted (map d ts)"
  shows "sorted (map d (takeWhile (\<lambda>t. d t \<le> d x) ts @ x # dropWhile (\<lambda>t. d t \<le> d x) ts))"
  using assms
proof (induction ts)
  case (Cons t ts)
  then show ?case by (auto simp: dest!: set_takeWhileD set_dropWhileD)
qed simp

section \<open>The invariant\<close>

definition timers_ok :: "nat \<Rightarrow> kernel \<Rightarrow> bool" where
  "timers_ok lo k \<longleftrightarrow>
     distinct (rt_timer_list k) \<and>
     (\<forall>t. t \<in> set (rt_timer_list k) \<longleftrightarrow> has_flag RT_TIMER_FLAG_ACTIVATED (tm k t)) \<and>
     (\<forall>t \<in> set (rt_timer_list k). st k t = RT_THREAD_SUSPEND \<and> lo \<le> due k t \<and> due k t \<le> 0x7FFFFFFF) \<and>
     (\<forall>t. \<not> has_flag RT_TIMER_FLAG_PERIODIC (tm k t)) \<and>
     sorted (map (due k) (rt_timer_list k))"

lemma timers_okD:
  assumes "timers_ok lo k"
  shows "distinct (rt_timer_list k)" "t \<in> set (rt_timer_list k) \<longleftrightarrow> has_flag 1 (tm k t)"
    "t \<in> set (rt_timer_list k) \<Longrightarrow> st k t = 2"
    "t \<in> set (rt_timer_list k) \<Longrightarrow> lo \<le> due k t"
    "t \<in> set (rt_timer_list k) \<Longrightarrow> due k t \<le> 0x7FFFFFFF"
    "\<not> has_flag 2 (tm k t)" "sorted (map (due k) (rt_timer_list k))"
  using assms by (auto simp: timers_ok_def)

lemma timers_ok_mono: "timers_ok lo k \<Longrightarrow> lo' \<le> lo \<Longrightarrow> timers_ok lo' k"
  unfolding timers_ok_def by fastforce

text \<open>A change that does not touch the timers or wake a thread that has one running.\<close>

lemma timers_ok_cong:
  assumes k: "timers_ok lo k" and "rt_timer_list k' = rt_timer_list k" "rt_tick k' = rt_tick k"
    and "\<And>t. tm k' t = tm k t" "\<And>t. st k t = 2 \<Longrightarrow> st k' t = 2"
  shows "timers_ok lo k'"
proof -
  have "due k' = due k" by (rule ext) (simp add: due_def assms)
  with assms show ?thesis unfolding timers_ok_def by auto
qed

lemma timers_ok_frame: "timers_ok lo k \<Longrightarrow> sched_frame k k' \<Longrightarrow> timers_ok lo k'"
  using sched_frameD [of k k'] by (intro timers_ok_cong [of lo k k']) auto

text \<open>Taking a timer off the list, and starting one.\<close>

lemma timers_ok_stop:
  assumes k: "timers_ok lo k"
    and k': "rt_timer_list k' = remove1 t (rt_timer_list k)" "rt_tick k' = rt_tick k"
    and other: "\<And>x. x \<noteq> t \<Longrightarrow> tm k' x = tm k x" "\<And>x. x \<noteq> t \<Longrightarrow> st k x = 2 \<Longrightarrow> st k' x = 2"
    and off: "\<not> has_flag 1 (tm k' t)" "\<not> has_flag 2 (tm k' t)"
  shows "timers_ok lo k'"
proof -
  have d: "due k' x = due k x" if "x \<noteq> t" for x using that by (simp add: due_def k' other)
  have set: "set (rt_timer_list k') = set (rt_timer_list k) - {t}" using timers_okD(1) [OF k] by (simp add: k')
  have "map (due k') (rt_timer_list k') = map (due k) (rt_timer_list k')" using set d by auto
  moreover have "sorted (map (due k) (rt_timer_list k'))"
    using timers_okD(7) [OF k] by (simp add: k' sorted_map_remove1)
  ultimately have "sorted (map (due k') (rt_timer_list k'))" by (simp only:)
  moreover have "distinct (rt_timer_list k')" using timers_okD(1) [OF k] by (simp add: k')
  moreover have "x \<in> set (rt_timer_list k') \<longleftrightarrow> has_flag 1 (tm k' x)" for x
    using timers_okD(2) [OF k, of x] off other(1) [of x] by (cases "x = t") (auto simp: set)
  moreover have "\<not> has_flag 2 (tm k' x)" for x using timers_okD(6) [OF k, of x] off other(1) [of x] by (cases "x = t") auto
  ultimately show ?thesis
    using timers_okD(3-5) [OF k] d other(2) unfolding timers_ok_def set by auto
qed

lemma timers_ok_rt_timer_stop:
  assumes "timers_ok lo k"
  shows "timers_ok lo (snd (rt_timer_stop t k))"
  unfolding rt_timer_stop_def using assms timers_okD(6) [OF assms, of t]
  by (auto intro!: timers_ok_stop [OF assms, of _ t] simp: upd_timer_def)

lemma rt_timer_stop_fields [simp]:
  "lists (snd (rt_timer_stop t k)) = lists k"
  "ready_priority_group (snd (rt_timer_stop t k)) = ready_priority_group k"
  "rt_current_thread (snd (rt_timer_stop t k)) = rt_current_thread k"
  "scheduler_lock_nest (snd (rt_timer_stop t k)) = scheduler_lock_nest k"
  "rt_tick (snd (rt_timer_stop t k)) = rt_tick k" "sems (snd (rt_timer_stop t k)) = sems k"
  "st (snd (rt_timer_stop t k)) x = st k x"
  "current_priority (thr (snd (rt_timer_stop t k)) x) = current_priority (thr k x)"
  "init_priority (thr (snd (rt_timer_stop t k)) x) = init_priority (thr k x)"
  "number_mask (thr (snd (rt_timer_stop t k)) x) = number_mask (thr k x)"
  "error (thr (snd (rt_timer_stop t k)) x) = error (thr k x)"
  "x \<noteq> t \<Longrightarrow> thr (snd (rt_timer_stop t k)) x = thr k x"
  "timeout_tick (tm (snd (rt_timer_stop t k)) x) = timeout_tick (tm k x)"
  "\<not> has_flag 1 (tm (snd (rt_timer_stop t k)) t)"
  by (auto simp: rt_timer_stop_def upd_timer_def)

lemma timers_ok_start:
  assumes k: "timers_ok lo k" and new: "t \<notin> set (rt_timer_list k)"
    and k': "rt_timer_list k' = timer_insert (\<lambda>i. timeout_tick (tm k' i)) t (rt_timer_list k)" "rt_tick k' = rt_tick k"
    and other: "\<And>x. x \<noteq> t \<Longrightarrow> tm k' x = tm k x" "\<And>x. st k x = 2 \<Longrightarrow> st k' x = 2"
    and on: "has_flag 1 (tm k' t)" "\<not> has_flag 2 (tm k' t)" "st k' t = 2" "lo \<le> due k' t" "1 \<le> due k' t" "due k' t \<le> 0x7FFFFFFF"
  shows "timers_ok lo k'"
proof -
  have d: "due k' x = due k x" if "x \<noteq> t" for x using that by (simp add: due_def k' other)
  have ins: "rt_timer_list k' =
      takeWhile (\<lambda>x. due k' x \<le> due k' t) (rt_timer_list k) @ t # dropWhile (\<lambda>x. due k' x \<le> due k' t) (rt_timer_list k)"
    unfolding due_def k'(1)
  proof (rule timer_insert_sorted, unfold due_def [symmetric])
    show "\<forall>x\<in>set (rt_timer_list k). due k' x \<le> 0x7FFFFFFF" using timers_okD(5) [OF k] d new by metis
  qed (use on in auto)
  have "map (due k') (rt_timer_list k) = map (due k) (rt_timer_list k)" using new d by (metis map_cong)
  with timers_okD(7) [OF k] have "sorted (map (due k') (rt_timer_list k))" by (simp only:)
  then have "sorted (map (due k') (rt_timer_list k'))" unfolding ins by (rule sorted_insert_after)
  moreover have "x \<in> set (rt_timer_list k') \<longleftrightarrow> has_flag 1 (tm k' x)" for x
    using timers_okD(2) [OF k, of x] on(1) other(1) [of x] by (cases "x = t") (auto simp: k')
  moreover have "st k' x = 2 \<and> lo \<le> due k' x \<and> due k' x \<le> 0x7FFFFFFF" if "x \<in> set (rt_timer_list k')" for x
    using that timers_okD(3-5) [OF k, of x] on other(2) [of x] d [of x] by (cases "x = t") (auto simp: k')
  moreover have "\<not> has_flag 2 (tm k' x)" for x using timers_okD(6) [OF k, of x] on(2) other(1) [of x] by (cases "x = t") auto
  moreover have "distinct (rt_timer_list k')" using timers_okD(1) [OF k] new by (simp add: k' distinct_timer_insert)
  ultimately show ?thesis unfolding timers_ok_def by auto
qed

text \<open>Starting the timer of a suspended thread: it is due after that many ticks.\<close>

lemma start_thread_timer_ok:
  assumes k: "timers_ok lo k" and lo: "lo \<le> 1" and n: "n < 0x7FFFFFFF" and t: "st k t = 2"
  shows "\<exists>k'. start_thread_timer t n k = Some k' \<and> timers_ok lo k' \<and> due k' t = Suc (unat n) \<and>
     t \<in> set (rt_timer_list k') \<and> k' = k\<lparr>thr := thr k', rt_timer_list := rt_timer_list k', expired_list := remove1 t (expired_list k)\<rparr> \<and>
     (\<forall>x. x \<noteq> t \<longrightarrow> thr k' x = thr k x) \<and> (\<exists>v. thr k' t = (thr k t)\<lparr>thread_timer := v\<rparr>)"
proof -
  define k1 where "k1 = upd_timer t (clear_flag 1) (rt_timer_remove t (upd_timer t (\<lambda>tm. tm\<lparr>timer_init_tick := n\<rparr>) k))"
  define k2 where "k2 = upd_timer t (\<lambda>tm. tm\<lparr>timeout_tick := rt_tick k + timer_init_tick tm\<rparr>) k1"
  define k' where "k' = upd_timer t (set_flag 1) (k2\<lparr>rt_timer_list := timer_insert (\<lambda>i. timeout_tick (tm k2 i)) t (rt_timer_list k1)\<rparr>)"
  have eval: "start_thread_timer t n k = Some k'"
    using n by (simp add: start_thread_timer_def rt_timer_control_def rt_timer_start_def Let_def k'_def k2_def k1_def upd_timer_def)
  have l1: "rt_timer_list k1 = remove1 t (rt_timer_list k)" "rt_tick k1 = rt_tick k" by (simp_all add: k1_def upd_timer_def)
  have ok1: "timers_ok lo k1"
    by (rule timers_ok_stop [OF k l1]) (use timers_okD(6) [OF k, of t] in \<open>auto simp: k1_def upd_timer_def\<close>)
  have thr': "x \<noteq> t \<Longrightarrow> thr k' x = thr k x" "st k' x = st k x" "\<exists>v. thr k' t = (thr k t)\<lparr>thread_timer := v\<rparr>"
    "x \<noteq> t \<Longrightarrow> thr k1 x = thr k x" "st k1 x = st k x" for x
    by (auto simp: k'_def k2_def k1_def upd_timer_def intro: exI [of _ "thread_timer (thr k' t)"])
  have tm': "has_flag 1 (tm k' t)" "has_flag 2 (tm k' t) = has_flag 2 (tm k t)" "rt_tick k' = rt_tick k1"
    "timeout_tick (tm k' x) = timeout_tick (tm k2 x)" for x
    by (auto simp: k'_def k2_def k1_def upd_timer_def)
  have "unat (1 + n) = Suc (unat n)" using n by (simp add: unat_word_ariths word_less_nat_alt)
  then have d': "due k' t = Suc (unat n)" by (simp add: due_def k'_def k2_def k1_def upd_timer_def add.commute)
  have l': "rt_timer_list k' = timer_insert (\<lambda>i. timeout_tick (tm k' i)) t (rt_timer_list k1)"
    unfolding tm' by (simp add: k'_def upd_timer_def)
  have "timers_ok lo k'"
    by (rule timers_ok_start [OF ok1 _ l' tm'(3)])
      (use timers_okD(1,6) [OF k] lo n t in \<open>auto simp: l1 thr' tm'(1,2) d' word_less_nat_alt\<close>)
  moreover have "k' = k\<lparr>thr := thr k', rt_timer_list := rt_timer_list k', expired_list := remove1 t (expired_list k)\<rparr>"
    by (simp add: k'_def k2_def k1_def upd_timer_def upd_thr_def rt_timer_remove_def)
  ultimately show ?thesis using eval d' l' thr'(1,3) by auto
qed

section \<open>A timer runs out\<close>

text \<open>The threads of a set are woken by their timers; the others keep their state, up to a switch
  of the running thread.\<close>

definition woken_stat :: "bool \<Rightarrow> u8 \<Rightarrow> u8 \<Rightarrow> bool" where
  "woken_stat w a b \<longleftrightarrow> (if w then a = 2 \<and> (b = 1 \<or> b = 3) else kept_stat a b)"

lemma woken_stat_trans:
  "woken_stat v a b \<Longrightarrow> woken_stat w b c \<Longrightarrow> woken_stat (v \<or> w) a c"
  "woken_stat v a b \<Longrightarrow> woken_stat w b c \<Longrightarrow> v \<Longrightarrow> \<not> w"
  by (auto simp: woken_stat_def kept_stat_def split: if_splits)

definition wakes :: "nat set \<Rightarrow> kernel \<Rightarrow> kernel \<Rightarrow> bool" where
  "wakes W k k' \<longleftrightarrow>
     (\<forall>t. woken_stat (t \<in> W) (st k t) (st k' t) \<and>
          error (thr k' t) = (if t \<in> W then - RT_ETIMEOUT else error (thr k t)) \<and>
          current_priority (thr k' t) = current_priority (thr k t) \<and>
          init_tick (thr k' t) = init_tick (thr k t) \<and> remaining_tick (thr k' t) = remaining_tick (thr k t) \<and>
          timeout_tick (tm k' t) = timeout_tick (tm k t)) \<and>
     (\<forall>s. waiters k' s = filter (\<lambda>t. t \<notin> W) (waiters k s)) \<and>
     scheduler_lock_nest k' = scheduler_lock_nest k \<and> rt_tick k' = rt_tick k \<and> sems k' = sems k \<and>
     (rt_current_thread k' = None \<longleftrightarrow> rt_current_thread k = None)"

lemma wakes_empty: "sched_frame k k' \<Longrightarrow> wakes {} k k'"
  by (simp add: wakes_def sched_frame_def woken_stat_def)

lemma wakes_trans:
  assumes V: "wakes V k k1" and W: "wakes W k1 k'"
  shows "wakes (V \<union> W) k k'"
proof -
  have v: "woken_stat (t \<in> V) (st k t) (st k1 t)" and w: "woken_stat (t \<in> W) (st k1 t) (st k' t)" for t
    using V W by (simp_all add: wakes_def)
  have "woken_stat (t \<in> V \<union> W) (st k t) (st k' t)" and excl: "t \<in> V \<Longrightarrow> t \<notin> W" for t
    using woken_stat_trans [OF v w, of t] by auto
  moreover have "filter (\<lambda>t. t \<notin> V \<union> W) xs = filter (\<lambda>t. t \<notin> W) (filter (\<lambda>t. t \<notin> V) xs)" for xs
    by (auto intro: filter_cong)
  ultimately show ?thesis using V W excl unfolding wakes_def by auto
qed

text \<open>Putting a suspended thread back: into its ready queue, or, when it is still the current one,
  to running.\<close>

lemma notin_lists:
  assumes "queues_ok k"
  shows "t \<notin> set (lists (rt_list_remove t k) h)"
  using queues_okD(4) [OF assms, of h] by (simp add: rt_list_remove_def)

lemma sched_ok_wake:
  assumes k: "sched_ok k" and t: "st k t = 2"
  shows "sched_ok (rt_schedule_insert_thread t (rt_list_remove t k))"
proof -
  from k have q: "queues_ok k" and cur: "cur_ok k" by (simp_all add: sched_ok_def)
  have q1: "queues_ok (rt_list_remove t k)" using t by (intro queues_ok_unlink [OF q]) auto
  have nin: "t \<notin> set (lists (rt_list_remove t k) h)" for h by (rule notin_lists [OF q])
  have same: "thr (rt_list_remove t k) = thr k" "rt_current_thread (rt_list_remove t k) = rt_current_thread k"
    by (simp_all add: rt_list_remove_def)
  show ?thesis
  proof (cases "rt_current_thread k = Some t")
    case True
    with t q1 nin have "queues_ok (rt_schedule_insert_thread t (rt_list_remove t k))"
      unfolding queues_ok_def rt_schedule_insert_thread_def same by (auto simp: same)
    with True cur show ?thesis by (auto simp: sched_ok_def cur_ok_def rt_schedule_insert_thread_def same)
  next
    case False
    have "queues_ok (rt_schedule_insert_thread t (rt_list_remove t k))"
      by (rule queues_ok_insert [OF q1]) (use t nin False same in auto)
    with False cur t show ?thesis
      by (auto simp: sched_ok_def cur_ok_def rt_schedule_insert_thread_def rt_list_insert_before_def same Let_def)
  qed
qed

lemma rt_schedule_ok:
  assumes "sched_ok k" "rt_current_thread k \<noteq> None"
  obtains k' where "rt_schedule k = Some k'" "sched_ok k'" "sched_frame k k'"
  using rt_schedule_cases [of k] assms by auto

lemma rt_thread_timeout_ok:
  assumes k: "sched_ok k" "rt_current_thread k \<noteq> None" and t: "st k t = 2"
  shows "\<exists>k'. rt_thread_timeout t k = Some k' \<and> sched_ok k' \<and> wakes {t} k k' \<and>
     rt_timer_list k' = rt_timer_list k \<and> expired_list k' = expired_list k \<and> (\<forall>x. tm k' x = tm k x)"
proof -
  define k0 where "k0 = upd_thr t (\<lambda>th. th\<lparr>error := - RT_ETIMEOUT\<rparr>) k"
  define k1 where "k1 = rt_schedule_insert_thread t (rt_list_remove t k0)"
  have st0: "st k0 x = st k x" for x by (simp add: k0_def)
  have "queues_ok k0" unfolding k0_def using k(1) by (intro queues_ok_upd_thr) (auto simp: sched_ok_def)
  then have "sched_ok k0" using k(1) by (auto simp: sched_ok_def cur_ok_def k0_def)
  then have ok1: "sched_ok k1" unfolding k1_def by (rule sched_ok_wake) (simp add: st0 t)
  have cur1: "rt_current_thread k1 = rt_current_thread k"
    by (simp add: k1_def k0_def rt_schedule_insert_thread_def rt_list_insert_before_def rt_list_remove_def Let_def)
  have thr1: "thr k1 x = (if x = t then with_stat (if rt_current_thread k = Some t then 3 else 1) ((thr k t)\<lparr>error := - RT_ETIMEOUT\<rparr>) else thr k x)" for x
    by (auto simp: k1_def k0_def rt_schedule_insert_thread_def rt_list_insert_before_def rt_list_remove_def Let_def)
  have w1: "waiters k1 s = filter (\<lambda>x. x \<notin> {t}) (waiters k s)" for s
    using queues_okD(4) [of k "Suspend_thread s"] k(1)
    by (simp add: sched_ok_def k1_def k0_def rt_schedule_insert_thread_def rt_list_insert_before_def rt_list_remove_def Let_def remove1_filter)
  have rest1: "scheduler_lock_nest k1 = scheduler_lock_nest k" "rt_tick k1 = rt_tick k" "sems k1 = sems k"
    "rt_timer_list k1 = rt_timer_list k" "expired_list k1 = expired_list k"
    by (simp_all add: k1_def k0_def rt_schedule_insert_thread_def rt_list_insert_before_def rt_list_remove_def Let_def)
  have "wakes {t} k k1" unfolding wakes_def cur1 rest1 w1 using t by (simp add: thr1 woken_stat_def)
  moreover obtain k' where k': "rt_schedule k1 = Some k'" "sched_ok k'" "sched_frame k1 k'"
    using rt_schedule_ok [OF ok1] cur1 k(2) by auto
  ultimately have "wakes {t} k k'" using wakes_trans [OF _ wakes_empty [OF k'(3)]] by fastforce
  moreover have "tm k' x = tm k x" for x using sched_frameD(1) [OF k'(3), of x] by (simp add: thr1)
  moreover have "rt_thread_timeout t k = Some k'" using t k'(1) by (simp add: rt_thread_timeout_def k1_def k0_def)
  ultimately show ?thesis using k'(2) sched_frameD(12,13) [OF k'(3)] rest1 by auto
qed

text \<open>One round of \<open>rt_timer_check\<close>: the timer leaves the list and its thread is woken.\<close>

lemma timer_expire_ok:
  assumes k: "sched_ok k" "rt_current_thread k \<noteq> None" "timers_ok lo k" "expired_list k = []"
    and t: "t \<in> set (rt_timer_list k)"
  shows "\<exists>k'. timer_expire t k = Some k' \<and> sched_ok k' \<and> timers_ok lo k' \<and> expired_list k' = [] \<and> wakes {t} k k' \<and>
     rt_timer_list k' = remove1 t (rt_timer_list k)"
proof -
  define k1 where "k1 = (upd_timer t (clear_flag 1) (rt_timer_remove t k))\<lparr>expired_list := [t]\<rparr>"
  have p: "\<not> has_flag 2 (tm k x)" for x by (rule timers_okD(6) [OF k(3)])
  have thr1: "st k1 x = st k x" "x \<noteq> t \<Longrightarrow> thr k1 x = thr k x" "timeout_tick (tm k1 x) = timeout_tick (tm k x)"
    "error (thr k1 x) = error (thr k x)" "current_priority (thr k1 x) = current_priority (thr k x)"
    "init_tick (thr k1 x) = init_tick (thr k x)" "remaining_tick (thr k1 x) = remaining_tick (thr k x)"
    "init_priority (thr k1 x) = init_priority (thr k x)" "number_mask (thr k1 x) = number_mask (thr k x)" for x
    by (auto simp: k1_def upd_timer_def)
  have rest1: "rt_timer_list k1 = remove1 t (rt_timer_list k)" "rt_tick k1 = rt_tick k" "lists k1 = lists k"
    "rt_current_thread k1 = rt_current_thread k" "scheduler_lock_nest k1 = scheduler_lock_nest k" "sems k1 = sems k"
    "expired_list k1 = [t]" "ready_priority_group k1 = ready_priority_group k"
    by (simp_all add: k1_def upd_timer_def)
  have off: "\<not> has_flag 1 (tm k1 t)" "\<not> has_flag 2 (tm k1 t)" using p by (simp_all add: k1_def upd_timer_def)
  have "queues_ok k1" using k(1) by (intro queues_ok_cong [of k k1]) (simp_all add: sched_ok_def thr1 rest1)
  moreover have "cur_ok k1" using k(1) by (simp add: sched_ok_def cur_ok_def thr1 rest1)
  ultimately have s1: "sched_ok k1" by (simp add: sched_ok_def)
  have t1: "timers_ok lo k1" by (rule timers_ok_stop [OF k(3) rest1(1,2)]) (simp_all add: thr1 off)
  have "wakes {} k k1" by (simp add: wakes_def woken_stat_def thr1 rest1)
  moreover obtain k2 where k2: "rt_thread_timeout t k1 = Some k2" "sched_ok k2" "wakes {t} k1 k2"
      "rt_timer_list k2 = rt_timer_list k1" "expired_list k2 = expired_list k1" "\<And>x. tm k2 x = tm k1 x"
    using rt_thread_timeout_ok [OF s1, of t] timers_okD(3) [OF k(3) t] k(2) by (auto simp: thr1 rest1)
  ultimately have "wakes {t} k k2" using wakes_trans [of "{}" k k1 "{t}" k2] by simp
  have t2: "timers_ok lo k2"
  proof (rule timers_ok_stop [OF t1, of _ t])
    show "rt_timer_list k2 = remove1 t (rt_timer_list k1)"
      using timers_okD(1) [OF k(3)] by (simp add: k2 rest1 remove1_idem)
    show "st k2 x = 2" if "x \<noteq> t" "st k1 x = 2" for x
      using k2(3) that by (simp add: wakes_def woken_stat_def) (metis kept_stat_simps(2))
  qed (use k2(3,6) off in \<open>simp_all add: wakes_def\<close>)
  define k' where "k' = rt_timer_remove t k2"
  have nin: "remove1 t (rt_timer_list k2) = rt_timer_list k2"
    using timers_okD(1) [OF k(3)] by (simp add: k2 rest1 remove1_idem)
  have "timer_expire t k = Some k'"
    using p k2 off k(4)
    by (simp add: timer_expire_def Let_def k'_def k1_def [unfolded upd_timer_def, symmetric] upd_timer_def rest1)
  moreover have "sched_ok k'" using k2(2) queues_ok_cong [of k2 k'] by (simp add: k'_def sched_ok_def cur_ok_def)
  moreover have "timers_ok lo k'" by (rule timers_ok_cong [OF t2]) (simp_all add: k'_def nin)
  moreover have "wakes {t} k k'" using \<open>wakes {t} k k2\<close> by (simp add: k'_def wakes_def)
  ultimately show ?thesis using nin by (simp add: k'_def k2 rest1)
qed

section \<open>The check of the timers\<close>

text \<open>After the tick counter has gone up, the timers whose time is up are those with at most one tick
  left on the scale that starts one tick back.\<close>

lemma expired_iff:
  assumes "due k t \<le> 0x7FFFFFFF"
  shows "rt_tick k - timeout_tick (tm k t) < 0x7FFFFFFF \<longleftrightarrow> due k t \<le> 1"
proof -
  define d where "d = timeout_tick (tm k t) - (rt_tick k - 1)"
  have "rt_tick k - timeout_tick (tm k t) = 1 - d" by (simp add: d_def)
  moreover from assms have "unat d \<le> 0x7FFFFFFF" by (simp add: due_def d_def)
  then have "1 - d < 0x7FFFFFFF \<longleftrightarrow> unat d \<le> 1"
    by (cases "unat d \<le> 1") (simp_all add: word_less_nat_alt unat_sub_if_size word_size)
  ultimately show ?thesis by (simp add: due_def d_def)
qed

lemma rt_timer_check_ok:
  assumes "sched_ok k" "rt_current_thread k \<noteq> None" "timers_ok 0 k" "expired_list k = []"
  shows "\<exists>k'. rt_timer_check k = Some k' \<and> sched_ok k' \<and> timers_ok 2 k' \<and> expired_list k' = [] \<and>
     wakes {t \<in> set (rt_timer_list k). due k t \<le> 1} k k' \<and>
     rt_timer_list k' = filter (\<lambda>t. 2 \<le> due k t) (rt_timer_list k)"
  using assms
proof (induction "rt_timer_list k" arbitrary: k)
  case Nil
  have "timers_ok 2 k" using Nil.prems(3) Nil.hyps [symmetric] by (simp add: timers_ok_def)
  with Nil show ?case by (simp add: rt_timer_check.simps wakes_empty)
next
  case (Cons t ts)
  note l = Cons.hyps(2) [symmetric]
  have t: "t \<in> set (rt_timer_list k)" by (simp add: l)
  note exp = expired_iff [OF timers_okD(5) [OF Cons.prems(3) t]]
  have sorted: "due k t \<le> due k x" if "x \<in> set ts" for x using timers_okD(7) [OF Cons.prems(3)] that by (simp add: l)
  show ?case
  proof (cases "due k t \<le> 1")
    case True
    obtain k1 where k1: "timer_expire t k = Some k1" "sched_ok k1" "timers_ok 0 k1" "expired_list k1 = []" "wakes {t} k k1"
        "rt_timer_list k1 = ts"
      using timer_expire_ok [OF Cons.prems t] by (auto simp: l)
    have "rt_current_thread k1 \<noteq> None" using k1(5) Cons.prems(2) by (simp add: wakes_def)
    from Cons.hyps(1) [OF k1(6) [symmetric] k1(2) this k1(3,4)] obtain k' where
      k': "rt_timer_check k1 = Some k'" "sched_ok k'" "timers_ok 2 k'" "expired_list k' = []"
        "wakes {x \<in> set ts. due k1 x \<le> 1} k1 k'" "rt_timer_list k' = filter (\<lambda>x. 2 \<le> due k1 x) ts"
      by (auto simp: k1)
    have d: "due k1 = due k" using k1(5) by (intro ext) (simp add: due_def wakes_def)
    have "{t} \<union> {x \<in> set ts. due k x \<le> 1} = {x \<in> set (rt_timer_list k). due k x \<le> 1}" using True by (auto simp: l)
    then have "wakes {x \<in> set (rt_timer_list k). due k x \<le> 1} k k'" using wakes_trans [OF k1(5) k'(5)] by (simp add: d)
    moreover have "rt_timer_check k = Some k'" using True exp by (subst rt_timer_check.simps) (simp add: l k1 k')
    ultimately show ?thesis using k' True by (simp add: l d)
  next
    case False
    then have late: "2 \<le> due k x" if "x \<in> set (rt_timer_list k)" for x using that sorted [of x] by (auto simp: l)
    then have none: "{x \<in> set (rt_timer_list k). due k x \<le> 1} = {}" by fastforce
    have "rt_timer_check k = Some k" using False exp by (subst rt_timer_check.simps) (simp add: l)
    moreover have "timers_ok 2 k" using Cons.prems(3) late by (auto simp: timers_ok_def)
    moreover have "filter (\<lambda>x. 2 \<le> due k x) (rt_timer_list k) = rt_timer_list k" using late by (simp add: filter_id_conv)
    ultimately show ?thesis using Cons.prems none by (simp only:) (auto intro: wakes_empty)
  qed
qed

section \<open>The tick\<close>

definition ticked :: "nat set \<Rightarrow> kernel \<Rightarrow> kernel \<Rightarrow> bool" where
  "ticked W k k' \<longleftrightarrow>
     (\<forall>t. woken_stat (t \<in> W) (st k t) (st k' t) \<and>
          error (thr k' t) = (if t \<in> W then - RT_ETIMEOUT else error (thr k t)) \<and>
          current_priority (thr k' t) = current_priority (thr k t) \<and>
          timeout_tick (tm k' t) = timeout_tick (tm k t)) \<and>
     (\<forall>s. waiters k' s = filter (\<lambda>t. t \<notin> W) (waiters k s)) \<and>
     scheduler_lock_nest k' = scheduler_lock_nest k \<and> rt_tick k' = rt_tick k + 1 \<and> sems k' = sems k \<and>
     rt_current_thread k' \<noteq> None"

lemma due_next_tick:
  assumes "timeout_tick (tm k' t) = timeout_tick (tm k t)" "rt_tick k' = rt_tick k + 1" "1 \<le> due k t"
  shows "due k' t = due k t - 1"
proof -
  define d where "d = timeout_tick (tm k t) - (rt_tick k - 1)"
  have "timeout_tick (tm k' t) - (rt_tick k' - 1) = d - 1" by (simp add: d_def assms)
  moreover from assms(3) have "unat (d - 1) = unat d - 1" by (simp add: due_def d_def [symmetric] unat_sub_if_size word_size)
  ultimately show ?thesis by (simp add: due_def d_def)
qed

lemma timers_ok_next_tick:
  assumes k: "timers_ok 1 k" and k': "rt_tick k' = rt_tick k + 1" "rt_timer_list k' = rt_timer_list k"
    and same: "\<And>t. tm k' t = tm k t" "\<And>t. st k t = 2 \<Longrightarrow> st k' t = 2"
  shows "timers_ok 0 k'"
proof -
  have d: "due k' t = due k t - 1" if "t \<in> set (rt_timer_list k)" for t
    by (rule due_next_tick) (use same k' timers_okD(4) [OF k that] in auto)
  have "map (due k') (rt_timer_list k) = map (\<lambda>n. n - 1) (map (due k) (rt_timer_list k))" using d by simp
  moreover have "sorted (map (\<lambda>n. n - 1 :: nat) xs)" if "sorted xs" for xs
    using that by (induction xs) (auto intro: diff_le_mono)
  ultimately have "sorted (map (due k') (rt_timer_list k'))" using timers_okD(7) [OF k] by (simp only: k')
  with k d show ?thesis unfolding timers_ok_def k' same using same(2) by fastforce
qed

text \<open>A tick returns, keeps the invariants, and wakes the threads whose timers end with it.\<close>

theorem rt_tick_increase_ok:
  assumes k: "sched_ok k" "rt_current_thread k \<noteq> None" "timers_ok 1 k" "expired_list k = []"
  shows "\<exists>k'. rt_tick_increase k = Some k' \<and> sched_ok k' \<and> timers_ok 2 k' \<and> expired_list k' = [] \<and>
     ticked {t \<in> set (rt_timer_list k). due k t \<le> 2} k k' \<and>
     rt_timer_list k' = filter (\<lambda>t. 3 \<le> due k t) (rt_timer_list k)"
proof -
  from k(2) obtain c where c: "rt_current_thread k = Some c" by auto
  define k1 where "k1 = upd_thr c (\<lambda>th. th\<lparr>remaining_tick := remaining_tick th - 1\<rparr>) (k\<lparr>rt_tick := rt_tick k + 1\<rparr>)"
  define k2 where "k2 = (if remaining_tick (thr k1 c) = 0
     then upd_thr c (\<lambda>th. th\<lparr>remaining_tick := init_tick th, stat := stat th OR 8\<rparr>) k1 else k1)"
  have thr2: "st k2 t = st k t" "tm k2 t = tm k t" "current_priority (thr k2 t) = current_priority (thr k t)"
    "error (thr k2 t) = error (thr k t)" "number_mask (thr k2 t) = number_mask (thr k t)"
    "init_priority (thr k2 t) = init_priority (thr k t)" for t
    by (auto simp: k2_def k1_def stat_of_def and.assoc bit.conj_disj_distrib2)
  have rest2: "rt_tick k2 = rt_tick k + 1" "rt_current_thread k2 = rt_current_thread k" "lists k2 = lists k"
    "ready_priority_group k2 = ready_priority_group k" "scheduler_lock_nest k2 = scheduler_lock_nest k" "sems k2 = sems k"
    "rt_timer_list k2 = rt_timer_list k" "expired_list k2 = expired_list k"
    by (simp_all add: k2_def k1_def)
  have "queues_ok k2" using k(1) by (intro queues_ok_cong [of k k2]) (simp_all add: sched_ok_def thr2 rest2)
  then have s2: "sched_ok k2" using k(1) by (simp add: sched_ok_def cur_ok_def thr2 rest2)
  obtain k3 where k3: "(if remaining_tick (thr k1 c) = 0 then rt_schedule k2 else Some k2) = Some k3"
      "sched_ok k3" "sched_frame k2 k3"
    using rt_schedule_ok [OF s2] s2 rest2(2) k(2) sched_frame_refl [of k2] by (metis (full_types))
  have t3: "timers_ok 0 k3"
    by (rule timers_ok_next_tick [OF k(3)]) (use sched_frameD [OF k3(3)] rest2 thr2 in auto)
  have d3: "due k3 t = due k t - 1" if "t \<in> set (rt_timer_list k)" for t
    by (rule due_next_tick) (use sched_frameD [OF k3(3)] rest2 thr2 timers_okD(4) [OF k(3) that] in auto)
  have l3: "rt_timer_list k3 = rt_timer_list k" "rt_tick k3 = rt_tick k + 1" "expired_list k3 = []" "rt_current_thread k3 \<noteq> None"
    using sched_frameD [OF k3(3)] rest2 k(2,4) by auto
  obtain k' where k': "rt_timer_check k3 = Some k'" "sched_ok k'" "timers_ok 2 k'" "expired_list k' = []"
      "wakes {t \<in> set (rt_timer_list k3). due k3 t \<le> 1} k3 k'" "rt_timer_list k' = filter (\<lambda>t. 2 \<le> due k3 t) (rt_timer_list k3)"
    using rt_timer_check_ok [OF k3(2) l3(4) t3 l3(3)] by auto
  have W: "{t \<in> set (rt_timer_list k3). due k3 t \<le> 1} = {t \<in> set (rt_timer_list k). due k t \<le> 2}"
    using d3 timers_okD(4) [OF k(3)] by (force simp: l3)
  have l': "rt_timer_list k' = filter (\<lambda>t. 3 \<le> due k t) (rt_timer_list k)"
    unfolding k' l3 using d3 by (intro filter_cong) auto
  have "wakes {t \<in> set (rt_timer_list k). due k t \<le> 2} k2 k'"
    using wakes_trans [OF wakes_empty [OF k3(3)] k'(5)] unfolding W by simp
  then have "ticked {t \<in> set (rt_timer_list k). due k t \<le> 2} k k'"
    unfolding wakes_def ticked_def by (simp add: thr2 rest2 k(2))
  moreover have "remaining_tick (thr k1 c) = remaining_tick (thr k c) - 1" by (simp add: k1_def)
  then have "rt_tick_increase k = Some k'"
    using c k3(1) k'(1) unfolding rt_tick_increase_def by (simp add: k1_def [symmetric] k2_def split: if_splits)
  ultimately show ?thesis using k' l' by auto
qed

end
