(* ===== verification/Rt_Ipc.thy ===== *)
theory Rt_Ipc
  imports Rt_Sched_Timers
begin

text \<open>
  Semaphores, \<^verbatim>\<open>rt-thread/src/ipc.c\<close>: the lock of the heap (\<open>heap_sem\<close> in \<^verbatim>\<open>mem.c\<close>) is one.
  As in the scheduler, a definition is the stretch of the function that runs with interrupts disabled;
  \<open>rt_sem_take\<close> then calls \<open>rt_schedule\<close> when it has suspended its caller, which goes on with
  \<open>rt_sem_take_return\<close> when it runs again; \<open>rt_sem_release\<close> calls \<open>rt_schedule\<close> when it has resumed a thread.
\<close>

section \<open>Operations\<close>

definition RT_IPC_FLAG_FIFO :: u8 where [simp]: "RT_IPC_FLAG_FIFO = 0"
definition RT_IPC_FLAG_PRIO :: u8 where [simp]: "RT_IPC_FLAG_PRIO = 1"
definition RT_SEM_VALUE_MAX :: u16 where [simp]: "RT_SEM_VALUE_MAX = 0xFFFF"

definition rt_sem_init :: "nat \<Rightarrow> u32 \<Rightarrow> u8 \<Rightarrow> kernel \<Rightarrow> kernel option" where
  "rt_sem_init s value flag k =
     (if value < 0x10000
      then Some (k\<lparr>lists := (lists k)(Suspend_thread s := []), sems := (sems k)(s := \<lparr>sem_value = ucast value, sem_flag = flag\<rparr>)\<rparr>)
      else None)"

text \<open>The place of a thread in a list ordered by priority: before the first one with a worse
  priority.\<close>

fun prio_insert :: "(nat \<Rightarrow> u8) \<Rightarrow> nat \<Rightarrow> nat list \<Rightarrow> nat list" where
  "prio_insert pr t [] = [t]"
| "prio_insert pr t (x # xs) = (if pr t < pr x then t # x # xs else x # prio_insert pr t xs)"

definition rt_ipc_list_suspend :: "nat \<Rightarrow> nat \<Rightarrow> u8 \<Rightarrow> kernel \<Rightarrow> kernel option" where
  "rt_ipc_list_suspend s t flag k =
     do { (_, k) \<leftarrow> rt_thread_suspend t k;
          Some (if flag = RT_IPC_FLAG_FIFO then rt_list_insert_before (Suspend_thread s) t k
                else if flag = RT_IPC_FLAG_PRIO
                then k\<lparr>lists := (lists k)(Suspend_thread s :=
                       prio_insert (\<lambda>i. current_priority (thr k i)) t (lists k (Suspend_thread s)))\<rparr>
                else k) }"

datatype take_result = Taken | Timed_out | Blocked

definition rt_sem_take :: "nat \<Rightarrow> 32 word \<Rightarrow> kernel \<Rightarrow> (take_result \<times> kernel) option" where
  "rt_sem_take s time k =
     (if sem_value (sems k s) > 0
      then Some (Taken, k\<lparr>sems := (sems k)(s := (sems k s)\<lparr>sem_value := sem_value (sems k s) - 1\<rparr>)\<rparr>)
      else if time = 0 then Some (Timed_out, k)
      else do {
        t \<leftarrow> rt_current_thread k;
        let k = upd_thr t (\<lambda>th. th\<lparr>error := RT_EOK\<rparr>) k;
        k \<leftarrow> rt_ipc_list_suspend s t (sem_flag (sems k s)) k;
        k \<leftarrow> (if sint time > 0 then start_thread_timer t time k else Some k);
        Some (Blocked, k)
      })"

text \<open>What a call that was blocked returns when its thread runs again.\<close>

definition rt_sem_take_return :: "nat \<Rightarrow> kernel \<Rightarrow> int" where
  "rt_sem_take_return t k = (if error (thr k t) \<noteq> RT_EOK then error (thr k t) else RT_EOK)"

definition rt_sem_trytake :: "nat \<Rightarrow> kernel \<Rightarrow> (take_result \<times> kernel) option" where
  "rt_sem_trytake s k = rt_sem_take s 0 k"

text \<open>The result, and whether a thread was resumed.\<close>

definition rt_sem_release :: "nat \<Rightarrow> kernel \<Rightarrow> int \<times> bool \<times> kernel" where
  "rt_sem_release s k =
     (case lists k (Suspend_thread s) of
        w # _ \<Rightarrow> (RT_EOK, True, snd (rt_thread_resume w k))
      | [] \<Rightarrow> if sem_value (sems k s) < RT_SEM_VALUE_MAX
              then (RT_EOK, False, k\<lparr>sems := (sems k)(s := (sems k s)\<lparr>sem_value := sem_value (sems k s) + 1\<rparr>)\<rparr>)
              else (- RT_EFULL, False, k))"

section \<open>Signed times\<close>

lemma sint_pos: "0 < sint (w :: 32 word) \<Longrightarrow> uint w = sint w"
  using sint_lt [of w] by (simp add: uint_sint take_bit_eq_mod)

lemma sint_pos_less: "0 < sint (w :: 32 word) \<Longrightarrow> w \<noteq> 0x7FFFFFFF \<Longrightarrow> w < 0x7FFFFFFF"
  using sint_lt [of w] sint_pos [of w] by (simp add: word_less_alt word_uint_eq_iff)

end
