(* ===== verification/Rt_Kernel.thy ===== *)
theory Rt_Kernel
  imports Rt_Ipc Reactive
begin

text \<open>
  The kernel as a reactive system. An event is a system tick or a kernel call of the running thread, at
  the granularity of the stretches that run with interrupts disabled, so a tick can fall between the
  suspension of a thread in \<open>rt_thread_sleep\<close> or \<open>rt_sem_take\<close> and the \<open>rt_schedule\<close> that follows. Every
  event keeps the invariant \<open>kernel_ok\<close> and fails no assertion of the kernel.
\<close>

section \<open>Events\<close>

text \<open>The idle thread; it never blocks.\<close>

definition tidle :: nat where "tidle = 0"

datatype kernel_event =
    Tick
  | Schedule nat
  | Sleep nat u32
  | Sleep_return nat
  | Yield nat
  | Suspend_self nat
  | Enter_critical nat
  | Exit_critical nat
  | Take nat nat "32 word"
  | Take_return nat
  | Release nat nat
  | Create nat nat u8 u32

text \<open>A kernel call happens when its thread has the processor and is not inside \<open>rt_sem_take\<close>; otherwise the
  event does nothing. Beside the kernel, the state records what the callers know: for every
  semaphore the threads to which \<open>rt_sem_take\<close> has returned \<open>RT_EOK\<close> and that have not released
  it since, and for every thread the semaphore it waits for inside \<open>rt_sem_take\<close>. A thread releases
  what it holds, and \<open>rt_thread_create\<close> returns an object that is not in use.\<close>

record callers =
  holds :: "nat \<Rightarrow> nat list"
  waits :: "nat \<Rightarrow> nat option"

definition no_calls :: callers where
  "no_calls = \<lparr>holds = (\<lambda>_. []), waits = (\<lambda>_. None)\<rparr>"

definition running :: "nat \<Rightarrow> kernel \<Rightarrow> bool" where
  "running t k \<longleftrightarrow> rt_current_thread k = Some t \<and> st k t = RT_THREAD_RUNNING"

text \<open>A call takes effect when its thread is running. (In the code a thread that suspends itself while the scheduler is locked
  goes on, since \<open>rt_schedule\<close> returns at once; its calls until the lock is released are not modelled. No thread of the firmware does that.)\<close>

definition can_call :: "nat \<Rightarrow> kernel \<Rightarrow> callers \<Rightarrow> bool" where
  "can_call t k c \<longleftrightarrow> running t k \<and> waits c t = None"

definition when_running :: "nat \<Rightarrow> (kernel \<Rightarrow> kernel option) \<Rightarrow> kernel \<times> callers \<Rightarrow> (kernel \<times> callers) option" where
  "when_running t f s = (case s of (k, c) \<Rightarrow>
     if can_call t k c then map_option (\<lambda>k. (k, c)) (f k) else Some (k, c))"

definition take_called :: "nat \<Rightarrow> nat \<Rightarrow> take_result \<Rightarrow> callers \<Rightarrow> callers" where
  "take_called t i r c = (case r of
     Taken \<Rightarrow> c\<lparr>holds := (holds c)(i := t # holds c i)\<rparr>
   | Timed_out \<Rightarrow> c
   | Blocked \<Rightarrow> c\<lparr>waits := (waits c)(t := Some i)\<rparr>)"

definition take_returned :: "nat \<Rightarrow> nat \<Rightarrow> int \<Rightarrow> callers \<Rightarrow> callers" where
  "take_returned t i r c =
     c\<lparr>waits := (waits c)(t := None), holds := (if r = RT_EOK then (holds c)(i := t # holds c i) else holds c)\<rparr>"

fun kernel_step :: "kernel_event \<Rightarrow> kernel \<times> callers \<Rightarrow> (kernel \<times> callers) option" where
  "kernel_step Tick (k, c) = map_option (\<lambda>k. (k, c)) (rt_tick_increase k)"
| "kernel_step (Schedule t) (k, c) =
     (if rt_current_thread k = Some t then map_option (\<lambda>k. (k, c)) (rt_schedule k) else Some (k, c))"
| "kernel_step (Sleep t n) s = when_running t (rt_thread_sleep_suspend n) s"
| "kernel_step (Sleep_return t) s = when_running t (\<lambda>k. Some (rt_thread_sleep_return t k)) s"
| "kernel_step (Yield t) s = when_running t rt_thread_yield s"
| "kernel_step (Suspend_self t) s = when_running t (\<lambda>k. map_option snd (rt_thread_suspend t k)) s"
| "kernel_step (Enter_critical t) s = when_running t (\<lambda>k. Some (rt_enter_critical k)) s"
| "kernel_step (Exit_critical t) s = when_running t rt_exit_critical s"
| "kernel_step (Take t i time) (k, c) =
     (if can_call t k c then map_option (\<lambda>(r, k). (k, take_called t i r c)) (rt_sem_take i time k) else Some (k, c))"
| "kernel_step (Take_return t) (k, c) =
     (case waits c t of
        Some i \<Rightarrow> Some (k, if running t k then take_returned t i (rt_sem_take_return t k) c else c)
      | None \<Rightarrow> Some (k, c))"
| "kernel_step (Release t i) (k, c) =
     (if can_call t k c \<and> t \<in> set (holds c i)
      then case rt_sem_release i k of (_, _, k) \<Rightarrow> Some (k, c\<lparr>holds := (holds c)(i := remove1 t (holds c i))\<rparr>)
      else Some (k, c))"
| "kernel_step (Create t u priority tick) (k, c) =
     (if can_call t k c \<and> st k u = RT_THREAD_INIT
      then do { k \<leftarrow> rt_thread_init u priority tick k; k \<leftarrow> rt_thread_startup u k; Some (k, c) }
      else Some (k, c))"

fun kernel_run :: "kernel_event list \<Rightarrow> kernel \<times> callers \<Rightarrow> (kernel \<times> callers) option" where
  "kernel_run [] s = Some s"
| "kernel_run (e # es) s = do { s \<leftarrow> kernel_step e s; kernel_run es s }"

text \<open>The calls the kernel supports: the idle thread does not block, times are below the half of the
  tick range, priorities below 32.\<close>

fun supported :: "kernel_event \<Rightarrow> bool" where
  "supported (Sleep t n) = (t \<noteq> tidle \<and> n < 0x7FFFFFFF)"
| "supported (Suspend_self t) = (t \<noteq> tidle)"
| "supported (Take t i time) = (t \<noteq> tidle \<and> time \<noteq> 0x7FFFFFFF)"
| "supported (Create t u priority tick) = (unat priority < 32)"
| "supported _ = True"

section \<open>The invariant\<close>

definition kernel_ok :: "kernel \<Rightarrow> bool" where
  "kernel_ok k \<longleftrightarrow>
     sched_ok k \<and> timers_ok 1 k \<and> expired_list k = [] \<and> rt_current_thread k \<noteq> None \<and>
     (st k tidle = 1 \<or> st k tidle = 3) \<and>
     (\<forall>i. waiters k i \<noteq> [] \<longrightarrow> sem_value (sems k i) = 0)"

text \<open>The threads that were handed a unit of a semaphore and have not yet returned from \<open>rt_sem_take\<close>.\<close>

definition granted :: "kernel \<Rightarrow> callers \<Rightarrow> nat \<Rightarrow> nat set" where
  "granted k c i = {t. waits c t = Some i \<and> t \<notin> set (waiters k i) \<and> error (thr k t) = RT_EOK}"

text \<open>A thread in the list of a semaphore is inside \<open>rt_sem_take\<close>; once it has left the list its timer is
  off, so nothing changes the result it will return.\<close>

definition calls_ok :: "kernel \<Rightarrow> callers \<Rightarrow> bool" where
  "calls_ok k c \<longleftrightarrow>
     (\<forall>i t. t \<in> set (waiters k i) \<longrightarrow> waits c t = Some i \<and> error (thr k t) = RT_EOK) \<and>
     (\<forall>i t. waits c t = Some i \<longrightarrow> st k t \<noteq> RT_THREAD_INIT \<and> (t \<in> set (rt_timer_list k) \<longrightarrow> t \<in> set (waiters k i))) \<and>
     (\<forall>i. sem_flag (sems k i) = RT_IPC_FLAG_FIFO \<or> sem_flag (sems k i) = RT_IPC_FLAG_PRIO)"

definition kernel_inv :: "(nat \<Rightarrow> nat) \<Rightarrow> kernel \<times> callers \<Rightarrow> bool" where
  "kernel_inv units s \<longleftrightarrow> (case s of (k, c) \<Rightarrow>
     kernel_ok k \<and> calls_ok k c \<and>
     (\<forall>i. finite (granted k c i) \<and> units i \<le> 65535 \<and>
          unat (sem_value (sems k i)) + length (holds c i) + card (granted k c i) = units i))"

text \<open>What a call leaves alone: the tick, and the timers of the threads outside a set, which do not start to
  wait for a semaphore either.\<close>

definition others_kept :: "nat set \<Rightarrow> kernel \<Rightarrow> kernel \<Rightarrow> bool" where
  "others_kept A k k' \<longleftrightarrow>
     rt_tick k' = rt_tick k \<and>
     (\<forall>t. t \<notin> A \<longrightarrow> tm k' t = tm k t \<and> (\<forall>i. t \<in> set (waiters k' i) \<longrightarrow> t \<in> set (waiters k i)))"

lemma others_kept_trans: "others_kept A k k1 \<Longrightarrow> others_kept A k1 k' \<Longrightarrow> others_kept A k k'"
  by (simp add: others_kept_def)

lemma others_kept_mono: "others_kept A k k' \<Longrightarrow> A \<subseteq> B \<Longrightarrow> others_kept B k k'"
  by (auto simp: others_kept_def)

text \<open>What a call that is not about a semaphore leaves alone: the semaphores, and the error code of the threads
  outside a set.\<close>

definition sems_kept :: "nat set \<Rightarrow> kernel \<Rightarrow> kernel \<Rightarrow> bool" where
  "sems_kept A k k' \<longleftrightarrow>
     sems k' = sems k \<and> (\<forall>i. waiters k' i = waiters k i) \<and>
     (\<forall>t. t \<notin> A \<longrightarrow> error (thr k' t) = error (thr k t) \<and> (st k' t = 0 \<longleftrightarrow> st k t = 0))"

lemma sems_kept_trans: "sems_kept A k k1 \<Longrightarrow> sems_kept A k1 k' \<Longrightarrow> sems_kept A k k'"
  by (simp add: sems_kept_def)

lemma sems_kept_mono: "sems_kept A k k' \<Longrightarrow> A \<subseteq> B \<Longrightarrow> sems_kept B k k'"
  by (auto simp: sems_kept_def)

lemma sched_ok_cong:
  assumes "sched_ok k" "lists k' = lists k" "ready_priority_group k' = ready_priority_group k"
    and "rt_current_thread k' = rt_current_thread k"
    and "\<And>t. st k' t = st k t" "\<And>t. current_priority (thr k' t) = current_priority (thr k t)"
    and "\<And>t. number_mask (thr k' t) = number_mask (thr k t)"
    and "\<And>t. init_priority (thr k' t) = init_priority (thr k t)"
  shows "sched_ok k'"
  using assms queues_ok_cong [of k k'] by (simp add: sched_ok_def cur_ok_def)

text \<open>The effect of \<open>rt_schedule\<close> on the invariant.\<close>

lemma kernel_ok_frame:
  assumes k: "kernel_ok k" and k': "sched_ok k'" "sched_frame k k'"
  shows "kernel_ok k' \<and> others_kept {} k k' \<and> sems_kept {} k k'"
proof -
  have "sems_kept {} k k'" unfolding sems_kept_def using sched_frameD [OF k'(2)]
    by (auto simp: kept_stat_zero)
  moreover have "timers_ok 1 k'" using k timers_ok_frame [OF _ k'(2)] by (simp add: kernel_ok_def)
  moreover have "st k' tidle = 1 \<or> st k' tidle = 3"
    using k sched_frameD(8) [OF k'(2), of tidle] by (auto simp: kernel_ok_def)
  ultimately show ?thesis
    using k k'(1) sched_frameD [OF k'(2)] unfolding kernel_ok_def others_kept_def by simp
qed

lemma kernel_ok_schedule:
  assumes k: "kernel_ok k"
  obtains k' where "rt_schedule k = Some k'" "kernel_ok k'" "others_kept {} k k'" "sems_kept {} k k'"
proof -
  from k have "sched_ok k" "rt_current_thread k \<noteq> None" by (simp_all add: kernel_ok_def)
  then obtain k' where k': "rt_schedule k = Some k'" "sched_ok k'" "sched_frame k k'" by (rule rt_schedule_ok)
  with kernel_ok_frame [OF k] that show ?thesis by blast
qed

end
