(* ===== verification/Rt_Kernel_Calls.thy ===== *)
theory Rt_Kernel_Calls
  imports Rt_Kernel
begin

text \<open>
  Every kernel call of a running thread keeps the invariant of the kernel and leaves the timers of the other
  threads alone.
\<close>

section \<open>Suspending the running thread\<close>

lemma suspend_running_ok:
  assumes k: "sched_ok k" "timers_ok lo k" and t: "rt_current_thread k = Some t" "st k t = 3"
  shows "\<exists>k'. rt_thread_suspend t k = Some (0, k') \<and> sched_ok k' \<and> timers_ok lo k' \<and>
     thr k' = (thr k)(t := with_stat 2 (thr k t)) \<and> lists k' = lists k \<and>
     k' = k\<lparr>thr := thr k', ready_priority_group := ready_priority_group k'\<rparr>"
proof -
  define k' where "k' = upd_thr t (with_stat 2) (rt_schedule_remove_thread t k)"
  from k(1) have q: "queues_ok k" and cur: "cur_ok k" by (simp_all add: sched_ok_def)
  have "\<not> has_flag 1 (tm k t)" using timers_okD(2,3) [OF k(2), of t] t by auto
  then have "rt_timer_stop t k' = (- RT_ERROR, k')"
    by (simp add: rt_timer_stop_def k'_def rt_schedule_remove_thread_def rt_list_remove_def Let_def)
  then have eval: "rt_thread_suspend t k = Some (0, k')"
    using t by (simp add: rt_thread_suspend_def Let_def k'_def)
  have nin: "t \<notin> set (lists k h)" for h
    using queues_okD(1) [OF q, of t] queues_okD(2) [OF q, of t] t(2) by (cases h) auto
  have thr': "thr k' = (thr k)(t := with_stat 2 (thr k t))"
    by (rule ext) (simp add: k'_def rt_schedule_remove_thread_def rt_list_remove_def Let_def)
  have lists': "lists k' = lists k" using nin
    by (simp add: k'_def rt_schedule_remove_thread_def rt_list_remove_def Let_def remove1_idem)
  have rest': "k' = k\<lparr>thr := thr k', ready_priority_group := ready_priority_group k'\<rparr>"
    using nin by (simp add: k'_def rt_schedule_remove_thread_def rt_list_remove_def Let_def remove1_idem upd_thr_def)
  have cur': "rt_current_thread k' = Some t" using t by (subst rest') simp
  have "queues_ok k'" unfolding k'_def by (rule queues_ok_remove [OF q]) (use t in auto)
  moreover have "cur_ok k'"
    unfolding cur_ok_def cur' thr' using cur_ok_running [OF cur t(1)] by auto
  moreover have "timers_ok lo k'"
    by (rule timers_ok_cong [OF k(2)]) (subst rest', simp add: thr')+
  ultimately show ?thesis using eval thr' lists' rest' by (auto simp: sched_ok_def)
qed

lemma start_timer_ok:
  assumes k: "sched_ok k" "timers_ok lo k" "lo \<le> 1" and n: "n < 0x7FFFFFFF" and t: "st k t = 2"
  shows "\<exists>k'. start_thread_timer t n k = Some k' \<and> sched_ok k' \<and> timers_ok lo k' \<and> due k' t = Suc (unat n) \<and>
     t \<in> set (rt_timer_list k') \<and> (\<forall>x. st k' x = st k x) \<and> lists k' = lists k \<and> sems k' = sems k \<and> rt_tick k' = rt_tick k \<and>
     rt_current_thread k' = rt_current_thread k \<and> expired_list k' = remove1 t (expired_list k) \<and>
     (\<forall>x. x \<noteq> t \<longrightarrow> tm k' x = tm k x) \<and> (\<forall>x. current_priority (thr k' x) = current_priority (thr k x)) \<and>
     scheduler_lock_nest k' = scheduler_lock_nest k \<and> (\<forall>x. error (thr k' x) = error (thr k x))"
proof -
  from start_thread_timer_ok [OF k(2,3) n t] obtain k' v where
    eval: "start_thread_timer t n k = Some k'" and ok: "timers_ok lo k'" "due k' t = Suc (unat n)" "t \<in> set (rt_timer_list k')"
    and rest: "k' = k\<lparr>thr := thr k', rt_timer_list := rt_timer_list k', expired_list := remove1 t (expired_list k)\<rparr>"
    and thr: "\<And>x. x \<noteq> t \<Longrightarrow> thr k' x = thr k x" "thr k' t = (thr k t)\<lparr>thread_timer := v\<rparr>" by blast
  have fields: "lists k' = lists k" "ready_priority_group k' = ready_priority_group k" "sems k' = sems k" "rt_tick k' = rt_tick k"
    "rt_current_thread k' = rt_current_thread k" "expired_list k' = remove1 t (expired_list k)"
    "scheduler_lock_nest k' = scheduler_lock_nest k" by (subst rest, simp)+
  have same: "st k' x = st k x" "current_priority (thr k' x) = current_priority (thr k x)"
    "number_mask (thr k' x) = number_mask (thr k x)" "init_priority (thr k' x) = init_priority (thr k x)"
    "error (thr k' x) = error (thr k x)" for x
    using thr by (cases "x = t"; simp add: stat_of_def)+
  have "sched_ok k'" by (rule sched_ok_cong [OF k(1)]) (simp_all add: fields same)
  then show ?thesis using eval ok fields same thr(1) by auto
qed

lemma sleep_ok:
  assumes k: "kernel_ok k" and t: "running t k" "t \<noteq> tidle" and n: "n < 0x7FFFFFFF"
  shows "\<exists>k'. rt_thread_sleep_suspend n k = Some k' \<and> kernel_ok k' \<and> others_kept {t} k k' \<and> sems_kept {} k k' \<and>
     t \<in> set (rt_timer_list k') \<and> due k' t = Suc (unat n) \<and> (\<forall>i. t \<notin> set (waiters k' i)) \<and>
     (\<forall>x. st k' x = (if x = t then 2 else st k x)) \<and> (\<forall>x. prio k' x = prio k x) \<and>
     scheduler_lock_nest k' = scheduler_lock_nest k \<and> rt_current_thread k' = Some t"
proof -
  from k have q: "queues_ok k" by (simp add: kernel_ok_def sched_ok_def)
  from t have c: "rt_current_thread k = Some t" "st k t = 3" by (simp_all add: running_def)
  from suspend_running_ok [OF _ _ c] k obtain k1 where
    k1: "rt_thread_suspend t k = Some (0, k1)" "sched_ok k1" "timers_ok 1 k1" "thr k1 = (thr k)(t := with_stat 2 (thr k t))"
      "lists k1 = lists k" and rest: "k1 = k\<lparr>thr := thr k1, ready_priority_group := ready_priority_group k1\<rparr>"
    unfolding kernel_ok_def by blast
  have f1: "rt_current_thread k1 = rt_current_thread k" "expired_list k1 = expired_list k" "sems k1 = sems k" "rt_tick k1 = rt_tick k"
    "scheduler_lock_nest k1 = scheduler_lock_nest k" by (subst rest, simp)+
  have st1: "st k1 x = (if x = t then 2 else st k x)" "tm k1 x = tm k x" for x by (simp_all add: k1)
  from start_timer_ok [OF k1(2,3) _ n, of t] obtain k' where
    k': "start_thread_timer t n k1 = Some k'" "sched_ok k'" "timers_ok 1 k'" "due k' t = Suc (unat n)" "t \<in> set (rt_timer_list k')"
      "\<And>x. st k' x = st k1 x" "lists k' = lists k1" "sems k' = sems k1" "rt_tick k' = rt_tick k1"
      "rt_current_thread k' = rt_current_thread k1" "expired_list k' = remove1 t (expired_list k1)" "\<And>x. x \<noteq> t \<Longrightarrow> tm k' x = tm k1 x"
      "\<And>x. current_priority (thr k' x) = current_priority (thr k1 x)" "scheduler_lock_nest k' = scheduler_lock_nest k1"
      "\<And>x. error (thr k' x) = error (thr k1 x)"
    by (auto simp: st1)
  have "kernel_ok k'"
    using k k'(2,3) t unfolding kernel_ok_def k' f1 st1 k1(5) by simp
  moreover have "others_kept {t} k k'" unfolding others_kept_def k' f1 k1(5) using k'(12) st1 by auto
  moreover have "sems_kept {} k k'" using c by (simp add: sems_kept_def k' f1 k1)
  moreover have "t \<notin> set (waiters k' i)" for i using queues_okD(2) [OF q, of t i] c by (auto simp: k' k1)
  moreover have "prio k' x = prio k x" for x by (simp add: k' k1)
  ultimately show ?thesis using c k1(1) k' f1 st1 by (simp add: rt_thread_sleep_suspend_def)
qed

lemma suspend_self_ok:
  assumes k: "kernel_ok k" and t: "running t k" "t \<noteq> tidle"
  shows "\<exists>k'. rt_thread_suspend t k = Some (0, k') \<and> kernel_ok k' \<and> others_kept {t} k k' \<and> sems_kept {} k k' \<and>
     (\<forall>x. st k' x = (if x = t then 2 else st k x)) \<and> (\<forall>x. prio k' x = prio k x) \<and>
     scheduler_lock_nest k' = scheduler_lock_nest k \<and> rt_current_thread k' = Some t"
proof -
  from t have c: "rt_current_thread k = Some t" "st k t = 3" by (simp_all add: running_def)
  from suspend_running_ok [OF _ _ c] k obtain k1 where
    k1: "rt_thread_suspend t k = Some (0, k1)" "sched_ok k1" "timers_ok 1 k1" "thr k1 = (thr k)(t := with_stat 2 (thr k t))"
      "lists k1 = lists k" and rest: "k1 = k\<lparr>thr := thr k1, ready_priority_group := ready_priority_group k1\<rparr>"
    unfolding kernel_ok_def by blast
  have f1: "rt_current_thread k1 = rt_current_thread k" "expired_list k1 = expired_list k" "sems k1 = sems k" "rt_tick k1 = rt_tick k"
    "scheduler_lock_nest k1 = scheduler_lock_nest k" by (subst rest, simp)+
  have "kernel_ok k1" using k k1(2,3) t unfolding kernel_ok_def f1 k1(5) by (simp add: k1)
  moreover have "others_kept {t} k k1" unfolding others_kept_def f1 k1(4,5) by auto
  moreover have "sems_kept {} k k1" using c by (simp add: sems_kept_def f1 k1)
  ultimately show ?thesis using k1(1) f1 c by (simp add: k1(4))
qed

section \<open>Calls that change what the scheduler does not see\<close>

lemma kernel_ok_cong:
  assumes "kernel_ok k" "lists k' = lists k" "ready_priority_group k' = ready_priority_group k"
    and "rt_current_thread k' = rt_current_thread k" "rt_tick k' = rt_tick k" "rt_timer_list k' = rt_timer_list k"
    and "expired_list k' = expired_list k" "sems k' = sems k"
    and "\<And>t. st k' t = st k t" "\<And>t. current_priority (thr k' t) = current_priority (thr k t)"
    and "\<And>t. number_mask (thr k' t) = number_mask (thr k t)"
    and "\<And>t. init_priority (thr k' t) = init_priority (thr k t)" "\<And>t. tm k' t = tm k t"
  shows "kernel_ok k'"
proof -
  have "sched_ok k'" by (rule sched_ok_cong [of k]) (use assms in \<open>simp_all add: kernel_ok_def\<close>)
  moreover have "timers_ok 1 k'" by (rule timers_ok_cong [of 1 k]) (use assms in \<open>simp_all add: kernel_ok_def\<close>)
  ultimately show ?thesis using assms by (simp add: kernel_ok_def)
qed

lemma sleep_return_ok:
  assumes "kernel_ok k"
  shows "kernel_ok (rt_thread_sleep_return t k) \<and> others_kept {} k (rt_thread_sleep_return t k) \<and>
    sems_kept {t} k (rt_thread_sleep_return t k)"
proof
  show "kernel_ok (rt_thread_sleep_return t k)"
    by (rule kernel_ok_cong [OF assms]) (simp_all add: rt_thread_sleep_return_def)
qed (simp add: others_kept_def sems_kept_def rt_thread_sleep_return_def)

lemma yield_ok:
  assumes k: "kernel_ok k"
  obtains k' where "rt_thread_yield k = Some k'" "kernel_ok k'" "others_kept {} k k'" "sems_kept {} k k'"
proof -
  from k obtain t where t: "rt_current_thread k = Some t" by (auto simp: kernel_ok_def)
  define k1 where "k1 = upd_thr t (\<lambda>th. th\<lparr>remaining_tick := init_tick th, stat := stat th OR 8\<rparr>) k"
  have "kernel_ok k1"
    by (rule kernel_ok_cong [OF k]) (simp_all add: k1_def stat_of_def and.assoc bit.conj_disj_distrib2)
  then obtain k' where k': "rt_schedule k1 = Some k'" "kernel_ok k'" "others_kept {} k1 k'" "sems_kept {} k1 k'"
    by (rule kernel_ok_schedule)
  moreover have "others_kept {} k k1" "sems_kept {} k k1"
    by (simp_all add: k1_def others_kept_def sems_kept_def stat_of_def and.assoc bit.conj_disj_distrib2)
  ultimately show ?thesis using that others_kept_trans [of "{}" k k1 k'] sems_kept_trans [of "{}" k k1 k'] t
    by (simp add: rt_thread_yield_def k1_def)
qed

lemma enter_critical_ok:
  assumes "kernel_ok k"
  shows "kernel_ok (rt_enter_critical k) \<and> others_kept {} k (rt_enter_critical k) \<and> sems_kept {} k (rt_enter_critical k)"
proof
  show "kernel_ok (rt_enter_critical k)" by (rule kernel_ok_cong [OF assms]) (simp_all add: rt_enter_critical_def)
qed (simp add: others_kept_def sems_kept_def rt_enter_critical_def)

lemma exit_critical_ok:
  assumes k: "kernel_ok k"
  shows "\<exists>k'. rt_exit_critical k = Some k' \<and> kernel_ok k' \<and> others_kept {} k k' \<and> sems_kept {} k k'"
proof -
  have ok: "kernel_ok (k\<lparr>scheduler_lock_nest := n\<rparr>)" for n by (rule kernel_ok_cong [OF k]) simp_all
  have oth: "others_kept {} k (k\<lparr>scheduler_lock_nest := n\<rparr>)" "sems_kept {} k (k\<lparr>scheduler_lock_nest := n\<rparr>)" for n
    by (simp_all add: others_kept_def sems_kept_def)
  obtain k' where k': "rt_schedule (k\<lparr>scheduler_lock_nest := 0\<rparr>) = Some k'" "kernel_ok k'"
      "others_kept {} (k\<lparr>scheduler_lock_nest := 0\<rparr>) k'" "sems_kept {} (k\<lparr>scheduler_lock_nest := 0\<rparr>) k'"
    using kernel_ok_schedule [OF ok [of 0]] by auto
  from others_kept_trans [OF oth(1) k'(3)] sems_kept_trans [OF oth(2) k'(4)] have "others_kept {} k k'" "sems_kept {} k k'" .
  moreover have "rt_current_thread k \<noteq> None" using k by (simp add: kernel_ok_def)
  ultimately show ?thesis using k' ok oth by (auto simp: rt_exit_critical_def Let_def)
qed

lemma tick_ok:
  assumes k: "kernel_ok k"
  shows "\<exists>k'. rt_tick_increase k = Some k' \<and> kernel_ok k' \<and> sems k' = sems k \<and>
     ticked {t \<in> set (rt_timer_list k). due k t \<le> 2} k k' \<and>
     rt_timer_list k' = filter (\<lambda>t. 3 \<le> due k t) (rt_timer_list k)"
proof -
  from k have "sched_ok k" "rt_current_thread k \<noteq> None" "timers_ok 1 k" "expired_list k = []" by (simp_all add: kernel_ok_def)
  then obtain k' where k': "rt_tick_increase k = Some k'" "sched_ok k'" "timers_ok 2 k'" "expired_list k' = []"
     "ticked {t \<in> set (rt_timer_list k). due k t \<le> 2} k k'"
     "rt_timer_list k' = filter (\<lambda>t. 3 \<le> due k t) (rt_timer_list k)" using rt_tick_increase_ok [of k] by blast
  note ticked = k'(5) [unfolded ticked_def]
  have "tidle \<notin> {t \<in> set (rt_timer_list k). due k t \<le> 2}" using k timers_okD(3) [of 1 k tidle] by (auto simp: kernel_ok_def)
  then have "kept_stat (st k tidle) (st k' tidle)" using ticked by (simp add: woken_stat_def)
  then have "st k' tidle = 1 \<or> st k' tidle = 3" using k by (auto simp: kernel_ok_def)
  moreover have "\<forall>i. waiters k' i \<noteq> [] \<longrightarrow> sem_value (sems k' i) = 0"
  proof (intro allI impI)
    fix i assume "waiters k' i \<noteq> []"
    with ticked have "waiters k i \<noteq> []" by auto
    with k ticked show "sem_value (sems k' i) = 0" by (simp add: kernel_ok_def)
  qed
  ultimately show ?thesis using k' ticked timers_ok_mono [OF k'(3), of 1] by (simp add: kernel_ok_def)
qed

section \<open>Semaphores\<close>

lemma set_prio_insert [simp]: "set (prio_insert pr t xs) = insert t (set xs)"
  by (induction xs) auto

lemma distinct_prio_insert: "distinct xs \<Longrightarrow> t \<notin> set xs \<Longrightarrow> distinct (prio_insert pr t xs)"
  by (induction xs) auto

text \<open>Linking a suspended thread into the list of a semaphore.\<close>

lemma sched_ok_link:
  assumes k: "sched_ok k" and t: "st k t = 2" "\<And>h. t \<notin> set (lists k h)"
    and L: "set L = insert t (set (waiters k i))" "distinct L"
  shows "sched_ok (k\<lparr>lists := (lists k)(Suspend_thread i := L)\<rparr>)"
proof -
  let ?k = "k\<lparr>lists := (lists k)(Suspend_thread i := L)\<rparr>"
  from k have q: "queues_ok k" by (simp add: sched_ok_def)
  have w: "x \<in> set (waiters ?k j) \<longleftrightarrow> x \<in> set (waiters k j) \<or> x = t \<and> j = i" for x j using L by auto
  have a: "\<forall>j j' x. x \<in> set (waiters ?k j) \<longrightarrow> x \<in> set (waiters ?k j') \<longrightarrow> j = j'"
    unfolding w using queues_okD(3) [OF q] t(2) by blast
  have b: "\<forall>j x. x \<in> set (waiters ?k j) \<longrightarrow> st ?k x = RT_THREAD_SUSPEND"
    unfolding w using queues_okD(2) [OF q] t(1) by auto
  have c: "\<forall>h. distinct (lists ?k h)" using queues_okD(4) [OF q] L by simp
  have "queues_ok ?k"
    unfolding queues_ok_def by (intro conjI a b c) (use q in \<open>simp_all add: queues_ok_def\<close>)
  then show ?thesis using k by (simp add: sched_ok_def cur_ok_def)
qed

lemma block_ok:
  assumes k: "kernel_ok k" and t: "running t k" "t \<noteq> tidle" and v: "sem_value (sems k i) = 0"
    and flag: "flag = 0 \<or> flag = 1"
  shows "\<exists>k'. rt_ipc_list_suspend i t flag k = Some k' \<and> kernel_ok k' \<and> others_kept {t} k k' \<and> sems k' = sems k \<and>
     (\<forall>x. st k' x = (if x = t then 2 else st k x)) \<and> (\<forall>x. error (thr k' x) = error (thr k x)) \<and>
     (\<forall>j. set (waiters k' j) = (if j = i then insert t (set (waiters k i)) else set (waiters k j)))"
proof -
  from k have q: "queues_ok k" by (simp add: kernel_ok_def sched_ok_def)
  from t have c: "rt_current_thread k = Some t" "st k t = 3" by (simp_all add: running_def)
  from suspend_running_ok [OF _ _ c] k obtain k1 where
    k1: "rt_thread_suspend t k = Some (0, k1)" "sched_ok k1" "timers_ok 1 k1" "thr k1 = (thr k)(t := with_stat 2 (thr k t))"
      "lists k1 = lists k" and rest: "k1 = k\<lparr>thr := thr k1, ready_priority_group := ready_priority_group k1\<rparr>"
    unfolding kernel_ok_def by blast
  have f1: "rt_current_thread k1 = rt_current_thread k" "expired_list k1 = expired_list k" "sems k1 = sems k" "rt_tick k1 = rt_tick k"
    by (subst rest, simp)+
  have nin: "t \<notin> set (lists k h)" for h
    using queues_okD(1) [OF q, of t] queues_okD(2) [OF q, of t] c(2) by (cases h) auto
  define L where "L = (if flag = 0 then waiters k i @ [t]
     else prio_insert (\<lambda>x. current_priority (thr k1 x)) t (waiters k i))"
  define k' where "k' = k1\<lparr>lists := (lists k1)(Suspend_thread i := L)\<rparr>"
  have eval: "rt_ipc_list_suspend i t flag k = Some k'"
    using flag by (auto simp: rt_ipc_list_suspend_def k1 k'_def L_def rt_list_insert_before_def)
  have L: "set L = insert t (set (waiters k i))" "distinct L"
    using nin [of "Suspend_thread i"] queues_okD(4) [OF q, of "Suspend_thread i"] by (auto simp: L_def distinct_prio_insert)
  have "sched_ok k'" unfolding k'_def by (rule sched_ok_link [OF k1(2), of t]) (use nin L in \<open>simp_all add: k1\<close>)
  moreover have "timers_ok 1 k'" by (rule timers_ok_cong [OF k1(3)]) (simp_all add: k'_def)
  moreover have "rt_current_thread k' = Some t" "expired_list k' = []" "sems k' = sems k" "rt_tick k' = rt_tick k" "thr k' = thr k1"
    "\<And>x. st k' x = (if x = t then 2 else st k x)" "\<And>x. error (thr k' x) = error (thr k x)"
    "\<And>j. set (waiters k' j) = (if j = i then insert t (set (waiters k i)) else set (waiters k j))"
    using k c L by (simp_all add: k'_def f1 kernel_ok_def k1)
  moreover have "waiters k' j \<noteq> [] \<longrightarrow> sem_value (sems k' j) = 0" for j
    using k v by (cases "j = i") (simp_all add: k'_def f1 k1 kernel_ok_def)
  moreover have "others_kept {t} k k'" using L(1) by (auto simp: others_kept_def k'_def f1 k1 split: if_splits)
  ultimately show ?thesis using eval k t(2) by (simp add: kernel_ok_def)
qed

text \<open>The three outcomes of \<open>rt_sem_take\<close>.\<close>

definition take_outcome :: "nat \<Rightarrow> nat \<Rightarrow> take_result \<Rightarrow> kernel \<Rightarrow> kernel \<Rightarrow> bool" where
  "take_outcome t i r k k' \<longleftrightarrow> (case r of
     Taken \<Rightarrow> 0 < unat (sem_value (sems k i)) \<and>
       k' = k\<lparr>sems := (sems k)(i := (sems k i)\<lparr>sem_value := sem_value (sems k i) - 1\<rparr>)\<rparr>
   | Timed_out \<Rightarrow> k' = k
   | Blocked \<Rightarrow> sems k' = sems k \<and> (\<forall>x. st k' x = (if x = t then 2 else st k x)) \<and>
       (\<forall>x. error (thr k' x) = (if x = t then RT_EOK else error (thr k x))) \<and>
       (\<forall>j. set (waiters k' j) = (if j = i then insert t (set (waiters k i)) else set (waiters k j))))"

lemma take_blocks:
  assumes k: "kernel_ok k" and t: "running t k" "t \<noteq> tidle" and time: "time \<noteq> 0x7FFFFFFF" "time \<noteq> 0"
    and v: "sem_value (sems k i) = 0" and flag: "sem_flag (sems k i) = 0 \<or> sem_flag (sems k i) = 1"
  shows "\<exists>k'. rt_sem_take i time k = Some (Blocked, k') \<and> kernel_ok k' \<and> others_kept {t} k k' \<and> take_outcome t i Blocked k k'"
proof -
  define k0 where "k0 = upd_thr t (\<lambda>th. th\<lparr>error := RT_EOK\<rparr>) k"
  have c: "rt_current_thread k = Some t" using t by (simp add: running_def)
  have ok0: "kernel_ok k0" by (rule kernel_ok_cong [OF k]) (simp_all add: k0_def)
  have f0: "others_kept {t} k k0" "sems k0 = sems k" "\<And>x. st k0 x = st k x" "lists k0 = lists k"
    "\<And>x. error (thr k0 x) = (if x = t then RT_EOK else error (thr k x))" by (simp_all add: others_kept_def k0_def)
  have "running t k0" "sem_value (sems k0 i) = 0" "sem_flag (sems k0 i) = 0 \<or> sem_flag (sems k0 i) = 1"
    using t v flag by (simp_all add: running_def k0_def)
  from block_ok [OF ok0 this(1) t(2) this(2,3)] obtain k1 where
    k1: "rt_ipc_list_suspend i t (sem_flag (sems k0 i)) k0 = Some k1" "kernel_ok k1" "others_kept {t} k0 k1" "sems k1 = sems k0"
      "\<And>x. st k1 x = (if x = t then 2 else st k0 x)" "\<And>x. error (thr k1 x) = error (thr k0 x)"
      "\<And>j. set (waiters k1 j) = (if j = i then insert t (set (waiters k0 i)) else set (waiters k0 j))" by blast
  have "\<exists>k'. (if sint time > 0 then start_thread_timer t time k1 else Some k1) = Some k' \<and> kernel_ok k' \<and> others_kept {t} k1 k' \<and>
    sems k' = sems k1 \<and> lists k' = lists k1 \<and> (\<forall>x. st k' x = st k1 x \<and> error (thr k' x) = error (thr k1 x))"
  proof (cases "sint time > 0")
    case pos: True
    then have "time < 0x7FFFFFFF" using time(1) by (rule sint_pos_less)
    from start_timer_ok [OF _ _ _ this, of k1 1 t] k1(2,5) obtain k' where
      "start_thread_timer t time k1 = Some k'" "sched_ok k'" "timers_ok 1 k'" "\<And>x. st k' x = st k1 x" "lists k' = lists k1"
      "sems k' = sems k1" "rt_tick k' = rt_tick k1" "rt_current_thread k' = rt_current_thread k1"
      "expired_list k' = remove1 t (expired_list k1)" "\<And>x. x \<noteq> t \<Longrightarrow> tm k' x = tm k1 x" "\<And>x. error (thr k' x) = error (thr k1 x)"
      unfolding kernel_ok_def by auto
    then show ?thesis using pos k1(2) by (simp add: kernel_ok_def others_kept_def)
  qed (use k1 in \<open>simp add: others_kept_def\<close>)
  then obtain k' where k': "(if sint time > 0 then start_thread_timer t time k1 else Some k1) = Some k'" "kernel_ok k'"
    "others_kept {t} k1 k'" "sems k' = sems k1" "lists k' = lists k1" "\<And>x. st k' x = st k1 x" "\<And>x. error (thr k' x) = error (thr k1 x)" by blast
  have "rt_sem_take i time k = Some (Blocked, k')"
    using v time(2) c k1(1) k'(1) by (simp add: rt_sem_take_def k0_def)
  moreover have "others_kept {t} k k'" using others_kept_trans f0(1) k1(3) k'(3) by blast
  moreover have "take_outcome t i Blocked k k'" by (simp add: take_outcome_def k' k1 f0)
  ultimately show ?thesis using k'(2) by simp
qed

lemma take_ok:
  assumes k: "kernel_ok k" and t: "running t k" "t \<noteq> tidle" and time: "time \<noteq> 0x7FFFFFFF"
    and flag: "sem_flag (sems k i) = 0 \<or> sem_flag (sems k i) = 1"
  shows "\<exists>r k'. rt_sem_take i time k = Some (r, k') \<and> kernel_ok k' \<and> others_kept {t} k k' \<and> take_outcome t i r k k'"
proof -
  consider "sem_value (sems k i) \<noteq> 0" | "sem_value (sems k i) = 0" "time = 0" | "sem_value (sems k i) = 0" "time \<noteq> 0" by blast
  then show ?thesis
  proof cases
    case 1
    define k' where "k' = k\<lparr>sems := (sems k)(i := (sems k i)\<lparr>sem_value := sem_value (sems k i) - 1\<rparr>)\<rparr>"
    have "sched_ok k'" by (rule sched_ok_cong [of k]) (use k in \<open>simp_all add: k'_def kernel_ok_def\<close>)
    moreover have "timers_ok 1 k'" by (rule timers_ok_cong [of 1 k]) (use k in \<open>simp_all add: k'_def kernel_ok_def\<close>)
    ultimately have "kernel_ok k'" using k 1 by (auto simp: kernel_ok_def k'_def)
    moreover have "rt_sem_take i time k = Some (Taken, k')" using 1 by (simp add: rt_sem_take_def k'_def word_gt_0)
    ultimately show ?thesis using 1 by (simp add: k'_def others_kept_def take_outcome_def unat_gt_0)
  next
    case 2
    with k show ?thesis by (simp add: rt_sem_take_def others_kept_def take_outcome_def)
  next
    case 3
    from take_blocks [OF k t time 3(2,1) flag] show ?thesis by blast
  qed
qed

text \<open>Resuming a suspended thread takes it off the list it waits in and stops its timer.\<close>

lemma resume_ok:
  assumes k: "kernel_ok k" and w: "st k w = 2"
  defines "k' \<equiv> snd (rt_thread_resume w k)"
  shows "kernel_ok k'" "others_kept {w} k k'" "sems k' = sems k" "waiters k' i = remove1 w (waiters k i)"
    "st k' x = (if x = w then if rt_current_thread k = Some w then 3 else 1 else st k x)" "error (thr k' x) = error (thr k x)"
    "\<not> has_flag 1 (tm k' w)" "rt_current_thread k' = rt_current_thread k" "x \<noteq> w \<Longrightarrow> thr k' x = thr k x"
    "current_priority (thr k' x) = current_priority (thr k x)"
proof -
  define k1 where "k1 = snd (rt_timer_stop w k)"
  have "snd (rt_timer_stop w (rt_list_remove w k)) = rt_list_remove w k1"
    by (simp add: k1_def rt_timer_stop_def rt_list_remove_def upd_timer_def upd_thr_def rt_timer_remove_def)
  then have k': "k' = rt_schedule_insert_thread w (rt_list_remove w k1)"
    using w by (simp add: k'_def rt_thread_resume_def)
  have s1: "sched_ok k1" by (rule sched_ok_cong [of k]) (use k in \<open>simp_all add: k1_def kernel_ok_def\<close>)
  have t1: "timers_ok 1 k1" unfolding k1_def by (rule timers_ok_rt_timer_stop) (use k in \<open>simp add: kernel_ok_def\<close>)
  have st1: "st k1 x = st k x" "rt_current_thread k1 = rt_current_thread k" "expired_list k1 = []" for x
    using k by (auto simp: k1_def kernel_ok_def rt_timer_stop_def upd_timer_def)
  have s': "sched_ok k'" unfolding k' by (rule sched_ok_wake [OF s1]) (simp add: st1 w)
  have thr': "thr k' x = (if x = w then with_stat (if rt_current_thread k = Some w then 3 else 1) (thr k1 w) else thr k x)" for x
    by (auto simp: k' k1_def rt_schedule_insert_thread_def rt_list_insert_before_def rt_list_remove_def Let_def)
  have f': "waiters k' i = remove1 w (waiters k i)" "sems k' = sems k" "rt_tick k' = rt_tick k" "rt_current_thread k' = rt_current_thread k"
    "expired_list k' = []" "rt_timer_list k' = rt_timer_list k1" for i
    using st1(3) by (auto simp: k' k1_def rt_schedule_insert_thread_def rt_list_insert_before_def rt_list_remove_def Let_def)
  have off: "\<not> has_flag 1 (tm k1 w)" by (simp add: k1_def)
  have t': "timers_ok 1 k'"
  proof (rule timers_ok_stop [OF t1, of _ w])
    show "rt_timer_list k' = remove1 w (rt_timer_list k1)" using timers_okD(2) [OF t1, of w] off by (simp add: f' remove1_idem)
  qed (use off timers_okD(6) [OF t1] in \<open>auto simp: thr' f' k1_def\<close>)
  show st': "st k' x = (if x = w then if rt_current_thread k = Some w then 3 else 1 else st k x)" for x
    using st1 by (simp add: thr')
  have ne: "waiters k i \<noteq> []" if "remove1 w (waiters k i) \<noteq> []" for i using that by auto
  show "kernel_ok k'" using k s' t' w st' unfolding kernel_ok_def f' by (auto dest: ne)
  show "others_kept {w} k k'" by (auto simp: others_kept_def f' thr' dest: notin_set_remove1)
  show "error (thr k' x) = error (thr k x)" "current_priority (thr k' x) = current_priority (thr k x)" for x by (auto simp: thr' k1_def)
  show "x \<noteq> w \<Longrightarrow> thr k' x = thr k x" for x by (simp add: thr')
qed (use w in \<open>auto simp: k'_def rt_thread_resume_def rt_schedule_insert_thread_def rt_list_insert_before_def rt_list_remove_def Let_def\<close>)

text \<open>The two outcomes of \<open>rt_sem_release\<close>: a waiting thread is resumed, or the value goes up.\<close>

definition release_outcome :: "nat \<Rightarrow> kernel \<Rightarrow> kernel \<Rightarrow> bool" where
  "release_outcome i k k' \<longleftrightarrow> (case waiters k i of
     [] \<Rightarrow> k' = k\<lparr>sems := (sems k)(i := (sems k i)\<lparr>sem_value := sem_value (sems k i) + 1\<rparr>)\<rparr> \<and>
       unat (sem_value (sems k i) + 1) = unat (sem_value (sems k i)) + 1
   | w # _ \<Rightarrow> sems k' = sems k \<and> (\<forall>j. waiters k' j = remove1 w (waiters k j)) \<and> w \<notin> set (rt_timer_list k') \<and>
       (\<forall>x. error (thr k' x) = error (thr k x) \<and> (st k' x = 0 \<longleftrightarrow> st k x = 0)))"

lemma release_ok:
  assumes k: "kernel_ok k" and room: "unat (sem_value (sems k i)) < 65535"
  shows "\<exists>resumed k'. rt_sem_release i k = (RT_EOK, resumed, k') \<and> kernel_ok k' \<and>
     others_kept (set (take 1 (waiters k i))) k k' \<and> release_outcome i k k'"
proof (cases "waiters k i")
  case Nil
  define k' where "k' = k\<lparr>sems := (sems k)(i := (sems k i)\<lparr>sem_value := sem_value (sems k i) + 1\<rparr>)\<rparr>"
  have "sched_ok k'" by (rule sched_ok_cong [of k]) (use k in \<open>simp_all add: k'_def kernel_ok_def\<close>)
  moreover have "timers_ok 1 k'" by (rule timers_ok_cong [of 1 k]) (use k in \<open>simp_all add: k'_def kernel_ok_def\<close>)
  ultimately have "kernel_ok k'" using k Nil by (auto simp: kernel_ok_def k'_def)
  moreover have "rt_sem_release i k = (RT_EOK, False, k')"
    using room by (simp add: rt_sem_release_def Nil k'_def word_less_nat_alt)
  moreover have "unat (sem_value (sems k i) + 1) = unat (sem_value (sems k i)) + 1"
    using room by (simp add: unat_word_ariths)
  ultimately show ?thesis using Nil
    by (intro exI [of _ False] exI [of _ k']) (simp add: k'_def others_kept_def release_outcome_def)
next
  case (Cons w ws)
  have w: "st k w = 2" using queues_okD(2) [of k w i] k Cons by (simp add: kernel_ok_def sched_ok_def)
  define k' where "k' = snd (rt_thread_resume w k)"
  note r = resume_ok [OF k w, folded k'_def]
  have "w \<notin> set (rt_timer_list k')" using r(1,7) timers_okD(2) [of 1 k' w] by (simp add: kernel_ok_def)
  then have "release_outcome i k k'" using r(3-6) w by (simp add: release_outcome_def Cons)
  moreover have "rt_sem_release i k = (RT_EOK, True, k')" by (simp add: rt_sem_release_def Cons k'_def)
  ultimately show ?thesis using r(1,2) Cons by (intro exI [of _ True] exI [of _ k']) simp
qed

section \<open>Creating a thread\<close>

text \<open>The state in which \<open>rt_thread_startup\<close> calls the scheduler: the new thread is ready.\<close>

lemma create_queued:
  assumes k: "kernel_ok k" and u: "st k u = 0" and p: "unat priority < 32"
  shows "\<exists>k1 k3. rt_thread_init u priority tick k = Some k1 \<and> rt_thread_startup u k1 = rt_schedule k3 \<and> kernel_ok k3 \<and>
     others_kept {u} k k3 \<and> sems_kept {u} k k3 \<and> (\<forall>x. st k3 x = (if x = u then 1 else st k x)) \<and>
     (\<forall>x. prio k3 x = (if x = u then unat priority else prio k x)) \<and> scheduler_lock_nest k3 = scheduler_lock_nest k \<and>
     rt_current_thread k3 = rt_current_thread k"
proof -
  define k1 where "k1 = upd_thr u (\<lambda>_. \<lparr>stat = 0, current_priority = priority, init_priority = priority,
     number_mask = 0, init_tick = tick, remaining_tick = tick, error = 0, thread_timer = rt_timer_init 0 0\<rparr>) k"
  define th where "th = \<lparr>stat = 2, current_priority = priority, init_priority = priority,
     number_mask = push_bit (unat priority) 1, init_tick = tick, remaining_tick = tick, error = 0, thread_timer = rt_timer_init 0 0\<rparr>"
  define k2 where "k2 = upd_thr u (\<lambda>_. th) k"
  have st2: "st k2 x = (if x = u then 2 else st k x)" "prio k2 x = (if x = u then unat priority else prio k x)" for x
    by (simp_all add: k2_def th_def stat_of_def)
  have th: "stat_of th = 2" "\<not> has_flag m (thread_timer th)" for m
    by (simp_all add: th_def stat_of_def rt_timer_init_def has_flag_def)
  from k have q: "queues_ok k" and cur: "cur_ok k" and t: "timers_ok 1 k" by (simp_all add: kernel_ok_def sched_ok_def)
  have "queues_ok k2" using q u p unfolding queues_ok_def k2_def by (auto simp: th) (auto simp: th_def)
  moreover have "cur_ok k2" using cur u unfolding cur_ok_def st2 by (simp add: k2_def)
  moreover from timers_okD(3) [OF t, of u] u have "u \<notin> set (rt_timer_list k)" by auto
  then have "timers_ok 1 k2"
    by (intro timers_ok_stop [OF t, of k2 u]) (simp_all add: k2_def th remove1_idem)
  ultimately have ok2: "kernel_ok k2" using k u by (auto simp: kernel_ok_def sched_ok_def st2 k2_def)
  have ncur: "rt_current_thread k2 \<noteq> Some u" using cur u by (auto simp: cur_ok_def k2_def)
  define k3 where "k3 = snd (rt_thread_resume u k2)"
  have w: "st k2 u = 2" by (simp add: st2)
  note k3 = resume_ok [OF ok2 w, folded k3_def]
  have lock: "scheduler_lock_nest k3 = scheduler_lock_nest k"
    using w ncur by (simp add: k3_def rt_thread_resume_def rt_schedule_insert_thread_def rt_list_insert_before_def rt_list_remove_def Let_def k2_def)
  have "upd_thr u (\<lambda>th. th\<lparr>number_mask := push_bit (unat (current_priority th)) 1, stat := 2\<rparr>)
     (upd_thr u (\<lambda>th. th\<lparr>current_priority := init_priority th\<rparr>) k1) = k2"
    by (simp add: k1_def k2_def th_def upd_thr_def)
  then have "rt_thread_startup u k1 = rt_schedule k3"
    using k3(1) by (simp add: rt_thread_startup_def k1_def stat_of_def Let_def k3_def [symmetric] kernel_ok_def)
  moreover have "rt_thread_init u priority tick k = Some k1" using p by (simp add: rt_thread_init_def k1_def)
  moreover have "others_kept {u} k k2" "rt_current_thread k2 = rt_current_thread k" by (simp_all add: others_kept_def k2_def)
  moreover have "u \<notin> set (waiters k i)" for i using queues_okD(2) [OF q, of u i] u by auto
  then have "sems_kept {u} k k3"
    using k3(5) by (simp add: sems_kept_def k3(3,4,6) st2) (simp add: k2_def remove1_idem)
  ultimately show ?thesis
    using k3(1,2,5,8,10) lock others_kept_trans [of "{u}" k k2 k3] ncur
    by (intro exI [of _ k1] exI [of _ k3]) (simp add: st2)
qed

lemma create_ok:
  assumes "kernel_ok k" "st k u = 0" "unat priority < 32"
  shows "\<exists>k1 k'. rt_thread_init u priority tick k = Some k1 \<and> rt_thread_startup u k1 = Some k' \<and> kernel_ok k' \<and>
     others_kept {u} k k' \<and> sems_kept {u} k k'"
proof -
  from create_queued [OF assms] obtain k1 k3 where
    k3: "rt_thread_init u priority tick k = Some k1" "rt_thread_startup u k1 = rt_schedule k3" "kernel_ok k3" "others_kept {u} k k3" "sems_kept {u} k k3"
    by blast
  from k3(3) obtain k' where k': "rt_schedule k3 = Some k'" "kernel_ok k'" "others_kept {} k3 k'" "sems_kept {} k3 k'"
    by (rule kernel_ok_schedule)
  with k3 others_kept_mono [OF k'(3), of "{u}"] others_kept_trans [of "{u}" k k3 k']
    sems_kept_mono [OF k'(4), of "{u}"] sems_kept_trans [of "{u}" k k3 k'] show ?thesis by simp
qed

end
