(* ===== verification/Rt_Kernel_Props.thy ===== *)
theory Rt_Kernel_Props
  imports Rt_Kernel_Calls
begin

text \<open>
  The kernel keeps its promises in every run: no assertion fails, the processor has the best ready thread,
  a sleeping thread wakes up exactly when its time is over, and a semaphore is never handed out
  more often than it has units.
\<close>

section \<open>Every event keeps the invariant\<close>

lemma kernel_invD:
  assumes "kernel_inv units (k, c)"
  shows "kernel_ok k" "calls_ok k c" "finite (granted k c i)" "units i \<le> 65535"
    "unat (sem_value (sems k i)) + length (holds c i) + card (granted k c i) = units i"
  using assms by (auto simp: kernel_inv_def)

lemma kernel_invI:
  assumes "kernel_inv units (k, c)" "kernel_ok k'" "calls_ok k' c'" "\<And>i. finite (granted k' c' i)"
    "\<And>i. unat (sem_value (sems k' i)) + length (holds c' i) + card (granted k' c' i) =
      unat (sem_value (sems k i)) + length (holds c i) + card (granted k c i)"
  shows "kernel_inv units (k', c')"
  using assms by (simp add: kernel_inv_def)

lemma calls_okD:
  assumes "calls_ok k c"
  shows "t \<in> set (waiters k i) \<Longrightarrow> waits c t = Some i" "t \<in> set (waiters k i) \<Longrightarrow> error (thr k t) = 0"
    "waits c t = Some i \<Longrightarrow> st k t \<noteq> 0" "waits c t = Some i \<Longrightarrow> t \<in> set (rt_timer_list k) \<Longrightarrow> t \<in> set (waiters k i)"
    "sem_flag (sems k i) = 0 \<or> sem_flag (sems k i) = 1"
  using assms unfolding calls_ok_def RT_EOK_def RT_THREAD_INIT_def RT_IPC_FLAG_FIFO_def RT_IPC_FLAG_PRIO_def by blast+

lemma calls_okI:
  assumes "\<And>i t. t \<in> set (waiters k i) \<Longrightarrow> waits c t = Some i" "\<And>i t. t \<in> set (waiters k i) \<Longrightarrow> error (thr k t) = 0"
    "\<And>i t. waits c t = Some i \<Longrightarrow> st k t \<noteq> 0" "\<And>i t. waits c t = Some i \<Longrightarrow> t \<in> set (rt_timer_list k) \<Longrightarrow> t \<in> set (waiters k i)"
    "\<And>i. sem_flag (sems k i) = 0 \<or> sem_flag (sems k i) = 1"
  shows "calls_ok k c"
  unfolding calls_ok_def RT_EOK_def RT_THREAD_INIT_def RT_IPC_FLAG_FIFO_def RT_IPC_FLAG_PRIO_def
  by (intro conjI allI impI) (rule assms; assumption)+

lemma calls_ok_cong:
  assumes c: "calls_ok k c" and "lists k' = lists k" "thr k' = thr k" "rt_timer_list k' = rt_timer_list k" "waits c' = waits c"
    "\<And>i. sem_flag (sems k' i) = sem_flag (sems k i)"
  shows "calls_ok k' c'"
  by (rule calls_okI, unfold assms(2-)) (rule calls_okD [OF c]; assumption)+

lemma timer_listed: "kernel_ok k \<Longrightarrow> t \<in> set (rt_timer_list k) \<longleftrightarrow> has_flag 1 (tm k t)"
  using timers_okD(2) [of 1 k t] by (simp add: kernel_ok_def)

lemma running_not_waiting:
  assumes k: "kernel_ok k" and t: "running t k"
  shows "t \<notin> set (waiters k i)" "t \<notin> set (rt_timer_list k)"
  using queues_okD(2) [of k t i] timers_okD(3) [of 1 k t] k t by (auto simp: kernel_ok_def sched_ok_def running_def)

text \<open>A call that leaves the semaphores alone keeps the invariant.\<close>

lemma kernel_inv_kept:
  assumes s: "kernel_inv units (k, c)" and k': "kernel_ok k'" "others_kept A k k'" "sems_kept A k k'"
    and A: "\<And>t. t \<in> A \<Longrightarrow> waits c t = None"
  shows "kernel_inv units (k', c)"
proof -
  note k = kernel_invD [OF s]
  have w: "waiters k' i = waiters k i" "sems k' = sems k" for i using k'(3) by (simp_all add: sems_kept_def)
  have same: "error (thr k' t) = error (thr k t)" "st k' t = 0 \<longleftrightarrow> st k t = 0" "t \<in> set (rt_timer_list k') \<longleftrightarrow> t \<in> set (rt_timer_list k)"
    if "waits c t = Some i" for t i
  proof -
    from A [of t] that have "t \<notin> A" by auto
    with k'(2,3) show "error (thr k' t) = error (thr k t)" "st k' t = 0 \<longleftrightarrow> st k t = 0"
      "t \<in> set (rt_timer_list k') \<longleftrightarrow> t \<in> set (rt_timer_list k)"
      by (simp_all add: others_kept_def sems_kept_def timer_listed [OF k(1)] timer_listed [OF k'(1)])
  qed
  have g: "granted k' c i = granted k c i" for i using same by (auto simp: granted_def w)
  note c = calls_okD [OF k(2)]
  have "calls_ok k' c"
  proof (rule calls_okI, unfold w)
    show "error (thr k' t) = 0" if "t \<in> set (waiters k i)" for i t using same(1) [OF c(1) [OF that]] c(2) [OF that] by simp
    show "st k' t \<noteq> 0" if "waits c t = Some i" for i t using same(2) [OF that] c(3) [OF that] by simp
    show "t \<in> set (waiters k i)" if "waits c t = Some i" "t \<in> set (rt_timer_list k')" for i t using that same(3) [OF that(1)] c(4) by simp
  qed (use c(1,5) in auto)
  with s k'(1) k(3) show ?thesis by (intro kernel_invI [OF s]) (simp_all add: g w)
qed

text \<open>A thread that sleeps, with its timer due, and does not wait for a semaphore.\<close>

definition sleeping :: "kernel \<Rightarrow> nat \<Rightarrow> nat \<Rightarrow> bool" where
  "sleeping k t d \<longleftrightarrow> t \<in> set (rt_timer_list k) \<and> due k t = d \<and> (\<forall>i. t \<notin> set (waiters k i))"

text \<open>The threads an event can disturb: none that sleeps.\<close>

definition mild :: "kernel \<Rightarrow> kernel \<Rightarrow> bool" where
  "mild k k' \<longleftrightarrow> (\<exists>A. others_kept A k k' \<and> (\<forall>t\<in>A. st k t \<noteq> 2 \<or> (\<exists>i. t \<in> set (waiters k i))))"

lemma mildI: "others_kept A k k' \<Longrightarrow> (\<And>t. t \<in> A \<Longrightarrow> st k t \<noteq> 2 \<or> (\<exists>i. t \<in> set (waiters k i))) \<Longrightarrow> mild k k'"
  by (auto simp: mild_def)

lemma mild_others: "others_kept {} k k' \<Longrightarrow> mild k k'"
  by (auto intro: mildI)

lemma mild_refl [simp]: "mild k k"
  by (rule mild_others) (simp add: others_kept_def)

lemma sleeping_mild:
  assumes m: "mild k k'" and k: "kernel_ok k" "kernel_ok k'" and t: "sleeping k t d"
  shows "sleeping k' t d"
proof -
  from m obtain A where A: "others_kept A k k'" "\<And>t. t \<in> A \<Longrightarrow> st k t \<noteq> 2 \<or> (\<exists>i. t \<in> set (waiters k i))" by (auto simp: mild_def)
  have "st k t = 2" using t k(1) timers_okD(3) by (auto simp: sleeping_def kernel_ok_def)
  with A(2) t have "t \<notin> A" by (auto simp: sleeping_def)
  with A(1) have same: "tm k' t = tm k t" "rt_tick k' = rt_tick k" "\<And>i. t \<in> set (waiters k' i) \<Longrightarrow> t \<in> set (waiters k i)"
    by (auto simp: others_kept_def)
  have "t \<in> set (rt_timer_list k')"
    using timers_okD(2) [of 1 k t] timers_okD(2) [of 1 k' t] k t same(1) by (simp add: kernel_ok_def sleeping_def)
  then show ?thesis using t same by (auto simp: sleeping_def due_def)
qed

lemma kept_mono: "others_kept {} k k' \<Longrightarrow> others_kept {t} k k'" "sems_kept {} k k' \<Longrightarrow> sems_kept {t} k k'"
  by (simp_all add: others_kept_def sems_kept_def)

lemma when_running_ok:
  assumes s: "kernel_inv units (k, c)"
    and f: "running t k \<Longrightarrow> \<exists>k'. f k = Some k' \<and> kernel_ok k' \<and> others_kept {t} k k' \<and> sems_kept {t} k k'"
  shows "\<exists>k' c'. when_running t f (k, c) = Some (k', c') \<and> kernel_inv units (k', c') \<and> mild k k'"
proof (cases "can_call t k c")
  case True
  then have t: "running t k" "waits c t = None" by (simp_all add: can_call_def)
  with f obtain k' where k': "f k = Some k'" "kernel_ok k'" "others_kept {t} k k'" "sems_kept {t} k k'" by blast
  from kernel_inv_kept [OF s k'(2-4)] t have "kernel_inv units (k', c)" by simp
  moreover have "mild k k'" by (rule mildI [OF k'(3)]) (use t in \<open>simp add: running_def\<close>)
  ultimately show ?thesis using True k'(1) by (simp add: when_running_def)
qed (use s in \<open>simp add: when_running_def\<close>)

lemma take_step_ok:
  assumes s: "kernel_inv units (k, c)" and t: "can_call t k c" "t \<noteq> tidle" "time \<noteq> 0x7FFFFFFF"
  shows "\<exists>r k'. rt_sem_take i time k = Some (r, k') \<and> kernel_inv units (k', take_called t i r c) \<and> mild k k'"
proof -
  note k = kernel_invD [OF s]
  from t have run: "running t k" "waits c t = None" by (simp_all add: can_call_def)
  from take_ok [OF k(1) run(1) t(2,3) calls_okD(5) [OF k(2)]] obtain r k' where
    k': "rt_sem_take i time k = Some (r, k')" "kernel_ok k'" "others_kept {t} k k'" and out: "take_outcome t i r k k'" by blast
  have "kernel_inv units (k', take_called t i r c)"
  proof (cases r)
    case Taken
    with out have v: "0 < unat (sem_value (sems k i))" and k'_def: "k' = k\<lparr>sems := (sems k)(i := (sems k i)\<lparr>sem_value := sem_value (sems k i) - 1\<rparr>)\<rparr>"
      by (simp_all add: take_outcome_def)
    have "granted k' (take_called t i r c) j = granted k c j" for j by (simp add: granted_def Taken take_called_def k'_def)
    moreover have "calls_ok k' (take_called t i r c)" by (rule calls_ok_cong [OF k(2)]) (simp_all add: Taken take_called_def k'_def)
    moreover have "unat (sem_value (sems k i) - 1) = unat (sem_value (sems k i)) - 1" using v by (simp add: unat_minus_one unat_gt_0)
    ultimately show ?thesis using k'(2) k(3) v by (intro kernel_invI [OF s]) (simp_all add: Taken take_called_def k'_def)
  next
    case Timed_out
    with out s show ?thesis by (simp add: take_outcome_def take_called_def)
  next
    case Blocked
    with out have o: "sems k' = sems k" "\<And>x. st k' x = (if x = t then 2 else st k x)" "\<And>x. error (thr k' x) = (if x = t then 0 else error (thr k x))"
      "\<And>j. set (waiters k' j) = (if j = i then insert t (set (waiters k i)) else set (waiters k j))" by (simp_all add: take_outcome_def)
    let ?c = "c\<lparr>waits := (waits c)(t := Some i)\<rparr>"
    have g: "granted k' ?c j = granted k c j" for j using run(2) by (auto simp: granted_def o)
    have listed: "x \<in> set (rt_timer_list k') \<longleftrightarrow> x \<in> set (rt_timer_list k)" if "x \<noteq> t" for x
      using k'(3) that by (simp add: others_kept_def timer_listed [OF k(1)] timer_listed [OF k'(2)])
    note d = calls_okD [OF k(2)]
    have "calls_ok k' ?c"
    proof (rule calls_okI)
      show "x \<in> set (waiters k' j)" if "waits ?c x = Some j" "x \<in> set (rt_timer_list k')" for j x
        using that listed [of x] d(4) [of x j] by (cases "x = t") (auto simp: o)
    qed (use d(1-3,5) run(2) in \<open>auto simp: o split: if_splits\<close>)
    with k'(2) k(3) show ?thesis by (intro kernel_invI [OF s]) (simp_all add: Blocked take_called_def g o)
  qed
  moreover have "mild k k'" by (rule mildI [OF k'(3)]) (use run in \<open>simp add: running_def\<close>)
  ultimately show ?thesis using k'(1) by blast
qed

lemma take_return_ok:
  assumes s: "kernel_inv units (k, c)" and t: "running t k" "waits c t = Some i"
  shows "kernel_inv units (k, take_returned t i (rt_sem_take_return t k) c)"
proof -
  note k = kernel_invD [OF s]
  let ?c = "take_returned t i (rt_sem_take_return t k) c"
  have nin: "t \<notin> set (waiters k j)" for j by (rule running_not_waiting(1) [OF k(1) t(1)])
  have g: "granted k ?c j = granted k c j - {t}" for j by (auto simp: granted_def take_returned_def)
  have "t \<in> granted k c j \<longleftrightarrow> j = i \<and> error (thr k t) = 0" for j using t(2) nin by (auto simp: granted_def)
  moreover have "length (holds ?c j) = length (holds c j) + (if j = i \<and> error (thr k t) = 0 then 1 else 0)" for j
    by (auto simp: take_returned_def rt_sem_take_return_def)
  moreover have "card (granted k c j) = Suc (card (granted k c j - {t}))" if "t \<in> granted k c j" for j
    using card_Suc_Diff1 [OF k(3) that] by simp
  ultimately have "length (holds ?c j) + card (granted k ?c j) = length (holds c j) + card (granted k c j)" for j
    unfolding g by (cases "t \<in> granted k c j") auto
  then have eq: "unat (sem_value (sems k j)) + length (holds ?c j) + card (granted k ?c j) =
    unat (sem_value (sems k j)) + length (holds c j) + card (granted k c j)" for j by (simp only: add.assoc)
  note d = calls_okD [OF k(2)]
  have "calls_ok k ?c"
  proof (rule calls_okI)
    show "waits ?c x = Some j" if "x \<in> set (waiters k j)" for j x
      using d(1) [OF that] nin that by (auto simp: take_returned_def)
    show "x \<in> set (waiters k j)" if "waits ?c x = Some j" "x \<in> set (rt_timer_list k)" for j x
      using that d(4) [of x j] by (auto simp: take_returned_def split: if_splits)
  qed (use d(2,3,5) in \<open>auto simp: take_returned_def split: if_splits\<close>)
  with k(1,3) eq show ?thesis by (intro kernel_invI [OF s]) (simp_all add: g)
qed

lemma release_step_ok:
  assumes s: "kernel_inv units (k, c)" and t: "t \<in> set (holds c i)"
  shows "\<exists>resumed k'. rt_sem_release i k = (RT_EOK, resumed, k') \<and>
    kernel_inv units (k', c\<lparr>holds := (holds c)(i := remove1 t (holds c i))\<rparr>) \<and> mild k k'"
proof -
  note k = kernel_invD [OF s]
  let ?c = "c\<lparr>holds := (holds c)(i := remove1 t (holds c i))\<rparr>"
  from t have len: "length (holds c i) = Suc (length (remove1 t (holds c i)))" using length_pos_if_in_set [of t "holds c i"] by (simp add: length_remove1)
  with k(4,5) [of i] have "unat (sem_value (sems k i)) < 65535" by simp
  from release_ok [OF k(1) this] obtain resumed k' where k': "rt_sem_release i k = (RT_EOK, resumed, k')" "kernel_ok k'"
    "others_kept (set (take 1 (waiters k i))) k k'" and out: "release_outcome i k k'" by blast
  have "kernel_inv units (k', ?c)"
  proof (cases "waiters k i")
    case Nil
    with out have k'_def: "k' = k\<lparr>sems := (sems k)(i := (sems k i)\<lparr>sem_value := sem_value (sems k i) + 1\<rparr>)\<rparr>"
      and v: "unat (sem_value (sems k i) + 1) = unat (sem_value (sems k i)) + 1" by (simp_all add: release_outcome_def)
    have "granted k' ?c j = granted k c j" for j by (simp add: granted_def k'_def)
    moreover have "calls_ok k' ?c" by (rule calls_ok_cong [OF k(2)]) (simp_all add: k'_def)
    ultimately show ?thesis using k'(2) k(3) v len by (intro kernel_invI [OF s]) (simp_all add: k'_def)
  next
    case (Cons w ws)
    with out have o: "sems k' = sems k" "\<And>j. waiters k' j = remove1 w (waiters k j)" "w \<notin> set (rt_timer_list k')"
      "\<And>x. error (thr k' x) = error (thr k x)" "\<And>x. st k' x = 0 \<longleftrightarrow> st k x = 0" by (simp_all add: release_outcome_def)
    have d: "distinct (waiters k j)" for j using k(1) queues_okD(4) [of k] by (simp add: kernel_ok_def sched_ok_def)
    have w: "waits c w = Some i" "error (thr k w) = 0" "w \<in> set (waiters k i)" using calls_okD(1,2) [OF k(2), of w i] Cons by simp_all
    have g: "granted k' ?c j = (if j = i then insert w (granted k c i) else granted k c j)" for j
      using w d [of i] d [of j] by (auto simp: granted_def o)
    have "w \<notin> granted k c i" using w by (simp add: granted_def)
    then have "card (granted k' ?c i) = Suc (card (granted k c i))" using k(3) by (simp add: g)
    moreover have listed: "x \<in> set (rt_timer_list k') \<longleftrightarrow> x \<in> set (rt_timer_list k)" if "x \<noteq> w" for x
      using k'(3) that Cons by (simp add: others_kept_def timer_listed [OF k(1)] timer_listed [OF k'(2)])
    note e = calls_okD [OF k(2)]
    have "calls_ok k' ?c"
    proof (rule calls_okI)
      show "error (thr k' x) = 0" if "x \<in> set (waiters k' j)" for j x
        using that e(2) [of x j] by (auto simp: o dest: notin_set_remove1)
      show "x \<in> set (waiters k' j)" if x: "waits ?c x = Some j" "x \<in> set (rt_timer_list k')" for j x
      proof -
        have "x \<noteq> w" using x(2) o(3) by auto
        with x listed e(4) [of x j] show ?thesis by (simp add: o)
      qed
    qed (use e(1-3,5) in \<open>auto simp: o dest: notin_set_remove1\<close>)
    ultimately show ?thesis using k'(2) k(3) len by (intro kernel_invI [OF s]) (simp_all add: g o)
  qed
  moreover have "mild k k'" by (rule mildI [OF k'(3)]) (auto dest: in_set_takeD)
  ultimately show ?thesis using k'(1) by blast
qed

text \<open>The kernel calls keep the invariant and disturb no sleeping thread.\<close>

lemma kernel_call_ok:
  assumes s: "kernel_inv units (k, c)" and e: "supported e" "e \<noteq> Tick"
  shows "\<exists>k' c'. kernel_step e (k, c) = Some (k', c') \<and> kernel_inv units (k', c') \<and> mild k k'"
  using e
proof (cases e)
  case (Schedule t)
  obtain k' where k': "rt_schedule k = Some k'" "kernel_ok k'" "others_kept {} k k'" "sems_kept {} k k'"
    using kernel_ok_schedule [OF kernel_invD(1) [OF s]] by blast
  then have "kernel_inv units (k', c)" using kernel_inv_kept [OF s k'(2-4)] by simp
  with k' mild_others [OF k'(3)] Schedule s show ?thesis by simp
next
  case (Sleep t n)
  have "running t k \<Longrightarrow> \<exists>k'. rt_thread_sleep_suspend n k = Some k' \<and> kernel_ok k' \<and> others_kept {t} k k' \<and> sems_kept {t} k k'"
    using sleep_ok [OF kernel_invD(1) [OF s], of t n] e sems_kept_mono [of "{}" k _ "{t}"] by (auto simp: Sleep)
  then show ?thesis unfolding Sleep kernel_step.simps by (rule when_running_ok [OF s])
next
  case (Sleep_return t)
  show ?thesis unfolding Sleep_return kernel_step.simps
    by (rule when_running_ok [OF s]) (use sleep_return_ok [OF kernel_invD(1) [OF s], of t] kept_mono in auto)
next
  case (Yield t)
  show ?thesis unfolding Yield kernel_step.simps
    by (rule when_running_ok [OF s]) (use yield_ok [OF kernel_invD(1) [OF s]] kept_mono in metis)
next
  case (Suspend_self t)
  have "running t k \<Longrightarrow> \<exists>k'. map_option snd (rt_thread_suspend t k) = Some k' \<and> kernel_ok k' \<and> others_kept {t} k k' \<and> sems_kept {t} k k'"
    using suspend_self_ok [OF kernel_invD(1) [OF s], of t] e sems_kept_mono [of "{}" k _ "{t}"] by (auto simp: Suspend_self)
  then show ?thesis unfolding Suspend_self kernel_step.simps by (rule when_running_ok [OF s])
next
  case (Enter_critical t)
  show ?thesis unfolding Enter_critical kernel_step.simps
    by (rule when_running_ok [OF s]) (use enter_critical_ok [OF kernel_invD(1) [OF s]] kept_mono in auto)
next
  case (Exit_critical t)
  show ?thesis unfolding Exit_critical kernel_step.simps
    by (rule when_running_ok [OF s]) (use exit_critical_ok [OF kernel_invD(1) [OF s]] kept_mono in metis)
next
  case (Take t i time)
  show ?thesis
  proof (cases "can_call t k c")
    case True
    with take_step_ok [OF s True, of time i] e Take show ?thesis by auto
  qed (use s Take in simp)
next
  case (Take_return t)
  then show ?thesis using s take_return_ok [OF s, of t] by (cases "waits c t") auto
next
  case (Release t i)
  show ?thesis
  proof (cases "can_call t k c \<and> t \<in> set (holds c i)")
    case True
    with release_step_ok [OF s, of t i] Release show ?thesis by auto
  qed (use s Release in auto)
next
  case (Create t u priority tick)
  show ?thesis
  proof (cases "can_call t k c \<and> st k u = 0")
    case True
    with create_ok [OF kernel_invD(1) [OF s], of u priority tick] e Create obtain k1 k' where
      k': "rt_thread_init u priority tick k = Some k1" "rt_thread_startup u k1 = Some k'" "kernel_ok k'" "others_kept {u} k k'" "sems_kept {u} k k'"
      by auto
    have "waits c u = None" using True calls_okD(3) [OF kernel_invD(2) [OF s], of u] by (cases "waits c u") auto
    then have "kernel_inv units (k', c)" using kernel_inv_kept [OF s k'(3-5)] by simp
    moreover have "mild k k'" by (rule mildI [OF k'(4)]) (use True in auto)
    ultimately show ?thesis using True Create k' by simp
  qed (use s Create in auto)
qed simp

lemma kernel_inv_ticked:
  assumes s: "kernel_inv units (k, c)" and k': "kernel_ok k'" "ticked {t \<in> set (rt_timer_list k). due k t \<le> 2} k k'"
    "rt_timer_list k' = filter (\<lambda>t. 3 \<le> due k t) (rt_timer_list k)"
  shows "kernel_inv units (k', c)"
proof -
  note k = kernel_invD [OF s]
  define W where "W = {t \<in> set (rt_timer_list k). due k t \<le> 2}"
  have t: "error (thr k' x) = (if x \<in> W then - 2 else error (thr k x))" "waiters k' i = filter (\<lambda>t. t \<notin> W) (waiters k i)" "sems k' = sems k"
    "woken_stat (x \<in> W) (st k x) (st k' x)" for x i
    using k'(2) by (simp_all add: ticked_def W_def)
  note d = calls_okD [OF k(2)]
  have W: "x \<in> set (waiters k i)" if "waits c x = Some i" "x \<in> W" for x i using d(4) [OF that(1)] that(2) by (simp add: W_def)
  have g: "granted k' c i = granted k c i" for i using W by (auto simp: granted_def t)
  have "calls_ok k' c"
  proof (rule calls_okI)
    show "st k' x \<noteq> 0" if "waits c x = Some i" for i x
      using t(4) [of x] d(3) [OF that] by (auto simp: woken_stat_def kept_stat_zero split: if_splits)
    show "x \<in> set (waiters k' i)" if "waits c x = Some i" "x \<in> set (rt_timer_list k')" for i x
      using that(2) d(4) [OF that(1)] by (auto simp: k'(3) t W_def)
  qed (use d(1,2,5) in \<open>auto simp: t\<close>)
  with s k'(1) k(3) show ?thesis by (intro kernel_invI [OF s]) (simp_all add: g t)
qed

lemma kernel_tick_ok:
  assumes s: "kernel_inv units (k, c)"
  shows "\<exists>k'. kernel_step Tick (k, c) = Some (k', c) \<and> kernel_inv units (k', c) \<and>
     ticked {t \<in> set (rt_timer_list k). due k t \<le> 2} k k' \<and> rt_timer_list k' = filter (\<lambda>t. 3 \<le> due k t) (rt_timer_list k)"
proof -
  from tick_ok [OF kernel_invD(1) [OF s]] obtain k' where
    k': "rt_tick_increase k = Some k'" "kernel_ok k'" "ticked {t \<in> set (rt_timer_list k). due k t \<le> 2} k k'"
      "rt_timer_list k' = filter (\<lambda>t. 3 \<le> due k t) (rt_timer_list k)" by blast
  with kernel_inv_ticked [OF s k'(2-4)] show ?thesis by simp
qed

interpretation kern: safe_system kernel_step kernel_run supported "kernel_inv units" for units
proof unfold_locales
  show "kernel_run [] s = Some s" for s by simp
  show "kernel_run (e # es) s = Option.bind (kernel_step e s) (kernel_run es)" for e es s by simp
  show "\<exists>s'. kernel_step e s = Some s' \<and> kernel_inv units s'" if "kernel_inv units s" "supported e" for s e
    using that kernel_call_ok [of units "fst s" "snd s" e] kernel_tick_ok [of units "fst s" "snd s"]
    by (cases "e = Tick") auto
qed

section \<open>The processor goes to the best thread\<close>

lemma runs_best:
  assumes k: "sched_ok k" and c: "rt_current_thread k = Some c" and free: "scheduler_lock_nest k = 0"
    and some: "st k c = 3 \<or> (\<exists>t. st k t = 1)"
  shows "\<exists>k' c'. rt_schedule k = Some k' \<and> sched_ok k' \<and> rt_current_thread k' = Some c' \<and> st k' c' = 3 \<and>
     (\<forall>t. st k' t = 1 \<longrightarrow> prio k' c' \<le> prio k' t)"
proof -
  obtain k' where k': "rt_schedule k = Some k'" "sched_ok k'" "sched_frame k k'"
    "if scheduler_lock_nest k \<noteq> 0 \<or> (\<forall>t. st k t \<noteq> 1) then k' = k else stays c k k' \<or> switches c k k'"
    using rt_schedule_cases [OF k c] by blast
  have pr: "prio k' t = prio k t" for t by (simp add: sched_frameD(2) [OF k'(3)])
  consider "k' = k" "\<forall>t. st k t \<noteq> 1" | "stays c k k'" | "switches c k k'" using k'(4) free by (auto split: if_splits)
  then show ?thesis
  proof cases
    case 1
    then show ?thesis using k' c some by auto
  next
    case 2
    then have "rt_current_thread k' = Some c" "st k' c = 3" "\<forall>t. st k' t = 1 \<longrightarrow> prio k' c \<le> prio k' t"
      by (auto simp: stays_def pr)
    then show ?thesis using k' by blast
  next
    case 3
    then obtain t p where t: "best_ready k (t, p)" "rt_current_thread k' = Some t" "st k c = 3 \<longrightarrow> p < prio k c \<or> p = prio k c \<and> yielding (thr k c)"
      "\<And>x. st k' x = (if x = t then 3 else if x = c \<and> st k c = 3 then 1 else st k x)" by (auto simp: switches_def)
    from t(1) have p: "prio k t = p" "\<And>x. st k x = 1 \<Longrightarrow> p \<le> prio k x" by (simp_all add: best_ready_def)
    have "prio k' t \<le> prio k' x" if "st k' x = 1" for x
      using that p t(3,4) unfolding pr by (auto split: if_splits)
    then show ?thesis using k' t by auto
  qed
qed

text \<open>Threads of one priority take turns: a yield moves the running thread to the end of its queue.\<close>

lemma yield_rotates:
  assumes k: "kernel_ok k" and c: "running c k" and free: "scheduler_lock_nest k = 0"
    and q: "queue k (prio k c) = t # ts" and best: "\<forall>x. st k x = 1 \<longrightarrow> prio k c \<le> prio k x"
  shows "\<exists>k'. rt_thread_yield k = Some k' \<and> kernel_ok k' \<and> running t k' \<and> scheduler_lock_nest k' = 0 \<and>
     prio k' t = prio k c \<and> queue k' (prio k c) = ts @ [c] \<and> (\<forall>x. st k' x = 1 \<longrightarrow> prio k c \<le> prio k' x)"
proof -
  from c have cur: "rt_current_thread k = Some c" "st k c = 3" by (simp_all add: running_def)
  define k1 where "k1 = upd_thr c (\<lambda>th. th\<lparr>remaining_tick := init_tick th, stat := stat th OR 8\<rparr>) k"
  have st1: "st k1 x = st k x" "prio k1 x = prio k x" "yielding (thr k1 c)" for x
    by (simp_all add: k1_def stat_of_def yielding_def and.assoc bit.conj_disj_distrib2)
  have f1: "lists k1 = lists k" "rt_current_thread k1 = Some c" "scheduler_lock_nest k1 = 0" by (simp_all add: k1_def cur free)
  have ok1: "kernel_ok k1" by (rule kernel_ok_cong [OF k]) (simp_all add: k1_def stat_of_def and.assoc bit.conj_disj_distrib2)
  then have s1: "sched_ok k1" by (simp add: kernel_ok_def)
  have t: "st k t = 1" "prio k t = prio k c" using queues_okD(1) [of k t "prio k c"] k q by (simp_all add: kernel_ok_def sched_ok_def)
  obtain k' where k': "rt_schedule k1 = Some k'" "sched_ok k'" "sched_frame k1 k'" "stays c k1 k' \<or> switches c k1 k'"
    using rt_schedule_cases [OF s1 f1(2)] f1(3) st1(1) [of t] t(1) by (auto split: if_splits)
  have pr: "prio k' x = prio k x" for x by (simp add: sched_frameD(2) [OF k'(3)] st1)
  have "\<not> stays c k1 k'" unfolding stays_def st1 using t st1(3) by auto
  with k'(4) obtain u p where u: "best_ready k1 (u, p)" "rt_current_thread k' = Some u"
      "\<And>x. st k' x = (if x = u then 3 else if x = c \<and> st k1 c = 3 then 1 else st k1 x)"
      "\<And>r. queue k' r = (if r = p then tl (queue k1 p) else queue k1 r) @ (if st k1 c = 3 \<and> r = prio k1 c then [c] else [])"
    unfolding switches_def by blast
  from u(1) have p: "hd (queue k p) = u" "prio k u = p" "st k u = 1" "\<And>x. st k x = 1 \<Longrightarrow> p \<le> prio k x" by (simp_all add: best_ready_def f1 st1)
  have pc: "p = prio k c" using p(4) [OF t(1)] p(2,3) t(2) best by fastforce
  have ut: "u = t" using p(1) q pc by simp
  have "kernel_ok k'" using kernel_ok_frame [OF ok1 k'(2,3)] by simp
  moreover have "running t k'" using u(2,3) ut by (simp add: running_def)
  moreover have "queue k' (prio k c) = ts @ [c]" using u(4) [of "prio k c"] pc q cur by (simp add: st1 f1)
  moreover have "\<forall>x. st k' x = 1 \<longrightarrow> prio k c \<le> prio k' x" unfolding pr u(3) st1 using best by simp
  moreover have "scheduler_lock_nest k' = 0" using sched_frameD(10) [OF k'(3)] f1 by simp
  moreover have "rt_thread_yield k = Some k'" using cur k'(1) by (simp add: rt_thread_yield_def k1_def)
  ultimately show ?thesis using pr t by auto
qed

lemma round_robin_run:
  assumes "kernel_ok k" "running c k" "scheduler_lock_nest k = 0" "queue k (prio k c) = us @ t # ts"
    "\<forall>x. st k x = 1 \<longrightarrow> prio k c \<le> prio k x" "\<forall>x\<in>set (c # us). waits h x = None"
  shows "\<exists>k'. kernel_run (map Yield (c # us)) (k, h) = Some (k', h) \<and> kernel_ok k' \<and> running t k' \<and>
     queue k' (prio k c) = ts @ c # us"
  using assms
proof (induction us arbitrary: c k ts)
  case Nil
  from yield_rotates [OF Nil(1-3) _ Nil(5)] Nil(4) show ?case
    using Nil(2,6) by (fastforce simp: when_running_def can_call_def)
next
  case (Cons u us)
  from Cons.prems(4) have "queue k (prio k c) = u # (us @ t # ts)" by simp
  from yield_rotates [OF Cons.prems(1-3) this Cons.prems(5)] obtain k1 where
    k1: "rt_thread_yield k = Some k1" "kernel_ok k1" "running u k1" "scheduler_lock_nest k1 = 0" "prio k1 u = prio k c"
      "queue k1 (prio k c) = us @ t # (ts @ [c])" "\<forall>x. st k1 x = 1 \<longrightarrow> prio k c \<le> prio k1 x" by auto
  from Cons.IH [of k1 u "ts @ [c]"] k1 Cons.prems(6) obtain k' where
    "kernel_run (map Yield (u # us)) (k1, h) = Some (k', h)" "kernel_ok k'" "running t k'" "queue k' (prio k c) = ts @ c # u # us" by auto
  then show ?case using k1(1) Cons.prems(2,6) by (simp add: when_running_def can_call_def)
qed

section \<open>Sleep\<close>

lemma sleeping_suspended: "kernel_ok k \<Longrightarrow> sleeping k t d \<Longrightarrow> st k t = 2 \<and> 1 \<le> d"
  using timers_okD(3,4) [of 1 k t] by (auto simp: kernel_ok_def sleeping_def)

lemma sleeping_tick:
  assumes s: "kernel_inv units (k, h)" and t: "sleeping k t d"
  shows "\<exists>k'. kernel_step Tick (k, h) = Some (k', h) \<and> kernel_inv units (k', h) \<and>
     (if d \<le> 2 then st k' t = 1 \<or> st k' t = 3 else sleeping k' t (d - 1))"
proof -
  from kernel_tick_ok [OF s] obtain k' where
    k': "kernel_step Tick (k, h) = Some (k', h)" "kernel_inv units (k', h)"
      "ticked {t \<in> set (rt_timer_list k). due k t \<le> 2} k k'" "rt_timer_list k' = filter (\<lambda>t. 3 \<le> due k t) (rt_timer_list k)" by blast
  note ticked = k'(3) [unfolded ticked_def]
  have d: "due k' t = d - 1"
    using due_next_tick [of k' t k] ticked t sleeping_suspended [OF kernel_invD(1) [OF s] t] by (simp add: sleeping_def)
  have "st k' t = 1 \<or> st k' t = 3" if "d \<le> 2"
    using ticked t that by (simp add: woken_stat_def sleeping_def)
  moreover have "sleeping k' t (d - 1)" if "\<not> d \<le> 2"
    using t d that ticked by (auto simp: sleeping_def k'(4))
  ultimately show ?thesis using k' by auto
qed

lemma sleeping_run:
  assumes "kernel_inv units (k, h)" "sleeping k t d" "\<forall>e\<in>set es. supported e" "count_list es Tick = 0 \<or> count_list es Tick + 2 \<le> d"
  shows "\<exists>k' h'. kernel_run es (k, h) = Some (k', h') \<and> kernel_inv units (k', h') \<and> sleeping k' t (d - count_list es Tick)"
  using assms
proof (induction es arbitrary: k h d)
  case (Cons e es)
  show ?case
  proof (cases "e = Tick")
    case True
    with sleeping_tick [OF Cons.prems(1,2)] Cons.prems(4) obtain k1 where
      k1: "kernel_step e (k, h) = Some (k1, h)" "kernel_inv units (k1, h)" "sleeping k1 t (d - 1)" by auto
    from Cons.prems(4) True have "count_list es Tick = 0 \<or> count_list es Tick + 2 \<le> d - 1" by auto
    from Cons.IH [OF k1(2,3) _ this] Cons.prems(3) True k1(1) show ?thesis by auto
  next
    case False
    with kernel_call_ok [OF Cons.prems(1), of e] Cons.prems(3) obtain k1 h1 where
      k1: "kernel_step e (k, h) = Some (k1, h1)" "kernel_inv units (k1, h1)" "mild k k1" by auto
    from sleeping_mild [OF k1(3) kernel_invD(1) [OF Cons.prems(1)] kernel_invD(1) [OF k1(2)] Cons.prems(2)]
    have "sleeping k1 t d" .
    from Cons.IH [OF k1(2) this] Cons.prems(3,4) False k1(1) show ?thesis by auto
  qed
qed simp

lemma sleep_start:
  assumes s: "kernel_inv units (k, c)" and t: "can_call t k c" "t \<noteq> tidle" and n: "n < 0x7FFFFFFF"
  shows "\<exists>k'. kernel_step (Sleep t n) (k, c) = Some (k', c) \<and> kernel_inv units (k', c) \<and> sleeping k' t (Suc (unat n))"
proof -
  from t have r: "running t k" "waits c t = None" by (simp_all add: can_call_def)
  from sleep_ok [OF kernel_invD(1) [OF s] r(1) t(2) n] obtain k' where
    k': "rt_thread_sleep_suspend n k = Some k'" "kernel_ok k'" "others_kept {t} k k'" "sems_kept {} k k'"
      "t \<in> set (rt_timer_list k')" "due k' t = Suc (unat n)" "\<forall>i. t \<notin> set (waiters k' i)" by blast
  from kernel_inv_kept [OF s k'(2,3) kept_mono(2) [OF k'(4)]] r(2) have "kernel_inv units (k', c)" by simp
  with k' t show ?thesis by (simp add: when_running_def sleeping_def)
qed

end
