(* ===== verification/Rt_Boot.thy ===== *)
theory Rt_Boot
  imports Rt_Kernel_Props
begin

text \<open>
  The start of the firmware: \<open>rtthread_startup\<close> creates the main thread, the thread of the soft timers and
  the idle thread and starts the scheduler; \<open>main\<close> creates the three tasks of the application and
  goes to sleep. Priorities and time slices are those of \<^verbatim>\<open>rtconfig.h\<close>, \<^verbatim>\<open>Gpio.h\<close> and the calls.
\<close>

section \<open>Start of the kernel\<close>

definition timer_thread :: nat where "timer_thread = 1"
definition main_thread :: nat where "main_thread = 2"
definition uart_thread :: nat where "uart_thread = 3"
definition button_thread :: nat where "button_thread = 4"
definition oled_thread :: nat where "oled_thread = 5"
definition heap_sem :: nat where "heap_sem = 0"

definition RT_MAIN_THREAD_PRIORITY :: u8 where [simp]: "RT_MAIN_THREAD_PRIORITY = 10"
definition RT_TIMER_THREAD_PRIO :: u8 where [simp]: "RT_TIMER_THREAD_PRIO = 4"
definition UART2_PRIORITY :: u8 where [simp]: "UART2_PRIORITY = 18"
definition OLED_PRIORITY :: u8 where [simp]: "OLED_PRIORITY = 20"
definition BUTTON_PRIORITY :: u8 where [simp]: "BUTTON_PRIORITY = 21"

text \<open>Zero-initialised memory.\<close>

definition zero_thread :: rt_thread where
  "zero_thread = \<lparr>stat = 0, current_priority = 0, init_priority = 0, number_mask = 0, init_tick = 0, remaining_tick = 0,
     error = 0, thread_timer = \<lparr>timer_flag = 0, timer_init_tick = 0, timeout_tick = 0\<rparr>\<rparr>"

definition reset_kernel :: kernel where
  "reset_kernel = \<lparr>thr = (\<lambda>_. zero_thread), lists = (\<lambda>_. []), ready_priority_group = 0, rt_current_thread = None,
     rt_current_priority = 0, scheduler_lock_nest = 0, rt_tick = 0, rt_timer_list = [], expired_list = [],
     sems = (\<lambda>_. \<lparr>sem_value = 0, sem_flag = 0\<rparr>)\<rparr>"

definition rt_system_timer_init :: "kernel \<Rightarrow> kernel" where
  "rt_system_timer_init k = k\<lparr>rt_timer_list := []\<rparr>"

definition rt_system_scheduler_init :: "kernel \<Rightarrow> kernel" where
  "rt_system_scheduler_init k =
     k\<lparr>scheduler_lock_nest := 0,
       lists := (\<lambda>h. case h of Priority_table p \<Rightarrow> if p < RT_THREAD_PRIORITY_MAX then [] else lists k h | _ \<Rightarrow> lists k h),
       ready_priority_group := 0\<rparr>"

definition rt_application_init :: "kernel \<Rightarrow> kernel option" where
  "rt_application_init k =
     do { k \<leftarrow> rt_thread_init main_thread RT_MAIN_THREAD_PRIORITY 20 k; rt_thread_startup main_thread k }"

definition rt_system_timer_thread_init :: "kernel \<Rightarrow> kernel option" where
  "rt_system_timer_thread_init k =
     do { k \<leftarrow> rt_thread_init timer_thread RT_TIMER_THREAD_PRIO 10 k; rt_thread_startup timer_thread k }"

definition rt_thread_idle_init :: "kernel \<Rightarrow> kernel option" where
  "rt_thread_idle_init k =
     do { k \<leftarrow> rt_thread_init tidle (of_nat (RT_THREAD_PRIORITY_MAX - 1)) 32 k; rt_thread_startup tidle k }"

text \<open>The board initialisation sets up the heap and its semaphore.\<close>

definition rtthread_startup :: "kernel \<Rightarrow> kernel option" where
  "rtthread_startup k =
     do { k \<leftarrow> rt_sem_init heap_sem 1 RT_IPC_FLAG_FIFO k;
          k \<leftarrow> rt_application_init (rt_system_scheduler_init (rt_system_timer_init k));
          k \<leftarrow> rt_system_timer_thread_init k;
          k \<leftarrow> rt_thread_idle_init k;
          rt_system_scheduler_start k }"

section \<open>Start of the application\<close>

text \<open>The timer thread finds no soft timer and suspends itself. \<open>main\<close> creates the tasks and enters its loop.\<close>

definition rt_thread_timer_entry :: "kernel_event list" where
  "rt_thread_timer_entry = [Suspend_self timer_thread, Schedule timer_thread]"

definition UartTaskInit :: "kernel_event list" where
  "UartTaskInit = [Create main_thread uart_thread UART2_PRIORITY 10]"

definition ButtonTaskInit :: "kernel_event list" where
  "ButtonTaskInit = [Create main_thread button_thread BUTTON_PRIORITY 10]"

definition OledTaskInit :: "kernel_event list" where
  "OledTaskInit = [Create main_thread oled_thread OLED_PRIORITY 10]"

definition mdelay :: "nat \<Rightarrow> 32 word \<Rightarrow> kernel_event list" where
  "mdelay t ms = [Sleep t (rt_tick_from_millisecond ms), Schedule t]"

definition fw_main :: "kernel_event list" where
  "fw_main = UartTaskInit @ ButtonTaskInit @ OledTaskInit @ mdelay main_thread 1000"

section \<open>The state after the start\<close>

definition ready_thread :: "nat \<Rightarrow> u32 \<Rightarrow> rt_thread" where
  "ready_thread p n = \<lparr>stat = 1, current_priority = of_nat p, init_priority = of_nat p, number_mask = 2 ^ p, init_tick = n, remaining_tick = n,
     error = 0, thread_timer = \<lparr>timer_flag = 0, timer_init_tick = 0, timeout_tick = 0\<rparr>\<rparr>"

definition booted :: kernel where
  "booted = \<lparr>thr = (\<lambda>_. zero_thread)(main_thread := ready_thread 10 20, timer_thread := (ready_thread 4 10)\<lparr>stat := 3\<rparr>, tidle := ready_thread 31 32),
     lists = (\<lambda>_. [])(Priority_table 10 := [main_thread], Priority_table 31 := [tidle]),
     ready_priority_group = 0x80000400, rt_current_thread = Some timer_thread, rt_current_priority = 0,
     scheduler_lock_nest = 0, rt_tick = 0, rt_timer_list = [], expired_list = [],
     sems = (\<lambda>_. \<lparr>sem_value = 0, sem_flag = 0\<rparr>)(heap_sem := \<lparr>sem_value = 1, sem_flag = 0\<rparr>)\<rparr>"

lemmas ids = tidle_def timer_thread_def main_thread_def uart_thread_def button_thread_def oled_thread_def heap_sem_def

text \<open>Before the scheduler runs, starting a thread puts it at the end of its ready queue.\<close>

lemma start_before_scheduler:
  assumes "rt_current_thread k = None" "p < 32" "\<And>h. t \<notin> set (lists k h)"
  shows "Option.bind (rt_thread_init t (of_nat p) n k) (rt_thread_startup t) =
    Some (k\<lparr>thr := (thr k)(t := ready_thread p n),
            lists := (lists k)(Priority_table p := lists k (Priority_table p) @ [t]),
            ready_priority_group := ready_priority_group k OR 2 ^ p\<rparr>)"
  using assms
  by (simp add: rt_thread_init_def rt_thread_startup_def rt_thread_resume_def rt_timer_stop_def rt_schedule_insert_thread_def Let_def
      rt_list_remove_def rt_list_insert_before_def upd_thr_def stat_of_def has_flag_def with_stat_def rt_timer_init_def ready_thread_def
      remove1_idem unat_of_nat take_bit_nat_eq_self)

lemma startup_eq: "rtthread_startup reset_kernel = Some booted"
proof -
  define k0 where "k0 = reset_kernel\<lparr>sems := (\<lambda>_. \<lparr>sem_value = 0, sem_flag = 0\<rparr>)(heap_sem := \<lparr>sem_value = 1, sem_flag = 0\<rparr>)\<rparr>"
  define k1 where "k1 = k0\<lparr>thr := (\<lambda>_. zero_thread)(main_thread := ready_thread 10 20),
    lists := (\<lambda>_. [])(Priority_table 10 := [main_thread]), ready_priority_group := 0x400\<rparr>"
  define k2 where "k2 = k0\<lparr>thr := (\<lambda>_. zero_thread)(main_thread := ready_thread 10 20, timer_thread := ready_thread 4 10),
    lists := (\<lambda>_. [])(Priority_table 10 := [main_thread], Priority_table 4 := [timer_thread]), ready_priority_group := 0x410\<rparr>"
  define k3 where "k3 = k0\<lparr>thr := (\<lambda>_. zero_thread)(main_thread := ready_thread 10 20, timer_thread := ready_thread 4 10, tidle := ready_thread 31 32),
    lists := (\<lambda>_. [])(Priority_table 10 := [main_thread], Priority_table 4 := [timer_thread], Priority_table 31 := [tidle]),
    ready_priority_group := 0x80000410\<rparr>"
  note defs = k0_def k1_def k2_def k3_def reset_kernel_def
  have "rt_sem_init heap_sem 1 0 reset_kernel = Some k0" by (simp add: rt_sem_init_def defs fun_upd_idem)
  moreover have "rt_system_scheduler_init (rt_system_timer_init k0) = k0"
    by (simp add: rt_system_scheduler_init_def rt_system_timer_init_def defs fun_eq_iff split: rt_list_head.splits)
  moreover have "rt_application_init k0 = Some k1"
    using start_before_scheduler [of k0 10 main_thread 20] by (simp add: rt_application_init_def defs)
  moreover have "rt_system_timer_thread_init k1 = Some k2"
    using start_before_scheduler [of k1 4 timer_thread 10] by (simp add: rt_system_timer_thread_init_def defs ids)
  moreover have "rt_thread_idle_init k2 = Some k3"
    using start_before_scheduler [of k2 31 tidle 32] by (simp add: rt_thread_idle_init_def defs ids)
  moreover have "rt_system_scheduler_start k3 = Some booted"
  proof -
    have ffs: "rt_ffs 0x80000410 = Suc 4" by code_simp
    have "get_highest_priority_thread k3 = Some (timer_thread, 4)"
      by (simp add: get_highest_priority_thread_def defs ffs del: One_nat_def)
    then show ?thesis
      by (simp add: rt_system_scheduler_start_def rt_schedule_remove_thread_def rt_list_remove_def upd_thr_def defs booted_def
          ready_thread_def ids fun_eq_iff fun_upd_twist)
  qed
  ultimately show ?thesis by (simp add: rtthread_startup_def)
qed

lemma booted_fields:
  "st booted t = (if t = timer_thread then 3 else if t = main_thread \<or> t = tidle then 1 else 0)"
  "prio booted t = (if t = main_thread then 10 else if t = timer_thread then 4 else if t = tidle then 31 else 0)"
  "number_mask (thr booted t) = (if t = main_thread then 2 ^ 10 else if t = timer_thread then 2 ^ 4 else if t = tidle then 2 ^ 31 else 0)"
  "init_priority (thr booted t) = current_priority (thr booted t)"
  "\<not> has_flag m (tm booted t)"
  "lists booted h = (if h = Priority_table 10 then [main_thread] else if h = Priority_table 31 then [tidle] else [])"
  "ready_priority_group booted = 0x80000400"
  "rt_current_thread booted = Some timer_thread" "scheduler_lock_nest booted = 0" "rt_timer_list booted = []" "expired_list booted = []"
  "sem_value (sems booted i) = (if i = heap_sem then 1 else 0)"
  by (auto simp: booted_def stat_of_def ready_thread_def zero_thread_def ids has_flag_def)

lemma kernel_ok_booted: "kernel_ok booted"
proof -
  have group: "(0x80000400 :: u32) = 2 ^ 10 OR 2 ^ 31" by simp
  have bits: "bit (0x80000400 :: u32) p \<longleftrightarrow> p = 10 \<or> p = 31" if "p < 32" for p
    unfolding group bit_group_insert [OF that] by (auto simp: bit_exp_iff simp del: power_numeral)
  have "bit (ready_priority_group booted) p \<longleftrightarrow> queue booted p \<noteq> []" if "p < 32" for p
    unfolding booted_fields bits [OF that] by simp
  then have "queues_ok booted"
    unfolding queues_ok_def booted_fields(1-6) by (intro conjI) (simp_all add: ids)
  moreover have "cur_ok booted" unfolding cur_ok_def booted_fields by (simp add: ids)
  moreover have "timers_ok 1 booted" unfolding timers_ok_def by (simp add: booted_fields)
  ultimately show ?thesis unfolding kernel_ok_def sched_ok_def booted_fields by (simp add: ids)
qed

definition heap_units :: "nat \<Rightarrow> nat" where "heap_units i = (if i = heap_sem then 1 else 0)"

lemma kernel_inv_booted: "kernel_inv heap_units (booted, no_calls)"
proof -
  have "granted booted no_calls i = {}" for i by (simp add: granted_def no_calls_def)
  moreover have "sem_flag (sems booted i) = 0" for i by (simp add: booted_def)
  then have "calls_ok booted no_calls" by (intro calls_okI) (simp_all add: booted_fields no_calls_def)
  ultimately show ?thesis by (simp add: kernel_inv_def kernel_ok_booted booted_fields heap_units_def) (simp add: no_calls_def)
qed

section \<open>Who runs first\<close>

text \<open>The running thread hands over to the best of the ready threads when it goes to sleep or suspends itself.\<close>

lemma schedule_suspended:
  assumes k: "kernel_ok k" and t: "rt_current_thread k = Some t" "st k t = 2" and free: "scheduler_lock_nest k = 0"
    and u: "st k u = 1" "\<And>x. st k x = 1 \<Longrightarrow> x \<noteq> u \<Longrightarrow> prio k u < prio k x"
  shows "\<exists>k'. rt_schedule k = Some k' \<and> kernel_ok k' \<and> running u k' \<and> scheduler_lock_nest k' = 0 \<and>
     (\<forall>x. st k' x = (if x = u then 3 else st k x)) \<and> (\<forall>x. prio k' x = prio k x)"
proof -
  have s: "sched_ok k" using k by (simp add: kernel_ok_def)
  obtain k' where k': "rt_schedule k = Some k'" "sched_ok k'" "sched_frame k k'" "stays t k k' \<or> switches t k k'"
    using rt_schedule_cases [OF s t(1)] free u(1) by (auto split: if_splits)
  with t have "switches t k k'" by (auto simp: stays_def)
  then obtain v p where v: "best_ready k (v, p)" "rt_current_thread k' = Some v"
      "\<And>x. st k' x = (if x = v then 3 else if x = t \<and> st k t = 3 then 1 else st k x)" unfolding switches_def by blast
  from v(1) have p: "prio k v = p" "st k v = 1" "p \<le> prio k u" using u(1) by (simp_all add: best_ready_def)
  have "v = u" using u(2) [OF p(2)] p(1,3) by fastforce
  then show ?thesis
    using k' v kernel_ok_frame [OF k k'(2,3)] sched_frameD(2,10) [OF k'(3)] t free by (auto simp: running_def)
qed

text \<open>The view of the threads the next statements use: who has the processor, and the states.\<close>

definition view :: "nat \<Rightarrow> (nat \<Rightarrow> u8) \<Rightarrow> (nat \<Rightarrow> nat) \<Rightarrow> kernel \<Rightarrow> bool" where
  "view c S pr k \<longleftrightarrow> kernel_ok k \<and> scheduler_lock_nest k = 0 \<and> running c k \<and> st k = S \<and> prio k = pr"

lemma blocked_hands_over:
  assumes k: "kernel_ok k" "rt_current_thread k = Some t" "scheduler_lock_nest k = 0"
    and S: "\<And>x. st k x = (if x = t then 2 else S x)" "\<And>x. prio k x = pr x"
    and u: "t \<noteq> u" "S u = 1" "\<And>x. S x = 1 \<Longrightarrow> x \<noteq> u \<Longrightarrow> pr u < pr x"
  shows "\<exists>k'. rt_schedule k = Some k' \<and> view u (S(t := 2, u := 3)) pr k'"
proof -
  have "prio k u < prio k x" if "st k x = 1" "x \<noteq> u" for x using that u(3) [of x] S by (simp split: if_splits)
  from schedule_suspended [OF k(1,2) _ k(3), of u, OF _ _ this] obtain k' where
    "rt_schedule k = Some k'" "kernel_ok k'" "running u k'" "scheduler_lock_nest k' = 0"
      "\<And>x. st k' x = (if x = u then 3 else st k x)" "\<And>x. prio k' x = prio k x"
    using S u(1,2) by auto
  then show ?thesis using S by (auto simp: view_def fun_eq_iff)
qed

lemma hands_over:
  assumes v: "view t S pr k" and t: "t \<noteq> tidle" "waits h t = None" and e: "e = Suspend_self t \<or> (\<exists>n. e = Sleep t n \<and> n < 0x7FFFFFFF)"
    and u: "S u = 1" "\<And>x. S x = 1 \<Longrightarrow> x \<noteq> u \<Longrightarrow> pr u < pr x"
  shows "\<exists>k'. kernel_run [e, Schedule t] (k, h) = Some (k', h) \<and> view u (S(t := 2, u := 3)) pr k'"
proof -
  from v have k: "kernel_ok k" "scheduler_lock_nest k = 0" "running t k" "st k = S" "prio k = pr" by (simp_all add: view_def)
  obtain k1 where k1: "kernel_step e (k, h) = Some (k1, h)" "kernel_ok k1" "\<And>x. st k1 x = (if x = t then 2 else st k x)"
      "\<And>x. prio k1 x = prio k x" "scheduler_lock_nest k1 = scheduler_lock_nest k" "rt_current_thread k1 = Some t"
  proof (cases "e = Suspend_self t")
    case True
    with suspend_self_ok [OF k(1,3) t(1)] k(3) t(2) that show thesis by (auto simp: when_running_def can_call_def)
  next
    case False
    with e obtain n where "e = Sleep t n" "n < 0x7FFFFFFF" by auto
    with sleep_ok [OF k(1,3) t(1), of n] k(3) t(2) that show thesis by (auto simp: when_running_def can_call_def)
  qed
  have "t \<noteq> u" using k(3,4) u(1) by (auto simp: running_def)
  moreover have "st k x = S x" "prio k x = pr x" for x using k(4,5) by (simp_all add: fun_eq_iff)
  then have "st k1 x = (if x = t then 2 else S x)" "prio k1 x = pr x" for x using k1(3,4) by simp_all
  moreover have "scheduler_lock_nest k1 = 0" using k(2) k1(5) by simp
  ultimately obtain k' where "rt_schedule k1 = Some k'" "view u (S(t := 2, u := 3)) pr k'"
    using blocked_hands_over [OF k1(2,6), of S pr u] u by blast
  then show ?thesis using k1(1,6) by simp
qed

text \<open>A thread that creates one of a worse priority goes on running.\<close>

lemma create_goes_on:
  assumes v: "view t S pr k" and w: "waits h t = None" and u: "S u = 0" "unat p < 32" "pr t < unat p" and best: "\<And>x. S x = 1 \<Longrightarrow> pr t < pr x"
  shows "\<exists>k'. kernel_step (Create t u p n) (k, h) = Some (k', h) \<and> view t (S(u := 1)) (pr(u := unat p)) k'"
proof -
  from v have k: "kernel_ok k" "scheduler_lock_nest k = 0" "running t k" "st k = S" "prio k = pr" by (simp_all add: view_def)
  then have S: "st k x = S x" "prio k x = pr x" for x by (simp_all add: fun_eq_iff)
  have t: "rt_current_thread k = Some t" "S t = 3" using k(3) S by (auto simp: running_def)
  obtain k1 k3 where k3: "rt_thread_init u p n k = Some k1" "rt_thread_startup u k1 = rt_schedule k3" "kernel_ok k3"
      "\<And>x. st k3 x = (if x = u then 1 else S x)" "\<And>x. prio k3 x = (if x = u then unat p else pr x)" "scheduler_lock_nest k3 = 0"
      "rt_current_thread k3 = Some t"
    using create_queued [OF k(1) _ u(2), of u n] u(1) t k(2) unfolding S by auto
  have ut: "t \<noteq> u" using t(2) u(1) by auto
  have "sched_ok k3" using k3(3) by (simp add: kernel_ok_def)
  from rt_schedule_cases [OF this k3(7)] obtain k' where
    k': "rt_schedule k3 = Some k'" "sched_ok k'" "sched_frame k3 k'" "stays t k3 k' \<or> switches t k3 k'"
    using k3(6) k3(4) [of u] by (auto split: if_splits)
  have "prio k3 t < prio k3 x" if "st k3 x = 1" for x using that best [of x] u(3) ut by (simp add: k3(4,5) split: if_splits)
  then have "\<not> switches t k3 k'" using t(2) ut unfolding switches_def best_ready_def k3(4) by (fastforce simp: k3(4))
  with k'(4) have "rt_current_thread k' = Some t" "\<And>x. st k' x = st k3 x" by (auto simp: stays_def)
  moreover have "kernel_ok k'" "scheduler_lock_nest k' = 0" "\<And>x. prio k' x = prio k3 x"
    using kernel_ok_frame [OF k3(3) k'(2,3)] sched_frameD(2,10) [OF k'(3)] k3(6) by auto
  ultimately have "view t (S(u := 1)) (pr(u := unat p)) k'"
    using t(2) ut by (auto simp: view_def running_def k3 fun_eq_iff)
  then show ?thesis using k(3) w u(1) S(1) [of u] k3(1,2) k'(1) by (simp add: can_call_def)
qed

section \<open>Milliseconds\<close>

text \<open>At 1000 ticks per second a millisecond is a tick.\<close>

lemma tick_from_millisecond:
  "rt_tick_from_millisecond ms = (if sint ms < 0 then 0xFFFFFFFF else ms)"
proof -
  have "(1000 * (sint ms mod 1000) + 999) div 1000 = sint ms mod 1000" by simp
  moreover have "word_of_int (1000 * (sint ms div 1000)) + word_of_int (sint ms mod 1000) = ms"
    unfolding of_int_add [symmetric] by simp
  ultimately show ?thesis by (simp add: rt_tick_from_millisecond_def)
qed

lemma mdelay_ticks:
  assumes "0 \<le> sint ms" "ms \<noteq> 0x7FFFFFFF"
  shows "mdelay t ms = [Sleep t ms, Schedule t] \<and> ms < 0x7FFFFFFF"
proof -
  have "ms < 0x7FFFFFFF"
    using assms sint_pos_less [of ms] by (cases "sint ms = 0") (auto simp: signed_eq_0_iff)
  with assms(1) show ?thesis by (simp add: mdelay_def tick_from_millisecond)
qed

section \<open>The order of the start\<close>

text \<open>The thread that has the processor after some events from reset.\<close>

definition on_cpu :: "kernel_event list \<Rightarrow> nat option" where
  "on_cpu es = do { k \<leftarrow> rtthread_startup reset_kernel; (k, h) \<leftarrow> kernel_run es (k, no_calls); rt_current_thread k }"

definition reaches :: "kernel_event list \<Rightarrow> nat \<Rightarrow> (nat \<Rightarrow> u8) \<Rightarrow> (nat \<Rightarrow> nat) \<Rightarrow> bool" where
  "reaches es c S pr \<longleftrightarrow> (\<exists>k. kernel_run es (booted, no_calls) = Some (k, no_calls) \<and> view c S pr k)"

lemma reaches_on_cpu: "reaches es c S pr \<Longrightarrow> on_cpu es = Some c"
  by (auto simp: reaches_def on_cpu_def startup_eq view_def running_def)

definition boot_stats :: "nat \<Rightarrow> u8" where
  "boot_stats = (\<lambda>_. 0)(tidle := 1, main_thread := 3, timer_thread := 2)"

definition boot_prios :: "nat \<Rightarrow> nat" where
  "boot_prios = (\<lambda>_. 0)(tidle := 31, main_thread := 10, timer_thread := 4)"

lemma main_starts:
  "\<exists>k. kernel_run rt_thread_timer_entry (booted, no_calls) = Some (k, no_calls) \<and> view main_thread boot_stats boot_prios k"
proof -
  let ?S = "(\<lambda>_. 0)(tidle := 1, main_thread := 1, timer_thread := 3) :: nat \<Rightarrow> u8"
  have v: "view timer_thread ?S boot_prios booted"
    by (auto simp: view_def kernel_ok_booted running_def booted_fields boot_prios_def fun_eq_iff ids)
  have "boot_prios main_thread < boot_prios x" if "?S x = 1" "x \<noteq> main_thread" for x
    using that by (auto simp: boot_prios_def ids split: if_splits)
  from hands_over [OF v _ _ _ _ this, of no_calls "Suspend_self timer_thread"]
  have "\<exists>k. kernel_run rt_thread_timer_entry (booted, no_calls) = Some (k, no_calls) \<and> view main_thread (?S(timer_thread := 2, main_thread := 3)) boot_prios k"
    unfolding rt_thread_timer_entry_def by (simp add: ids no_calls_def del: kernel_run.simps)
  moreover have "?S(timer_thread := 2, main_thread := 3) = boot_stats" by (simp add: boot_stats_def fun_eq_iff ids)
  ultimately show ?thesis by simp
qed

definition task_stats :: "nat \<Rightarrow> u8" where
  "task_stats = boot_stats(uart_thread := 1, button_thread := 1, oled_thread := 1)"

definition task_prios :: "nat \<Rightarrow> nat" where
  "task_prios = boot_prios(uart_thread := 18, button_thread := 21, oled_thread := 20)"

lemma main_creates_tasks:
  assumes v: "view main_thread boot_stats boot_prios k"
  shows "\<exists>k'. kernel_run (UartTaskInit @ ButtonTaskInit @ OledTaskInit) (k, no_calls) = Some (k', no_calls) \<and> view main_thread task_stats task_prios k'"
proof -
  have w: "waits no_calls t = None" for t by (simp add: no_calls_def)
  note f = boot_stats_def boot_prios_def ids
  define S1 p1 where d1: "S1 = boot_stats(uart_thread := 1)" "p1 = boot_prios(uart_thread := 18)"
  define S2 p2 where d2: "S2 = S1(button_thread := 1)" "p2 = p1(button_thread := 21)"
  have best: "boot_prios main_thread < boot_prios x" if "boot_stats x = 1" for x
    using that by (auto simp: f split: if_splits)
  have best1: "p1 main_thread < p1 x" if "S1 x = 1" for x using that by (auto simp: d1 f split: if_splits)
  have best2: "p2 main_thread < p2 x" if "S2 x = 1" for x using that by (auto simp: d2 d1 f split: if_splits)
  have new: "boot_stats uart_thread = 0" "S1 button_thread = 0" "S2 oled_thread = 0"
    "boot_prios main_thread < 18" "p1 main_thread < 21" "p2 main_thread < 20" by (simp_all add: d2 d1 f)
  obtain k1 where k1: "kernel_step (Create main_thread uart_thread 18 10) (k, no_calls) = Some (k1, no_calls)" "view main_thread S1 p1 k1"
    using create_goes_on [OF v w new(1) _ _ best, of 18 10] new(4) unfolding d1 by auto
  obtain k2 where k2: "kernel_step (Create main_thread button_thread 21 10) (k1, no_calls) = Some (k2, no_calls)" "view main_thread S2 p2 k2"
    using create_goes_on [OF k1(2) w new(2) _ _ best1, of 21 10] new(5) unfolding d2 by auto
  have tasks: "task_stats = S2(oled_thread := 1)" "task_prios = p2(oled_thread := 20)"
    by (simp_all add: task_stats_def task_prios_def d2 d1)
  obtain k3 where k3: "kernel_step (Create main_thread oled_thread 20 10) (k2, no_calls) = Some (k3, no_calls)" "view main_thread task_stats task_prios k3"
    using create_goes_on [OF k2(2) w new(3) _ _ best2, of 20 10] new(6) unfolding tasks by auto
  show ?thesis using k1(1) k2(1) k3 unfolding UartTaskInit_def ButtonTaskInit_def OledTaskInit_def
    by (simp del: kernel_step.simps)
qed

lemma reaches_sleep:
  assumes r: "reaches es t S task_prios" and t: "t \<noteq> tidle" "0 \<le> sint ms" "ms \<noteq> 0x7FFFFFFF"
    and u: "S u = 1" "\<And>x. S x = 1 \<Longrightarrow> x \<noteq> u \<Longrightarrow> task_prios u < task_prios x"
  shows "reaches (es @ mdelay t ms) u (S(t := 2, u := 3)) task_prios"
proof -
  from r obtain k where k: "kernel_run es (booted, no_calls) = Some (k, no_calls)" "view t S task_prios k" by (auto simp: reaches_def)
  from hands_over [OF k(2) t(1) _ _ u, of no_calls "Sleep t ms"] mdelay_ticks [OF t(2,3), of t]
  obtain k' where "kernel_run (mdelay t ms) (k, no_calls) = Some (k', no_calls)" "view u (S(t := 2, u := 3)) task_prios k'"
    by (auto simp: no_calls_def)
  then show ?thesis using k(1) by (auto simp: reaches_def kern.run_append)
qed

lemma reaches_main:
  "reaches rt_thread_timer_entry main_thread boot_stats boot_prios"
  "reaches (rt_thread_timer_entry @ UartTaskInit @ ButtonTaskInit @ OledTaskInit) main_thread task_stats task_prios"
proof -
  show "reaches rt_thread_timer_entry main_thread boot_stats boot_prios" using main_starts by (simp add: reaches_def)
  then show "reaches (rt_thread_timer_entry @ UartTaskInit @ ButtonTaskInit @ OledTaskInit) main_thread task_stats task_prios"
    unfolding reaches_def kern.run_append [of rt_thread_timer_entry] using main_creates_tasks by fastforce
qed

definition order1 :: "nat \<Rightarrow> u8" where "order1 = task_stats(main_thread := 2, uart_thread := 3)"
definition order2 :: "nat \<Rightarrow> u8" where "order2 = order1(uart_thread := 2, oled_thread := 3)"
definition order3 :: "nat \<Rightarrow> u8" where "order3 = order2(oled_thread := 2, button_thread := 3)"

lemmas orders = order3_def order2_def order1_def task_stats_def task_prios_def boot_stats_def boot_prios_def ids

lemma order_best:
  "task_stats x = 1 \<Longrightarrow> x \<noteq> uart_thread \<Longrightarrow> task_prios uart_thread < task_prios x"
  "order1 x = 1 \<Longrightarrow> x \<noteq> oled_thread \<Longrightarrow> task_prios oled_thread < task_prios x"
  "order2 x = 1 \<Longrightarrow> x \<noteq> button_thread \<Longrightarrow> task_prios button_thread < task_prios x"
  "order3 x = 1 \<Longrightarrow> x \<noteq> tidle \<Longrightarrow> task_prios tidle < task_prios x"
  by (auto simp: orders split: if_splits)

section \<open>Properties of the kernel from reset\<close>

text \<open>C5: From reset, whatever the threads do within the calls the kernel supports, and whenever ticks
  come between them, no assertion of the kernel fails and no null or dangling pointer is used.\<close>

theorem kernel_never_fails:
  assumes "\<forall>e\<in>set es. supported e"
  shows "\<exists>k s. rtthread_startup reset_kernel = Some k \<and> kernel_run es (k, no_calls) = Some s \<and> kernel_ok (fst s)"
proof -
  from kern.run_ok [OF kernel_inv_booted assms] obtain k h where
    "kernel_run es (booted, no_calls) = Some (k, h)" "kernel_inv heap_units (k, h)" by auto
  then show ?thesis using startup_eq kernel_invD(1) [of heap_units k h] by simp
qed

theorem kernel_never_fails_witness:
  "\<exists>k s. rtthread_startup reset_kernel = Some k \<and> kernel_run [Tick, Sleep timer_thread 5, Tick, Schedule timer_thread] (k, no_calls) = Some s \<and> kernel_ok (fst s)"
  by (rule kernel_never_fails) (simp add: ids)

text \<open>C7: The heap is used by one thread at a time: from reset, in every run in which a thread releases the
  semaphore of the heap only when it holds it, \<open>rt_sem_take\<close> has returned \<open>RT_EOK\<close> to at most one
  thread that has not released it since, and returns it to a waiting thread only when none has it. No
  thread waits for a free heap: while one waits, another holds it or is about to return with it.\<close>

theorem heap_exclusive:
  assumes "\<forall>e\<in>set es. supported e"
  shows "\<exists>k k' c. rtthread_startup reset_kernel = Some k \<and> kernel_run es (k, no_calls) = Some (k', c) \<and>
     length (holds c heap_sem) \<le> 1 \<and>
     (\<forall>t. running t k' \<and> waits c t = Some heap_sem \<and> rt_sem_take_return t k' = RT_EOK \<longrightarrow> holds c heap_sem = []) \<and>
     (waiters k' heap_sem \<noteq> [] \<longrightarrow> holds c heap_sem \<noteq> [] \<or>
       (\<exists>t. waits c t = Some heap_sem \<and> t \<notin> set (waiters k' heap_sem) \<and> rt_sem_take_return t k' = RT_EOK))"
proof -
  from kern.run_ok [OF kernel_inv_booted assms] obtain k' c where
    r: "kernel_run es (booted, no_calls) = Some (k', c)" "kernel_inv heap_units (k', c)" by auto
  note inv = kernel_invD [OF r(2)]
  from inv(5) [of heap_sem] have sum: "unat (sem_value (sems k' heap_sem)) + length (holds c heap_sem) + card (granted k' c heap_sem) = 1"
    by (simp add: heap_units_def)
  have "holds c heap_sem = []" if "running t k'" "waits c t = Some heap_sem" "rt_sem_take_return t k' = RT_EOK" for t
  proof -
    from that running_not_waiting(1) [OF inv(1)] have "t \<in> granted k' c heap_sem"
      by (auto simp: granted_def rt_sem_take_return_def split: if_splits)
    then have "0 < card (granted k' c heap_sem)" using inv(3) by (auto simp: card_gt_0_iff)
    then have "length (holds c heap_sem) = 0" using sum by linarith
    then show ?thesis by simp
  qed
  moreover have "holds c heap_sem \<noteq> [] \<or> (\<exists>t. t \<in> granted k' c heap_sem)" if "waiters k' heap_sem \<noteq> []"
  proof -
    have "sem_value (sems k' heap_sem) = 0" using inv(1) that by (simp add: kernel_ok_def)
    with sum show ?thesis by (cases "granted k' c heap_sem = {}") auto
  qed
  moreover have "length (holds c heap_sem) \<le> 1" using sum by simp
  ultimately show ?thesis using startup_eq r(1) by (auto simp: granted_def rt_sem_take_return_def)
qed

theorem heap_exclusive_witness:
  "\<exists>k k' c. rtthread_startup reset_kernel = Some k \<and>
     kernel_run [Take timer_thread heap_sem (- 1), Sleep timer_thread 3, Schedule timer_thread, Take main_thread heap_sem (- 1)] (k, no_calls) = Some (k', c) \<and>
     length (holds c heap_sem) \<le> 1 \<and>
     (\<forall>t. running t k' \<and> waits c t = Some heap_sem \<and> rt_sem_take_return t k' = RT_EOK \<longrightarrow> holds c heap_sem = []) \<and>
     (waiters k' heap_sem \<noteq> [] \<longrightarrow> holds c heap_sem \<noteq> [] \<or>
       (\<exists>t. waits c t = Some heap_sem \<and> t \<notin> set (waiters k' heap_sem) \<and> rt_sem_take_return t k' = RT_EOK))"
  by (rule heap_exclusive) (simp add: ids)

text \<open>C9: The order of the start: after reset the thread of the soft timers runs and suspends itself, then
  \<open>main\<close>, which creates all three tasks before any of them runs; when it goes to sleep the UART
  task is the first to run, then the display task, then the key scanner, and at last the idle
  thread, whatever legal delays the tasks ask for. No tick falls into the sequence.\<close>

theorem boot_order:
  assumes "0 \<le> sint a" "a \<noteq> 0x7FFFFFFF" "0 \<le> sint b" "b \<noteq> 0x7FFFFFFF" "0 \<le> sint c" "c \<noteq> 0x7FFFFFFF"
  shows "on_cpu [] = Some timer_thread \<and>
    on_cpu rt_thread_timer_entry = Some main_thread \<and>
    on_cpu (rt_thread_timer_entry @ UartTaskInit @ ButtonTaskInit @ OledTaskInit) = Some main_thread \<and>
    on_cpu (rt_thread_timer_entry @ fw_main) = Some uart_thread \<and>
    on_cpu (rt_thread_timer_entry @ fw_main @ mdelay uart_thread a) = Some oled_thread \<and>
    on_cpu (rt_thread_timer_entry @ fw_main @ mdelay uart_thread a @ mdelay oled_thread b) = Some button_thread \<and>
    on_cpu (rt_thread_timer_entry @ fw_main @ mdelay uart_thread a @ mdelay oled_thread b @ mdelay button_thread c) = Some tidle"
proof -
  have r1: "reaches (rt_thread_timer_entry @ fw_main) uart_thread order1 task_prios"
    using reaches_sleep [OF reaches_main(2), of 1000 uart_thread] order_best(1)
    by (simp add: fw_main_def order1_def) (simp add: orders)
  have r2: "reaches ((rt_thread_timer_entry @ fw_main) @ mdelay uart_thread a) oled_thread order2 task_prios"
    unfolding order2_def by (rule reaches_sleep [OF r1]) (use assms order_best in \<open>simp_all add: orders\<close>)
  have r3: "reaches (((rt_thread_timer_entry @ fw_main) @ mdelay uart_thread a) @ mdelay oled_thread b) button_thread order3 task_prios"
    unfolding order3_def by (rule reaches_sleep [OF r2]) (use assms order_best in \<open>simp_all add: orders\<close>)
  have r4: "reaches ((((rt_thread_timer_entry @ fw_main) @ mdelay uart_thread a) @ mdelay oled_thread b) @ mdelay button_thread c)
      tidle (order3(button_thread := 2, tidle := 3)) task_prios"
    by (rule reaches_sleep [OF r3]) (use assms order_best in \<open>simp_all add: orders\<close>)
  have "on_cpu [] = Some timer_thread" by (simp add: on_cpu_def startup_eq booted_fields)
  then show ?thesis
    using reaches_main [THEN reaches_on_cpu] r1 [THEN reaches_on_cpu] r2 [THEN reaches_on_cpu] r3 [THEN reaches_on_cpu] r4 [THEN reaches_on_cpu]
    by simp
qed

theorem boot_order_witness:
  "on_cpu [] = Some timer_thread \<and>
    on_cpu rt_thread_timer_entry = Some main_thread \<and>
    on_cpu (rt_thread_timer_entry @ UartTaskInit @ ButtonTaskInit @ OledTaskInit) = Some main_thread \<and>
    on_cpu (rt_thread_timer_entry @ fw_main) = Some uart_thread \<and>
    on_cpu (rt_thread_timer_entry @ fw_main @ mdelay uart_thread 50) = Some oled_thread \<and>
    on_cpu (rt_thread_timer_entry @ fw_main @ mdelay uart_thread 50 @ mdelay oled_thread 100) = Some button_thread \<and>
    on_cpu (rt_thread_timer_entry @ fw_main @ mdelay uart_thread 50 @ mdelay oled_thread 100 @ mdelay button_thread 20) = Some tidle"
  by (rule boot_order) simp_all

section \<open>Scheduling and sleeping\<close>

text \<open>C8: A call of the unlocked scheduler leaves the processor to a running thread that no ready thread beats: no ready
  thread has a better priority. The other invariants of the queues are kept.\<close>

theorem rt_schedule_best:
  assumes "sched_ok k" "rt_current_thread k = Some c" "scheduler_lock_nest k = 0"
    and "st k c = RT_THREAD_RUNNING \<or> (\<exists>t. st k t = RT_THREAD_READY)"
  shows "\<exists>k' c'. rt_schedule k = Some k' \<and> sched_ok k' \<and> rt_current_thread k' = Some c' \<and> st k' c' = RT_THREAD_RUNNING \<and>
     (\<forall>t. st k' t = RT_THREAD_READY \<longrightarrow> prio k' c' \<le> prio k' t)"
  using runs_best [OF assms(1-3)] assms(4) by simp

theorem rt_schedule_best_witness:
  "\<exists>k' c'. rt_schedule booted = Some k' \<and> sched_ok k' \<and> rt_current_thread k' = Some c' \<and> st k' c' = RT_THREAD_RUNNING \<and>
     (\<forall>t. st k' t = RT_THREAD_READY \<longrightarrow> prio k' c' \<le> prio k' t)"
  by (rule rt_schedule_best [of _ timer_thread]) (use kernel_ok_booted in \<open>simp_all add: kernel_ok_def booted_fields\<close>)

text \<open>C21: Threads of one priority take turns: when the scheduler is not locked and no ready thread has a better priority than the running one, the
  threads before \<open>t\<close> in its queue and then \<open>t\<close> get the processor as each running thread yields,
  and those that had it wait behind, in the order in which they ran.\<close>

theorem round_robin:
  assumes "kernel_ok k" "running c k" "scheduler_lock_nest k = 0" "queue k (prio k c) = us @ t # ts"
    "\<forall>x. st k x = RT_THREAD_READY \<longrightarrow> prio k c \<le> prio k x" "\<forall>x\<in>set (c # us). waits h x = None"
  shows "\<exists>k'. kernel_run (map Yield (c # us)) (k, h) = Some (k', h) \<and> running t k' \<and> queue k' (prio k c) = ts @ c # us"
  using round_robin_run [OF assms(1-4), of h] assms(5,6) by auto

definition three_equal :: kernel where
  "three_equal = booted\<lparr>thr := (thr booted)(uart_thread := ready_thread 4 10, oled_thread := ready_thread 4 10),
     lists := (lists booted)(Priority_table 4 := [uart_thread, oled_thread]), ready_priority_group := 0x80000410\<rparr>"

lemma three_equal_fields:
  "st three_equal t = (if t = uart_thread \<or> t = oled_thread then 1 else st booted t)"
  "prio three_equal t = (if t = uart_thread \<or> t = oled_thread then 4 else prio booted t)"
  "number_mask (thr three_equal t) = (if t = uart_thread \<or> t = oled_thread then 2 ^ 4 else number_mask (thr booted t))"
  "unat (init_priority (thr three_equal t)) = prio three_equal t" "\<not> has_flag m (tm three_equal t)"
  "lists three_equal h = (if h = Priority_table 4 then [uart_thread, oled_thread] else lists booted h)"
  by (auto simp: three_equal_def stat_of_def ready_thread_def booted_fields has_flag_def)
    (use booted_fields(5) in \<open>simp add: has_flag_def\<close>)

lemma three_equal_ok: "kernel_ok three_equal" "running timer_thread three_equal" "scheduler_lock_nest three_equal = 0"
proof -
  have group: "(0x80000410 :: u32) = (2 ^ 10 OR 2 ^ 31) OR 2 ^ 4" by simp
  have bits: "bit (0x80000410 :: u32) p \<longleftrightarrow> p = 10 \<or> p = 31 \<or> p = 4" if "p < 32" for p
    unfolding group bit_group_insert [OF that] by (auto simp: bit_exp_iff simp del: power_numeral)
  have "bit (ready_priority_group three_equal) p \<longleftrightarrow> queue three_equal p \<noteq> []" if "p < 32" for p
    using bits [OF that] by (simp add: three_equal_fields booted_fields) (simp add: three_equal_def)
  then have "queues_ok three_equal"
    unfolding queues_ok_def three_equal_fields booted_fields(1-6) by (intro conjI) (simp_all add: ids)
  moreover have "cur_ok three_equal" unfolding cur_ok_def three_equal_fields booted_fields by (simp add: three_equal_def booted_fields ids)
  moreover have "timers_ok 1 three_equal" unfolding timers_ok_def by (simp add: three_equal_fields) (simp add: three_equal_def booted_fields)
  moreover have "expired_list three_equal = []" "rt_current_thread three_equal = Some timer_thread" "sems three_equal = sems booted"
    by (simp_all add: three_equal_def booted_fields)
  ultimately show "kernel_ok three_equal" "running timer_thread three_equal" "scheduler_lock_nest three_equal = 0"
    by (auto simp: kernel_ok_def sched_ok_def running_def three_equal_fields booted_fields ids) (simp_all add: three_equal_def booted_fields)
qed

theorem round_robin_witness:
  "\<exists>k'. kernel_run (map Yield [timer_thread, uart_thread]) (three_equal, no_calls) = Some (k', no_calls) \<and> running oled_thread k' \<and>
     queue k' 4 = [timer_thread, uart_thread]"
  using round_robin [OF three_equal_ok, of "[uart_thread]" oled_thread "[]" no_calls]
  by (simp add: three_equal_fields booted_fields no_calls_def ids)

text \<open>C6: A thread that calls \<open>rt_thread_sleep\<close> with \<open>n < 0x7FFFFFFF\<close> ticks is suspended until the tick number \<open>n\<close> (the first
  one for \<open>n = 0\<close>) and ready or running again at the end of that tick, whatever the other threads
  do meanwhile and also when the tick counter wraps around.\<close>

theorem sleep_exact:
  assumes s: "kernel_inv units (k, h)" and t: "can_call t k h" "t \<noteq> tidle" and n: "n < 0x7FFFFFFF"
    and es: "\<forall>e\<in>set es. supported e"
  shows "(count_list es Tick < max 1 (unat n) \<longrightarrow>
       (\<exists>k' h'. kernel_run (Sleep t n # es) (k, h) = Some (k', h') \<and> st k' t = RT_THREAD_SUSPEND)) \<and>
     (Suc (count_list es Tick) = max 1 (unat n) \<longrightarrow>
       (\<exists>k' h'. kernel_run (Sleep t n # es @ [Tick]) (k, h) = Some (k', h') \<and> st k' t \<in> {RT_THREAD_READY, RT_THREAD_RUNNING}))"
proof -
  from sleep_start [OF s t n] obtain k1 where
    k1: "kernel_step (Sleep t n) (k, h) = Some (k1, h)" "kernel_inv units (k1, h)" "sleeping k1 t (Suc (unat n))" by blast
  have early: "\<exists>k' h'. kernel_run (Sleep t n # es) (k, h) = Some (k', h') \<and> kernel_inv units (k', h') \<and> sleeping k' t (Suc (unat n) - count_list es Tick)"
    if "count_list es Tick < max 1 (unat n)"
  proof -
    from that have "count_list es Tick = 0 \<or> count_list es Tick + 2 \<le> Suc (unat n)" by auto
    from sleeping_run [OF k1(2,3) es this] k1(1) show ?thesis by simp
  qed
  have "\<exists>k' h'. kernel_run (Sleep t n # es @ [Tick]) (k, h) = Some (k', h') \<and> (st k' t = 1 \<or> st k' t = 3)"
    if m: "Suc (count_list es Tick) = max 1 (unat n)"
  proof -
    from early m obtain k2 h2 where k2: "kernel_run (Sleep t n # es) (k, h) = Some (k2, h2)" "kernel_inv units (k2, h2)"
      "sleeping k2 t (Suc (unat n) - count_list es Tick)" by auto
    from m have "Suc (unat n) - count_list es Tick \<le> 2" by auto
    with sleeping_tick [OF k2(2,3)] obtain k' where k': "kernel_step Tick (k2, h2) = Some (k', h2)" "st k' t = 1 \<or> st k' t = 3" by auto
    have "kernel_run ((Sleep t n # es) @ [Tick]) (k, h) = Some (k', h2)" unfolding kern.run_append k2(1) using k'(1) by simp
    with k'(2) show ?thesis by (auto simp only: append_Cons)
  qed
  then show ?thesis using early sleeping_suspended kernel_invD(1) by fastforce
qed

lemma kernel_inv_booted_at: "kernel_inv heap_units (booted\<lparr>rt_tick := n\<rparr>, no_calls)"
proof -
  have "sched_ok (booted\<lparr>rt_tick := n\<rparr>)"
    by (rule sched_ok_cong [of booted]) (use kernel_ok_booted in \<open>simp_all add: kernel_ok_def\<close>)
  moreover have "timers_ok 1 (booted\<lparr>rt_tick := n\<rparr>)" unfolding timers_ok_def by (simp add: booted_fields)
  moreover have "calls_ok (booted\<lparr>rt_tick := n\<rparr>) no_calls" by (rule calls_ok_cong [OF kernel_invD(2) [OF kernel_inv_booted]]) simp_all
  moreover have "granted (booted\<lparr>rt_tick := n\<rparr>) no_calls i = granted booted no_calls i" for i by (simp add: granted_def)
  ultimately show ?thesis using kernel_inv_booted by (simp add: kernel_inv_def kernel_ok_def)
qed

theorem sleep_exact_witness:
  "(\<exists>k' h'. kernel_run [Sleep timer_thread 2, Schedule timer_thread, Tick] (booted\<lparr>rt_tick := 0xFFFFFFFF\<rparr>, no_calls) = Some (k', h') \<and>
      st k' timer_thread = RT_THREAD_SUSPEND) \<and>
   (\<exists>k' h'. kernel_run [Sleep timer_thread 2, Schedule timer_thread, Tick, Tick] (booted\<lparr>rt_tick := 0xFFFFFFFF\<rparr>, no_calls) = Some (k', h') \<and>
      st k' timer_thread \<in> {RT_THREAD_READY, RT_THREAD_RUNNING})"
  using sleep_exact [OF kernel_inv_booted_at [of "0xFFFFFFFF"], of timer_thread 2 "[Schedule timer_thread, Tick]"]
  by (simp add: can_call_def no_calls_def running_def booted_fields ids del: kernel_run.simps)

section \<open>Delays\<close>

lemma sleep_too_long:
  assumes k: "kernel_ok k" and t: "running t k" and n: "\<not> n < 0x7FFFFFFF"
  shows "rt_thread_sleep_suspend n k = None"
proof -
  from t have c: "rt_current_thread k = Some t" "st k t = 3" by (simp_all add: running_def)
  from k have "sched_ok k" "timers_ok 1 k" by (simp_all add: kernel_ok_def)
  with suspend_running_ok [OF _ _ c] obtain k1 where "rt_thread_suspend t k = Some (0, k1)" by blast
  then show ?thesis
    using c n by (simp add: rt_thread_sleep_suspend_def start_thread_timer_def rt_timer_control_def rt_timer_start_def upd_timer_def Let_def)
qed

text \<open>C38: A delay of a running thread fails an assertion of the kernel exactly when the number of milliseconds
  is negative or \<open>0x7FFFFFFF\<close>; the comment of \<open>rt_tick_from_millisecond\<close> promises to wait
  forever for the former and allows the latter.\<close>

theorem mdelay_fails:
  assumes "kernel_ok k" "running t k" "t \<noteq> tidle"
  shows "rt_thread_mdelay ms k = None \<longleftrightarrow> sint ms < 0 \<or> ms = 0x7FFFFFFF"
proof (cases "sint ms < 0 \<or> ms = 0x7FFFFFFF")
  case True
  then have "\<not> rt_tick_from_millisecond ms < 0x7FFFFFFF" by (auto simp: tick_from_millisecond)
  with True sleep_too_long [OF assms(1,2)] show ?thesis by (simp add: rt_thread_mdelay_def rt_thread_sleep_def)
next
  case False
  with mdelay_ticks [of ms t] have ms: "rt_tick_from_millisecond ms = ms" "ms < 0x7FFFFFFF" by (simp_all add: tick_from_millisecond)
  from sleep_ok [OF assms ms(2)] obtain k1 where k1: "rt_thread_sleep_suspend ms k = Some k1" "kernel_ok k1" by blast
  from kernel_ok_schedule [OF k1(2)] obtain k2 where "rt_schedule k1 = Some k2" by blast
  with False k1 ms show ?thesis by (simp add: rt_thread_mdelay_def rt_thread_sleep_def)
qed

theorem mdelay_fails_witness:
  "kernel_ok booted \<and> running timer_thread booted \<and> rt_thread_mdelay (- 1) booted = None \<and> rt_thread_mdelay 50 booted \<noteq> None"
proof -
  have r: "running timer_thread booted" "timer_thread \<noteq> tidle" by (simp_all add: running_def booted_fields ids)
  show ?thesis using mdelay_fails [OF kernel_ok_booted r, of "- 1"] mdelay_fails [OF kernel_ok_booted r, of 50] kernel_ok_booted r by simp
qed

text \<open>The tick of the vendor library never exceeds 4294967: it follows the system tick up to there and
  then starts again from zero, after about 72 minutes, because the product by 1000 wraps
  around.\<close>

theorem HAL_GetTick_wraps:
  "HAL_GetTick k = word_of_nat (unat (rt_tick k) * 1000 mod 2 ^ 32 div 1000) \<and> unat (HAL_GetTick k) \<le> 4294967 \<and>
   (HAL_GetTick k = rt_tick k \<longleftrightarrow> unat (rt_tick k) \<le> 4294967)"
proof -
  have v: "unat (HAL_GetTick k) = unat (rt_tick k) * 1000 mod 2 ^ 32 div 1000"
    by (simp add: HAL_GetTick_def unat_div unat_word_ariths)
  have "HAL_GetTick k = word_of_nat (unat (HAL_GetTick k))" by simp
  then have "HAL_GetTick k = word_of_nat (unat (rt_tick k) * 1000 mod 2 ^ 32 div 1000)" by (simp only: v)
  moreover have "unat (HAL_GetTick k) \<le> 4294967"
    unfolding v using mod_less_divisor [of "2 ^ 32" "unat (rt_tick k) * 1000"] by (simp del: mod_less_divisor)
  moreover have "unat (HAL_GetTick k) = unat (rt_tick k)" if "unat (rt_tick k) \<le> 4294967" unfolding v using that by simp
  ultimately show ?thesis by (metis word_unat_eq_iff)
qed

end
