(* ===== verification/Spec2Isabelle.thy ===== *)
theory Spec2Isabelle
  imports Flows Hub_Session Rt_Console Rt_Boot
begin

text \<open>
  \<^bold>\<open>The program.\<close> \<^verbatim>\<open>src/infrared_module\<close> is the firmware of a controller for air conditioners: an
  STM32F103 running RT-Thread. A hub on an RS-485 line (UART1) reads and writes its registers
  with a Modbus protocol; a code library on UART2 turns commands into infrared signals and
  learns the signals of a remote control; three keys and a 128 x 64 display with an ST7567
  controller are its user interface; a few settings survive a reset in flash. Three tasks
  share global state: communication (50 ms), display (50 ms) and key scanner (20 ms), and two receive
  interrupts write the message buffers the communication task reads.

  \<^bold>\<open>Conventions.\<close> A C integer is a word of its width, or an integer with the conversion written
  out. The application's globals are one record \<open>world\<close> (\<open>Firmware_State\<close>); each task's statics
  are a record of their own. An operation takes and returns the state. Effects on the outside
  (bytes written, pins, delays) are appended to a trace. An operation with undefined behaviour
  (a store outside its array, a call through an invalid pointer, a failed assertion) and a loop that
  never ends have the value \<^term>\<open>None\<close>. Three accesses of the program leave their object on every run and would
  make every run \<^term>\<open>None\<close>; they act on memory of their own instead, whose contents are arbitrary: the CRC and the
  \<open>rt_memset\<close> of \<open>initModuleInfo\<close> (\<^verbatim>\<open>Uart.c\<close>, \<open>stray Behind_module_info\<close>), the copy in \<open>codeDataRecvResult\<close> from the address of a
  pointer (\<^verbatim>\<open>infrared.c\<close>, \<open>stray At_recv_parameter\<close>) and the ninth page of \<open>ST7567_UpdateScreen\<close> (\<^verbatim>\<open>ST7567.c\<close>,
  \<open>Buffer_after\<close>). So the theorems assume that the linker puts no other variable of the program there; what
  such an access does to the outcome is stated in \<open>Uart_Props\<close> (what survives a reset) and \<open>Lcd_Props\<close> (what the display is sent). Hardware and what is outside the program are
  parameters: the flash controller (\<open>flash_hw\<close>, with its reference manual's promises as \<open>nor_flash\<close>),
  the level of the pins, the frames that arrive, the contents of memory and flash at power-up.

  \<^bold>\<open>Theories\<close>, in the order of dependence, with the files they model
  (\<^verbatim>\<open>applications/\<close> unless said otherwise):

  \<^item> \<open>Base\<close>: integer types (\<^verbatim>\<open>inc/typedef.h\<close>), bytes of words, stores into blocks, shared lemmas.
  \<^item> \<open>Checksums\<close>: Modbus CRC-16, check byte (\<^verbatim>\<open>main.c\<close>), CRC-32 with its table
    (\<^verbatim>\<open>crc_32.c\<close>), chip identifier. Locales \<open>reflected_crc\<close> and \<open>byte_checksum\<close> give error
    detection once for all of them; the table is proved to be the IEEE polynomial's.
  \<^item> \<open>Lcd\<close>, \<open>Lcd_Shapes\<close>, \<open>Lcd_Props\<close>, \<open>Fonts\<close>: the display driver (\<^verbatim>\<open>Oled1309/st7567/ST7567.c\<close>)
    and the fonts. Locale \<open>canvas\<close>, interpreted on \<open>ST7567_DrawPixel\<close>, carries the drawing
    proofs: exact pixels, lines that end and stay within half a pixel, text that draws its glyphs
    only. An abstract receiver decodes the pin sequence of the serial link. Locale
    \<open>font_table\<close> is interpreted for the four fonts in use.
  \<^item> \<open>Flash\<close>: the flash driver (\<^verbatim>\<open>drivers/drv_flash_f1.c\<close>) on the two HAL routines it calls:
    a saved record reads back and nothing outside its page changes.
  \<^item> \<open>Firmware_State\<close>, \<open>Board\<close>: globals and accessors; pins, LED and the software timer (\<^verbatim>\<open>main.c\<close>).
  \<^item> \<open>Infrared\<close>, \<open>Module_Protocol\<close>: the two protocols (\<^verbatim>\<open>Uart/infrared.c\<close>, \<^verbatim>\<open>Uart/module.c\<close>):
    every frame sent is well-formed, register reads and writes are answered as they should.
  \<^item> \<open>Oled_Pages\<close>, \<open>Oled_Task\<close>: pages, event callbacks and navigation
    (\<^verbatim>\<open>Oled1309/OledPage.c\<close>, \<^verbatim>\<open>Oled1309/Oled1309.c\<close>).
  \<^item> \<open>Button_Task\<close>: the key scanner (\<^verbatim>\<open>Button/ButtonTask.c\<close>) and its classification of presses.
  \<^item> \<open>Uart_Task\<close>, \<open>Uart_Props\<close>: receive interrupts and the loop of the communication task, section
    by section (\<^verbatim>\<open>Uart/Uart.c\<close>): acceptance of frames, registration, repetition of commands
    (locale \<open>steady_command\<close>), saving of settings, debouncing.
  \<^item> \<open>Reactive\<close>: the locales \<open>reactive\<close>, \<open>safe_system\<close> and \<open>refined_system\<close> (which is a \<open>safe_system\<close>)
    for systems that run on a sequence of events; the firmware, the board and the kernel are interpretations.
  \<^item> \<open>Navigation\<close>, \<open>System\<close>: the page tree as abstract specification, and all tasks and
    interrupts in any order as a transition system, interpreted as \<open>firmware\<close>.
  \<^item> \<open>Flows\<close>: sequences through several passes: matching and learning sessions, locating,
    limits of the receive buffers.
  \<^item> \<open>Rt_Mem\<close>, \<open>Rt_Mem_Props\<close>, \<open>Rt_Mem_Use\<close>: the allocator of the operating system
    (\<^verbatim>\<open>rt-thread/src/mem.c\<close>). The headers represent a list of blocks; every operation is
    shown to keep that and refines an abstract store of byte arrays. Locales \<open>allocator\<close> and
    \<open>lifo_allocator\<close> state what clients rely on.
  \<^item> \<open>Rt_Kservice\<close>: memory and string routines (\<^verbatim>\<open>rt-thread/src/kservice.c\<close>): the word-wise
    copies do what byte loops do; strings are measured, copied, compared and searched as they should.
  \<^item> \<open>Rt_Format\<close>, \<open>Rt_Console\<close>: formatted output and the console (same file), and \<open>debugPrint\<close> (\<^verbatim>\<open>main.c\<close>):
    the layout of a number against a reference definition, what is written into a buffer of a given size, what the
    console is sent.
  \<^item> \<open>Hub_Heap\<close>: the hub protocol on that allocator; the contract \<open>rt_heap\<close> that
    \<open>Module_Protocol\<close> and \<open>System\<close> assume of the heap is proved of it.
  \<^item> \<open>Rt_Serial\<close>: reception by DMA below the receive interrupts
    (\<^verbatim>\<open>rt-thread/components/drivers/serial/serial.c\<close>, \<^verbatim>\<open>drivers/drv_usart.c\<close>): which bursts
    on the line reach \<open>Uart1_input\<close>.
  \<^item> \<open>Board_System\<close>: the system on top of both: bursts of bytes instead of frames, the state of the
    heap instead of its contract. The board is again interpreted as a \<open>refined_system\<close>.
  \<^item> \<open>Hub_Session\<close>: a command of the hub on that board from end to end: the burst on the line, the
    interrupt, the echo, and the three infrared commands in the seconds that follow; and what the task does
    when the hub falls silent.
  \<^item> \<open>Rt_Sched\<close>: the core of the kernel (\<^verbatim>\<open>rt-thread/src/\<close>\<^verbatim>\<open>scheduler.c\<close>, \<^verbatim>\<open>timer.c\<close>, \<^verbatim>\<open>clock.c\<close>, \<^verbatim>\<open>thread.c\<close>): ready
    queues with their bitmap, timers, the tick, the life of a thread up to its deletion.
    \<open>Rt_Sched_Queues\<close>, \<open>Rt_Sched_Props\<close> and \<open>Rt_Sched_Timers\<close> hold the invariants of the queues, of the
    current thread and of the timer list, and what \<open>rt_schedule\<close> and \<open>rt_tick_increase\<close> do to them.
  \<^item> \<open>Rt_Ipc\<close>: semaphores (\<^verbatim>\<open>rt-thread/src/ipc.c\<close>), one of which guards the heap.
  \<^item> \<open>Rt_Kernel\<close>, \<open>Rt_Kernel_Calls\<close>, \<open>Rt_Kernel_Props\<close>: ticks and the calls of the threads in any order as a
    transition system, interpreted as \<open>kern\<close>: no assertion fails, the best thread runs, sleeping threads wake up
    on their tick, a semaphore is never given out more often than it has units.
  \<^item> \<open>Rt_Boot\<close>: from reset to the idle thread (\<^verbatim>\<open>rt-thread/src/components.c\<close>, \<^verbatim>\<open>idle.c\<close>, \<open>main\<close> and the three task
    initialisers). The communication task is the first of the three to run, which is where \<open>System\<close> starts.
  \<^item> This theory: safety of the whole firmware and the refinement of the page tree.

  \<^bold>\<open>Bounds.\<close> The loop of \<open>ST7567_DrawLine\<close> runs with \<open>line_fuel\<close> = 128 rounds and says whether it was
  left by its \<open>break\<close>; clipped coordinates differ by less than 128, and the theorem says it always is.
  The scan loop of \<open>ST7567_DrawFilledTriangle\<close> and the two loops of \<open>rt_malloc\<close> are
  \<open>partial_function\<close>s, the latter shown to return on every heap in good order; so are the searches
  for the end of a string, shown to return when there is one, and the loop of \<open>rt_timer_check\<close>, shown to return
  at every tick. All other loops are
  structural or have a termination proof; formatted output of \<open>2^31\<close> characters or more, where its counters
  would overflow, has no result.

  \<^bold>\<open>Granularity.\<close> In \<open>System\<close> a pass of a task and an interrupt are atomic. The interrupts may
  arrive between any two passes, so a frame that replaces a pending message is covered; one
  that arrives in the middle of a pass is not. In particular \<open>matchCallBack\<close> sleeps for 1000 ms in the middle of a
  pass of the communication task (\<^verbatim>\<open>OledPage.c\<close>), in which the display and key tasks run; the model lets them run before
  or after that pass only. In \<open>Rt_Kernel\<close> an event is a stretch of a kernel call that runs with
  interrupts disabled, so ticks fall between the suspension of a thread and the switch to the next.

  \<^bold>\<open>Not modelled.\<close> Of the kernel: soft timers (the firmware starts none), thread exit and deletion, changing the
  priority of a thread, hooks, the stack check, mutexes, events, mailboxes and message queues, none of which the
  firmware uses; the choice of a console device. A thread that suspends itself under the scheduler lock keeps the processor in the
  code, because \<open>rt_schedule\<close> returns at once, and may make further calls; \<open>can_call\<close> wants the calling thread to be in the
  running state, so the model ignores those. Nothing in the firmware suspends itself under the lock. Transmission below
  \<open>rt_device_write\<close>; interrupt-driven and polled serial reception, which no line of the firmware
  uses; the real-time clock (\<^verbatim>\<open>real_time.c\<close>, never called); the seven font tables nothing draws with; the
  hardware-SPI variant of the display link and the flash partition layer, both compiled out; the rest of the
  vendored kernel, HAL and drivers, which is register access or serves peripherals the firmware does not
  enable.
\<close>

section \<open>Safety of the whole firmware\<close>

lemma sys_at_facts:
  assumes "sys_at p s"
  shows "shows_page (sys_world s) p" "cursor_ok (pageSelect (sys_world s))" "lcd_wf (disp (sys_world s))"
    "mode_ok (module_info (sys_world s))"
  using assms by (auto simp: sys_at_def ui_inv_def)

text \<open>
  C1: on admissible events the firmware does not fault beyond three known stray accesses. Admissible are frames of at
  most 100 bytes on both lines, where a match answer of the code library (seven bytes, command 0x41) carries a brand code
  below 10000, and passes of the three tasks in any order, with any pins, any flash behaviour and a heap that keeps its
  contract. From reset, with any flash contents, chip identity and memory, every sequence of them stores inside the
  receive buffers, the blocks of the heap and the array of the brand code's digits, and calls no invalid function pointer;
  afterwards the display shows a page of the page tree, the cursor is inside the menu, the frame buffer has its
  size and the mode is one of the two modes. Excepted are the accesses that leave their object on every run:
  \<open>initModuleInfo\<close> checks and clears memory behind the record, the ninth page of \<open>ST7567_UpdateScreen\<close> and
  \<open>codeDataRecvResult\<close> read behind their objects. They reach memory of their own here (\<open>stray\<close>, \<open>Buffer_after\<close>), with
  any contents, which is what the hardware does as long as no other variable lies there.
\<close>

theorem firmware_never_faults:
  assumes "\<forall>i\<in>set is. admissible i"
  shows "\<exists>s p. sys_run hw is (sys_boot fl ids beyond after) = Some s \<and> shows_page (sys_world s) p \<and>
    cursor_ok (pageSelect (sys_world s)) \<and> lcd_wf (disp (sys_world s)) \<and> mode_ok (module_info (sys_world s))"
  using firmware.run_ok [of "sys_boot fl ids beyond after" "is" hw] assms sys_at_boot sys_at_facts by metis

theorem firmware_never_faults_witness:
  "\<exists>s. sys_run ref_hw [Uart_pass ref_heap 1, Oled_pass, Button_pass (\<lambda>_. 0), Rx1 [1, 3, 0, 7, 0, 1, 0, 0],
     Uart_pass ref_heap 0, Button_pass (\<lambda>_. 0), Oled_pass] (sys_boot (\<lambda>_. 0xFF) (1, 2, 3) (\<lambda>_ _. 0) (\<lambda>_. 0)) = Some s \<and>
     lcd_wf (disp (sys_world s))"
  using firmware_never_faults [of "[Uart_pass ref_heap 1, Oled_pass, Button_pass (\<lambda>_. 0),
      Rx1 [1, 3, 0, 7, 0, 1, 0, 0], Uart_pass ref_heap 0, Button_pass (\<lambda>_. 0), Oled_pass]"
      ref_hw "\<lambda>_. 0xFF" "(1, 2, 3)" "\<lambda>_ _. 0" "\<lambda>_. 0"] rt_heap_ref
  by auto

section \<open>The user interface refines the page tree\<close>

text \<open>
  C2: the user interface refines the page tree. In every state reachable by admissible events the page shown is
  reachable from the home page in the abstract navigation graph, and whatever admissible event comes next
  (a frame, a pass of any task) runs and keeps the page, goes back to its parent, or opens one of its
  children.
\<close>

theorem navigation_refines_tree:
  assumes "\<forall>i\<in>set is. admissible i" "admissible i" "sys_run hw is (sys_boot fl ids beyond after) = Some s"
  shows "\<exists>p q s'. shows_page (sys_world s) p \<and> ui_step\<^sup>*\<^sup>* Home p \<and>
    sys_step hw i s = Some s' \<and> shows_page (sys_world s') q \<and> ui_step p q"
proof -
  obtain p where p: "ui_step\<^sup>*\<^sup>* Home p" "sys_at p s"
    using firmware.run_sim [OF sys_at_boot assms(1), of hw fl ids beyond after] assms(3) by auto
  obtain q s' where "sys_step hw i s = Some s'" "ui_step p q" "sys_at q s'"
    using firmware.step_sim [OF p(2) assms(2), of hw] by blast
  with p show ?thesis using sys_at_facts(1) by blast
qed

theorem navigation_refines_tree_witness:
  "\<exists>q s'. sys_step ref_hw (Uart_pass ref_heap 1) (sys_boot (\<lambda>_. 0xFF) (1, 2, 3) (\<lambda>_ _. 0) (\<lambda>_. 0)) = Some s' \<and>
     shows_page (sys_world s') q \<and> ui_step Home q"
proof -
  let ?s = "sys_boot (\<lambda>_. 0xFF) (1, 2, 3) (\<lambda>_ _. 0) (\<lambda>_. 0)"
  have "shows_page (sys_world ?s) p \<Longrightarrow> p = Home" for p
    using sys_at_facts(1) [OF sys_at_boot, of "\<lambda>_. 0xFF" "(1, 2, 3)" "\<lambda>_ _. 0" "\<lambda>_. 0"]
    by (simp add: shows_page_def page_code_inj del: page_code.simps)
  with navigation_refines_tree [of "[]" "Uart_pass ref_heap 1" ref_hw "\<lambda>_. 0xFF" "(1, 2, 3)" "\<lambda>_ _. 0" "\<lambda>_. 0" ?s] rt_heap_ref
  show ?thesis by fastforce
qed

end
